(* ===== verification/Rust_Prelude.thy ===== *)
theory Rust_Prelude
  imports Main "HOL-Library.Word" "HOL-Library.List_Lexorder"
begin

text \<open>
  What the components share: the Rust values the code computes with and the interfaces several
  components implement.

  \<^item> A \<open>&str\<close> is the list of its Unicode scalar values (\<open>str\<close>); \<open>blen\<close> is \<open>str::len\<close>, the number
    of UTF-8 bytes, and \<open>as_bytes\<close> the bytes themselves. \<open>BTreeSet<String>\<close> orders strings by
    their bytes; for UTF-8 that is the lexicographic order of the scalar values, the order
    of \<open>HOL-Library.List_Lexorder\<close>.
  \<^item> \<open>Result<T, E>\<close> is \<open>'e + 't\<close>; the \<open>?\<close> operator is \<open>try_then\<close>, \<open>map_err\<close> and \<open>collect\<close> into a
    \<open>Result\<close> are \<open>map_err\<close> and \<open>try_map\<close>.
  \<^item> \<open>i64\<close> is \<open>int\<close> with two's complement wrap-around written out (\<open>i64\<close>), as in a release build;
    \<open>u64\<close> and \<open>usize\<close> are \<open>nat\<close> with the checked operations of the source.
  \<^item> The locales \<open>label_codec\<close> (an enum with its stored label), \<open>canonical_form\<close> (a normaliser) and
    \<open>versioned_store\<close> (optimistic concurrency control) are interpreted by the components that
    provide them.
\<close>

section \<open>Rule collections\<close>

named_theorems rust_str \<open>evaluation of string literals and string functions\<close>
named_theorems err_defs \<open>error-propagation combinators\<close>

section \<open>Strings\<close>

type_synonym uchar = nat
type_synonym str = "uchar list"
type_synonym byte = "8 word"

definition lit :: "string \<Rightarrow> str" where
  "lit s = map of_char s"

lemma lit_Nil [simp]: "lit [] = []"
  by (simp add: lit_def)

lemma lit_eq_Nil [simp]: "lit s = [] \<longleftrightarrow> s = []"
  by (simp add: lit_def)

lemma lit_append [simp]: "lit (s @ t) = lit s @ lit t"
  by (simp add: lit_def)

declare lit_def [rust_str]

subsection \<open>Character classes\<close>

definition is_control :: "uchar \<Rightarrow> bool" where
  "is_control c \<longleftrightarrow> c < 32 \<or> (127 \<le> c \<and> c < 160)"

definition is_whitespace :: "uchar \<Rightarrow> bool" where
  "is_whitespace c \<longleftrightarrow> (9 \<le> c \<and> c \<le> 13) \<or> c = 32 \<or> c = 133 \<or> c = 160 \<or> c = 5760
     \<or> (8192 \<le> c \<and> c \<le> 8202) \<or> c = 8232 \<or> c = 8233 \<or> c = 8239 \<or> c = 8287 \<or> c = 12288"

definition is_ascii_digit :: "uchar \<Rightarrow> bool" where
  "is_ascii_digit c \<longleftrightarrow> 48 \<le> c \<and> c \<le> 57"

definition is_ascii_upper :: "uchar \<Rightarrow> bool" where
  "is_ascii_upper c \<longleftrightarrow> 65 \<le> c \<and> c \<le> 90"

definition is_ascii_lower :: "uchar \<Rightarrow> bool" where
  "is_ascii_lower c \<longleftrightarrow> 97 \<le> c \<and> c \<le> 122"

definition is_ascii_alphanumeric :: "uchar \<Rightarrow> bool" where
  "is_ascii_alphanumeric c \<longleftrightarrow> is_ascii_digit c \<or> is_ascii_upper c \<or> is_ascii_lower c"

definition to_lower :: "uchar \<Rightarrow> uchar" where
  "to_lower c = (if is_ascii_upper c then c + 32 else c)"

lemmas char_class_defs [rust_str] =
  is_control_def is_whitespace_def is_ascii_digit_def is_ascii_upper_def is_ascii_lower_def
  is_ascii_alphanumeric_def to_lower_def

definition to_ascii_lowercase :: "str \<Rightarrow> str" where
  "to_ascii_lowercase s = map to_lower s"

lemma to_lower_idem [simp]: "to_lower (to_lower c) = to_lower c"
  by (auto simp: to_lower_def is_ascii_upper_def)

lemma to_ascii_lowercase_idem [simp]:
  "to_ascii_lowercase (to_ascii_lowercase s) = to_ascii_lowercase s"
  by (simp add: to_ascii_lowercase_def)

lemma length_to_ascii_lowercase [simp]: "length (to_ascii_lowercase s) = length s"
  by (simp add: to_ascii_lowercase_def)

lemma is_whitespace_to_lower [simp]: "is_whitespace (to_lower c) \<longleftrightarrow> is_whitespace c"
  by (auto simp: char_class_defs)

subsection \<open>Trimming\<close>

definition trim_start :: "str \<Rightarrow> str" where
  "trim_start s = dropWhile is_whitespace s"

definition trim_end :: "str \<Rightarrow> str" where
  "trim_end s = rev (dropWhile is_whitespace (rev s))"

definition trim :: "str \<Rightarrow> str" where
  "trim s = trim_end (trim_start s)"

lemmas trim_defs [rust_str] = trim_def trim_start_def trim_end_def to_ascii_lowercase_def

lemma trim_Nil [simp]: "trim [] = []"
  by (simp add: trim_defs)

lemma dropWhile_fixed: "dropWhile P xs = xs \<longleftrightarrow> xs = [] \<or> \<not> P (hd xs)"
proof (cases xs)
  case (Cons y ys)
  have "length (dropWhile P ys) \<noteq> length (y # ys)"
    using length_dropWhile_le [of P ys] by simp
  then have "dropWhile P ys \<noteq> y # ys" by metis
  with Cons show ?thesis by simp
qed simp

lemma trim_id:
  assumes "s = [] \<or> (\<not> is_whitespace (hd s) \<and> \<not> is_whitespace (last s))"
  shows "trim s = s"
proof -
  have "dropWhile is_whitespace s = s" and "dropWhile is_whitespace (rev s) = rev s"
    using assms by (auto simp: dropWhile_fixed hd_rev)
  then show ?thesis by (simp add: trim_defs)
qed

lemma hd_trim_start: "trim_start s \<noteq> [] \<Longrightarrow> \<not> is_whitespace (hd (trim_start s))"
  by (simp add: trim_start_def hd_dropWhile)

lemma last_trim_end: "trim_end s \<noteq> [] \<Longrightarrow> \<not> is_whitespace (last (trim_end s))"
  by (simp add: trim_end_def last_rev hd_dropWhile)

lemma hd_trim_end: "trim_end s \<noteq> [] \<Longrightarrow> hd (trim_end s) = hd s"
proof -
  assume ne: "trim_end s \<noteq> []"
  have "s = trim_end s @ rev (takeWhile is_whitespace (rev s))"
    unfolding trim_end_def by (metis rev_append rev_rev_ident takeWhile_dropWhile_id)
  with ne show ?thesis by (metis hd_append2)
qed

lemma trim_ends:
  "trim s \<noteq> [] \<Longrightarrow> \<not> is_whitespace (hd (trim s)) \<and> \<not> is_whitespace (last (trim s))"
proof -
  assume ne: "trim s \<noteq> []"
  then have "trim_start s \<noteq> []" by (auto simp: trim_def trim_end_def)
  with ne show ?thesis
    using hd_trim_end [of "trim_start s"] hd_trim_start [of s] last_trim_end [of "trim_start s"]
    by (simp add: trim_def)
qed

lemma trim_idem [simp]: "trim (trim s) = trim s"
  using trim_ends [of s] by (intro trim_id) blast

lemma set_trim: "set (trim s) \<subseteq> set s"
  by (auto simp: trim_defs dest!: set_dropWhileD)

lemma trim_no_ws: "\<forall>c \<in> set s. \<not> is_whitespace c \<Longrightarrow> trim s = s"
  by (rule trim_id) (cases "s = []", auto)


lemma trim_to_ascii_lowercase:
  "trim (to_ascii_lowercase s) = to_ascii_lowercase (trim s)"
  by (simp add: trim_defs dropWhile_map rev_map comp_def)

lemma fold_label_idem [simp]:
  "to_ascii_lowercase (trim (to_ascii_lowercase (trim s))) = to_ascii_lowercase (trim s)"
  by (simp add: trim_to_ascii_lowercase)

subsection \<open>Decimal numbers\<close>

fun dec_nat :: "nat \<Rightarrow> str" where
  "dec_nat n = (if n < 10 then [48 + n] else dec_nat (n div 10) @ [48 + n mod 10])"

declare dec_nat.simps [simp del, rust_str]

definition dec_int :: "int \<Rightarrow> str" where
  "dec_int z = (if z < 0 then 45 # dec_nat (nat (- z)) else dec_nat (nat z))"

declare dec_int_def [rust_str]

subsection \<open>Searching and splitting\<close>

definition starts_with :: "str \<Rightarrow> str \<Rightarrow> bool" where
  "starts_with p s \<longleftrightarrow> take (length p) s = p"

definition ends_with :: "str \<Rightarrow> str \<Rightarrow> bool" where
  "ends_with p s \<longleftrightarrow> starts_with (rev p) (rev s)"

definition strip_prefix :: "str \<Rightarrow> str \<Rightarrow> str option" where
  "strip_prefix p s = (if starts_with p s then Some (drop (length p) s) else None)"

fun contains_str :: "str \<Rightarrow> str \<Rightarrow> bool" where
  "contains_str [] p \<longleftrightarrow> p = []"
| "contains_str (c # cs) p \<longleftrightarrow> starts_with p (c # cs) \<or> contains_str cs p"

fun split_on :: "(uchar \<Rightarrow> bool) \<Rightarrow> str \<Rightarrow> str list" where
  "split_on P [] = [[]]"
| "split_on P (c # cs) =
     (if P c then [] # split_on P cs
      else (case split_on P cs of [] \<Rightarrow> [[c]] | l # ls \<Rightarrow> (c # l) # ls))"

definition strip_cr :: "str \<Rightarrow> str" where
  "strip_cr l = (if l \<noteq> [] \<and> last l = 13 then butlast l else l)"

text \<open>\<open>str::lines\<close>: a line feed ends a line, a carriage return before it is dropped, and the
  last piece counts only when it is not empty.\<close>

definition lines :: "str \<Rightarrow> str list" where
  "lines s = (let ls = split_on (\<lambda>c. c = 10) s
              in map strip_cr (butlast ls) @ (if last ls = [] then [] else [last ls]))"

definition split_whitespace :: "str \<Rightarrow> str list" where
  "split_whitespace s = filter (\<lambda>w. w \<noteq> []) (split_on is_whitespace s)"

text \<open>\<open>str::split_once\<close> at a character.\<close>

fun split_once :: "uchar \<Rightarrow> str \<Rightarrow> (str \<times> str) option" where
  "split_once d [] = None"
| "split_once d (c # cs) =
     (if c = d then Some ([], cs)
      else (case split_once d cs of None \<Rightarrow> None | Some (a, b) \<Rightarrow> Some (c # a, b)))"

fun join :: "str \<Rightarrow> str list \<Rightarrow> str" where
  "join sep [] = []"
| "join sep [x] = x"
| "join sep (x # y # ys) = x @ sep @ join sep (y # ys)"

lemma split_on_not_Nil [simp]: "split_on P s \<noteq> []"
  by (induction s) (auto split: list.splits)

lemma split_on_pieces: "l \<in> set (split_on P s) \<Longrightarrow> \<forall>c \<in> set l. \<not> P c"
proof (induction s arbitrary: l)
  case (Cons c cs)
  obtain m ms where ms: "split_on P cs = m # ms"
    by (cases "split_on P cs") auto
  have "\<forall>x \<in> set m. \<not> P x" using Cons.IH [of m] ms by simp
  moreover have "\<forall>x \<in> set k. \<not> P x" if "k \<in> set ms" for k
    using Cons.IH [of k] ms that by simp
  ultimately show ?case using Cons.prems ms by (cases "P c") auto
qed simp

lemma split_on_none: "\<forall>c \<in> set s. \<not> P c \<Longrightarrow> split_on P s = [s]"
  by (induction s) auto

lemma split_on_append:
  assumes "\<forall>c \<in> set s. \<not> P c" and "P d"
  shows "split_on P (s @ d # t) = s # split_on P t"
  using assms by (induction s) auto

lemma split_once_Some:
  "split_once d s = Some (a, b) \<longleftrightarrow> s = a @ d # b \<and> d \<notin> set a"
proof (induction s arbitrary: a)
  case (Cons c cs)
  show ?case
  proof (cases "c = d")
    case False
    show ?thesis
    proof (cases a)
      case Nil
      with False show ?thesis by (auto split: option.splits)
    next
      case (Cons x xs)
      with False Cons.IH [of xs] show ?thesis by (auto split: option.splits)
    qed
  qed (cases a, auto)
qed simp

subsection \<open>UTF-8\<close>

definition char_len :: "uchar \<Rightarrow> nat" where
  "char_len c = (if c < 128 then 1 else if c < 2048 then 2 else if c < 65536 then 3 else 4)"

fun blen :: "str \<Rightarrow> nat" where
  "blen [] = 0"
| "blen (c # cs) = char_len c + blen cs"

definition utf8_char :: "uchar \<Rightarrow> nat list" where
  "utf8_char c =
     (if c < 128 then [c]
      else if c < 2048 then [192 + c div 64, 128 + c mod 64]
      else if c < 65536 then [224 + c div 4096, 128 + c div 64 mod 64, 128 + c mod 64]
      else [240 + c div 262144, 128 + c div 4096 mod 64, 128 + c div 64 mod 64, 128 + c mod 64])"

definition as_bytes :: "str \<Rightarrow> byte list" where
  "as_bytes s = map of_nat (concat (map utf8_char s))"

definition valid_str :: "str \<Rightarrow> bool" where
  "valid_str s \<longleftrightarrow> (\<forall>c \<in> set s. c < 1114112)"

lemma char_len_pos [simp]: "0 < char_len c"
  by (simp add: char_len_def)

lemma char_len_le4: "char_len c \<le> 4"
  by (simp add: char_len_def)

lemma blen_append [simp]: "blen (s @ t) = blen s + blen t"
  by (induction s) auto

lemma blen_eq_0 [simp]: "blen s = 0 \<longleftrightarrow> s = []"
  by (cases s) auto

lemma blen_rev [simp]: "blen (rev s) = blen s"
  by (induction s) auto

lemma blen_dropWhile: "blen (dropWhile P s) \<le> blen s"
  by (induction s) auto

lemma blen_trim: "blen (trim s) \<le> blen s"
  unfolding trim_defs using blen_dropWhile le_trans by (metis blen_rev)

lemma blen_filter: "blen (filter P s) \<le> blen s"
  by (induction s) auto

lemma char_len_to_lower [simp]: "char_len (to_lower c) = char_len c"
  by (auto simp: char_len_def to_lower_def is_ascii_upper_def)

lemma blen_to_ascii_lowercase [simp]: "blen (to_ascii_lowercase s) = blen s"
  by (induction s) (auto simp: to_ascii_lowercase_def)

lemma length_le_blen: "length s \<le> blen s"
proof (induction s)
  case (Cons c cs)
  have "1 \<le> char_len c" by (simp add: char_len_def)
  with Cons show ?case by simp
qed simp

lemma length_utf8_char [simp]: "length (utf8_char c) = char_len c"
  by (simp add: utf8_char_def char_len_def)

lemma length_as_bytes [simp]: "length (as_bytes s) = blen s"
  by (induction s) (auto simp: as_bytes_def)

lemma as_bytes_append [simp]: "as_bytes (s @ t) = as_bytes s @ as_bytes t"
  by (simp add: as_bytes_def)

lemma as_bytes_Nil [simp]: "as_bytes [] = []"
  by (simp add: as_bytes_def)

text \<open>A decoder for one character shows that the encoding determines the string.\<close>

fun utf8_next :: "nat list \<Rightarrow> uchar" where
  "utf8_next (a # r) =
     (if a < 128 then a
      else (case r of
        [] \<Rightarrow> 0
      | b # r2 \<Rightarrow>
          (if a < 224 then (a - 192) * 64 + (b - 128)
           else (case r2 of
             [] \<Rightarrow> 0
           | c # r3 \<Rightarrow>
               (if a < 240 then (a - 224) * 4096 + (b - 128) * 64 + (c - 128)
                else (case r3 of
                  [] \<Rightarrow> 0
                | d # _ \<Rightarrow> (a - 240) * 262144 + (b - 128) * 4096 + (c - 128) * 64 + (d - 128)))))))"
| "utf8_next [] = 0"

lemma div64_split:
  fixes c :: nat
  shows "c div 4096 * 64 + c div 64 mod 64 = c div 64"
    and "c div 262144 * 64 + c div 4096 mod 64 = c div 4096"
    and "c div 64 * 64 + c mod 64 = c"
proof -
  have "c div 4096 = c div 64 div 64" and "c div 262144 = c div 4096 div 64"
    by (simp_all add: div_mult2_eq [symmetric])
  then show "c div 4096 * 64 + c div 64 mod 64 = c div 64"
    and "c div 262144 * 64 + c div 4096 mod 64 = c div 4096"
    and "c div 64 * 64 + c mod 64 = c"
    by simp_all
qed

lemma utf8_next_char:
  assumes "c < 1114112"
  shows "utf8_next (utf8_char c @ r) = c"
proof -
  have "c div 4096 * 4096 + (c div 64 mod 64) * 64 + c mod 64 = c"
    "c div 262144 * 262144 + (c div 4096 mod 64) * 4096 + (c div 64 mod 64) * 64 + c mod 64 = c"
    using div64_split [of c] by linarith+
  moreover have "c < 2048 \<Longrightarrow> c div 64 < 32" "c < 65536 \<Longrightarrow> c div 4096 < 16"
    by (simp_all add: less_mult_imp_div_less)
  ultimately show ?thesis
    by (cases "c < 128"; cases "c < 2048"; cases "c < 65536") (simp_all add: utf8_char_def)
qed

lemma utf8_char_bound:
  assumes "c < 1114112"
  shows "\<forall>b \<in> set (utf8_char c). b < 256"
proof -
  have "c < 2048 \<Longrightarrow> c div 64 < 32" "c < 65536 \<Longrightarrow> c div 4096 < 16" "c div 262144 < 16"
    "c mod 64 < 64" "c div 64 mod 64 < 64" "c div 4096 mod 64 < 64"
    using assms by (simp_all add: less_mult_imp_div_less)
  then have "c < 2048 \<Longrightarrow> c div 64 < 32" "c < 65536 \<Longrightarrow> c div 4096 < 16" "c div 262144 < 16"
    "c mod 64 < 128" "c div 64 mod 64 < 128" "c div 4096 mod 64 < 128"
    by linarith+
  then show ?thesis
    by (cases "c < 128"; cases "c < 2048"; cases "c < 65536") (simp_all add: utf8_char_def)
qed

lemma of_nat_byte_inj: "inj_on (of_nat :: nat \<Rightarrow> byte) {x. x < 256}"
proof (rule inj_onI)
  fix x y :: nat
  assume b: "x \<in> {x. x < 256}" "y \<in> {x. x < 256}" and eq: "(of_nat x :: byte) = of_nat y"
  have "unat (of_nat x :: byte) = unat (of_nat y :: byte)"
    by (rule arg_cong [OF eq])
  with b show "x = y" by (simp add: unat_of_nat)
qed

lemma utf8_char_not_Nil [simp]: "utf8_char c \<noteq> []"
  using length_utf8_char [of c] char_len_pos [of c] by fastforce

lemma utf8_concat_inj:
  assumes "valid_str s" and "valid_str t"
    and "concat (map utf8_char s) = concat (map utf8_char t)"
  shows "s = t"
  using assms
proof (induction s arbitrary: t)
  case Nil
  then show ?case by (cases t) auto
next
  case (Cons c cs)
  then obtain d ds where t: "t = d # ds"
    by (cases t) auto
  from Cons.prems t have eq: "utf8_char c @ concat (map utf8_char cs) = utf8_char d @ concat (map utf8_char ds)"
    by simp
  from Cons.prems t have "c < 1114112" "d < 1114112" by (auto simp: valid_str_def)
  with arg_cong [OF eq, of utf8_next] have "c = d" by (simp add: utf8_next_char)
  with eq Cons t show ?case by (auto simp: valid_str_def)
qed

lemma as_bytes_inj:
  assumes "valid_str s" and "valid_str t" and eq: "as_bytes s = as_bytes t"
  shows "s = t"
proof -
  have b: "\<forall>x \<in> set (concat (map utf8_char u)). x < 256" if "valid_str u" for u
    using that utf8_char_bound by (auto simp: valid_str_def)
  have "concat (map utf8_char s) = concat (map utf8_char t)"
  proof (rule map_inj_on)
    show "map of_nat (concat (map utf8_char s)) = (map of_nat (concat (map utf8_char t)) :: byte list)"
      using eq by (simp add: as_bytes_def)
    show "inj_on (of_nat :: nat \<Rightarrow> byte)
        (set (concat (map utf8_char s)) \<union> set (concat (map utf8_char t)))"
      by (rule inj_on_subset [OF of_nat_byte_inj]) (use b assms in auto)
  qed
  then show ?thesis using assms utf8_concat_inj by blast
qed


section \<open>Results\<close>

definition try_then :: "'e + 'a \<Rightarrow> ('a \<Rightarrow> 'e + 'b) \<Rightarrow> 'e + 'b" where
  "try_then m f = (case m of Inl e \<Rightarrow> Inl e | Inr x \<Rightarrow> f x)"

definition map_err :: "('e \<Rightarrow> 'f) \<Rightarrow> 'e + 'a \<Rightarrow> 'f + 'a" where
  "map_err g m = (case m of Inl e \<Rightarrow> Inl (g e) | Inr x \<Rightarrow> Inr x)"

definition ensure :: "bool \<Rightarrow> 'e \<Rightarrow> 'e + unit" where
  "ensure b e = (if b then Inr () else Inl e)"

fun try_map :: "('a \<Rightarrow> 'e + 'b) \<Rightarrow> 'a list \<Rightarrow> 'e + 'b list" where
  "try_map f [] = Inr []"
| "try_map f (x # xs) = try_then (f x) (\<lambda>y. try_then (try_map f xs) (\<lambda>ys. Inr (y # ys)))"

definition ok_or :: "'e \<Rightarrow> 'a option \<Rightarrow> 'e + 'a" where
  "ok_or e m = (case m of None \<Rightarrow> Inl e | Some x \<Rightarrow> Inr x)"

definition is_ok :: "'e + 'a \<Rightarrow> bool" where
  "is_ok m = (case m of Inl _ \<Rightarrow> False | Inr _ \<Rightarrow> True)"

definition result_ok :: "'e + 'a \<Rightarrow> 'a option" where
  "result_ok m = (case m of Inl _ \<Rightarrow> None | Inr x \<Rightarrow> Some x)"

declare try_then_def [err_defs] map_err_def [err_defs] ensure_def [err_defs] ok_or_def [err_defs]

lemma try_then_simps [simp]:
  "try_then (Inl e) f = Inl e" "try_then (Inr x) f = f x"
  by (simp_all add: try_then_def)

lemma try_then_Inr: "try_then m f = Inr y \<longleftrightarrow> (\<exists>x. m = Inr x \<and> f x = Inr y)"
  by (cases m) auto

lemma try_then_Inl: "try_then m f = Inl e \<longleftrightarrow> m = Inl e \<or> (\<exists>x. m = Inr x \<and> f x = Inl e)"
  by (cases m) auto

lemma map_err_simps [simp]:
  "map_err g (Inl e) = Inl (g e)" "map_err g (Inr x) = Inr x"
  "(map_err g m = Inr x) = (m = Inr x)"
  by (simp_all add: map_err_def split: sum.split)

lemma ensure_simps [simp]:
  "(ensure b e = Inr u) = b" "(ensure b e = Inl d) = (\<not> b \<and> d = e)"
  "ensure True e = Inr ()" "ensure False e = Inl e"
  by (auto simp: ensure_def)

lemma ok_or_simps [simp]:
  "ok_or e None = Inl e" "ok_or e (Some x) = Inr x" "(ok_or e m = Inr y) = (m = Some y)"
  by (simp_all add: ok_or_def split: option.split)

lemma is_ok_simps [simp]: "is_ok (Inl e) = False" "is_ok (Inr x) = True"
  by (simp_all add: is_ok_def)

lemma result_ok_simps [simp]:
  "result_ok (Inl e) = None" "result_ok (Inr x) = Some x" "(result_ok m = Some y) = (m = Inr y)"
  by (simp_all add: result_ok_def split: sum.split)

lemmas try_conv = try_then_Inr try_then_Inl

lemma try_map_Inr_list_all2:
  "try_map f xs = Inr ys \<longleftrightarrow> list_all2 (\<lambda>x y. f x = Inr y) xs ys"
  by (induction xs arbitrary: ys) (auto simp: try_then_Inr list_all2_Cons1)

lemma try_map_ok_set:
  "try_map f xs = Inr ys \<Longrightarrow> y \<in> set ys \<Longrightarrow> \<exists>x \<in> set xs. f x = Inr y"
  by (induction xs arbitrary: ys) (auto simp: try_then_Inr)

lemma try_map_length: "try_map f xs = Inr ys \<Longrightarrow> length ys = length xs"
  by (simp add: try_map_Inr_list_all2 list_all2_lengthD)

lemma try_map_id: "(\<forall>x \<in> set xs. f x = Inr x) \<Longrightarrow> try_map f xs = Inr xs"
  by (induction xs) auto

section \<open>Ordered sets of strings\<close>

text \<open>\<open>collect::<BTreeSet<_>>().into_iter().collect::<Vec<_>>()\<close>.\<close>

definition btree_set :: "'a::linorder list \<Rightarrow> 'a list" where
  "btree_set xs = sort (remdups xs)"

lemma set_btree_set [simp]: "set (btree_set xs) = set xs"
  by (simp add: btree_set_def)

lemma distinct_btree_set [simp]: "distinct (btree_set xs)"
  by (simp add: btree_set_def)

lemma sorted_btree_set [simp]: "sorted (btree_set xs)"
  by (simp add: btree_set_def)

lemma btree_set_id: "sorted xs \<Longrightarrow> distinct xs \<Longrightarrow> btree_set xs = xs"
  by (simp add: btree_set_def distinct_remdups_id sorted_sort_id)

lemma btree_set_eqI: "set xs = set ys \<Longrightarrow> btree_set xs = btree_set ys"
  by (rule sorted_distinct_set_unique) auto

section \<open>Machine integers\<close>

definition u32_max :: nat where "u32_max = 4294967295"
definition u64_max :: nat where "u64_max = 18446744073709551615"
definition i64_max :: int where "i64_max = 9223372036854775807"
definition i64_min :: int where "i64_min = - 9223372036854775808"

lemmas int_limits = u32_max_def u64_max_def i64_max_def i64_min_def

definition i64 :: "int \<Rightarrow> int" where
  "i64 x = (x + 9223372036854775808) mod 18446744073709551616 - 9223372036854775808"

definition is_i64 :: "int \<Rightarrow> bool" where
  "is_i64 x \<longleftrightarrow> i64_min \<le> x \<and> x \<le> i64_max"

lemma i64_in_range: "is_i64 (i64 x)"
  using pos_mod_bound [of 18446744073709551616 "x + 9223372036854775808"]
    pos_mod_sign [of 18446744073709551616 "x + 9223372036854775808"]
  by (simp add: is_i64_def i64_def int_limits)

lemma i64_id: "is_i64 x \<Longrightarrow> i64 x = x"
  by (simp add: is_i64_def i64_def int_limits)

definition saturating_sub_i64 :: "int \<Rightarrow> int \<Rightarrow> int" where
  "saturating_sub_i64 a b = max i64_min (min i64_max (a - b))"

definition checked_add_i64 :: "int \<Rightarrow> int \<Rightarrow> int option" where
  "checked_add_i64 a b = (if is_i64 (a + b) then Some (a + b) else None)"

definition checked_add_u64 :: "nat \<Rightarrow> nat \<Rightarrow> nat option" where
  "checked_add_u64 a b = (if a + b \<le> u64_max then Some (a + b) else None)"

text \<open>\<open>i64::try_from(u64)\<close>, \<open>u64::try_from(i64)\<close> and \<open>u32::try_from(i64)\<close>.\<close>

definition i64_of_u64 :: "nat \<Rightarrow> int option" where
  "i64_of_u64 n = (if int n \<le> i64_max then Some (int n) else None)"

definition u64_of_i64 :: "int \<Rightarrow> nat option" where
  "u64_of_i64 x = (if 0 \<le> x then Some (nat x) else None)"

definition u32_of_i64 :: "int \<Rightarrow> nat option" where
  "u32_of_i64 x = (if 0 \<le> x \<and> x \<le> int u32_max then Some (nat x) else None)"

section \<open>Interfaces\<close>

text \<open>An enum and the label under which it is stored and parsed. Parsing trims and ignores ASCII
  case everywhere in the source.\<close>

locale label_codec =
  fixes show_label :: "'e \<Rightarrow> str" and parse_label :: "str \<Rightarrow> 'e option"
  assumes parse_show: "parse_label (show_label x) = Some x"
    and parse_folds: "parse_label s = parse_label (to_ascii_lowercase (trim s))"
begin

lemma show_inj: "show_label x = show_label y \<longleftrightarrow> x = y"
  by (metis option.inject parse_show)

lemma parse_variant:
  assumes "to_ascii_lowercase (trim s) = to_ascii_lowercase (trim (show_label x))"
  shows "parse_label s = Some x"
  using assms parse_folds [of s] parse_folds [of "show_label x"] parse_show [of x] by simp

lemma parse_stored: "parse_label s = Some x \<Longrightarrow> parse_label (show_label x) = parse_label s"
  by (simp add: parse_show)

end

text \<open>A normaliser: it fails or gives a canonical form, and a canonical form is its own.\<close>

locale canonical_form =
  fixes norm :: "str \<Rightarrow> 'e + str"
  assumes norm_stable: "norm s = Inr t \<Longrightarrow> norm t = Inr t"
begin

lemma norm_same_form: "norm s = Inr t \<Longrightarrow> norm u = Inr t \<Longrightarrow> norm s = norm u"
  by simp

lemma try_map_norm_stable:
  assumes "try_map norm xs = Inr ys"
  shows "try_map norm ys = Inr ys"
proof (rule try_map_id, rule ballI)
  fix y
  assume "y \<in> set ys"
  with assms obtain x where "norm x = Inr y" using try_map_ok_set [of norm xs ys y] by auto
  then show "norm y = Inr y" by (rule norm_stable)
qed

lemma try_map_norm_subset:
  assumes "try_map norm xs = Inr ys" and "set zs \<subseteq> set ys"
  shows "try_map norm zs = Inr zs"
proof (rule try_map_id, rule ballI)
  fix z
  assume "z \<in> set zs"
  with assms obtain x where "norm x = Inr z" using try_map_ok_set [of norm xs ys z] by auto
  then show "norm z = Inr z" by (rule norm_stable)
qed

end

text \<open>A normaliser whose canonical forms are non-empty and bounded.\<close>

locale bounded_canonical_form = canonical_form norm for norm :: "str \<Rightarrow> 'e + str" +
  fixes max_bytes :: nat
  assumes norm_nonempty: "norm s = Inr t \<Longrightarrow> t \<noteq> []"
    and norm_bounded: "norm s = Inr t \<Longrightarrow> blen t \<le> max_bytes"
begin

lemma try_map_norm_bounded:
  "try_map norm xs = Inr ys \<Longrightarrow> y \<in> set ys \<Longrightarrow> y \<noteq> [] \<and> blen y \<le> max_bytes"
  using try_map_ok_set [of norm xs ys y] by (auto dest: norm_nonempty norm_bounded)

end

end
