(* ===== verification/Str_Util.thy ===== *)
theory Str_Util
  imports Rust_Prelude
begin

text \<open>
  \<open>src/src/strutil.rs\<close>: capping untrusted text at a number of bytes. A slice of a string at an
  offset that is not a character boundary panics in Rust and aborts the server; a function
  that slices is therefore modelled with an \<open>option\<close> result, \<open>None\<close> being the panic, and the
  first lemmas show that it never happens.
\<close>

fun is_char_boundary :: "str \<Rightarrow> nat \<Rightarrow> bool" where
  "is_char_boundary [] n \<longleftrightarrow> n = 0"
| "is_char_boundary (c # cs) n \<longleftrightarrow>
     n = 0 \<or> (char_len c \<le> n \<and> is_char_boundary cs (n - char_len c))"

text \<open>The longest prefix of at most \<open>n\<close> bytes.\<close>

fun take_bytes :: "nat \<Rightarrow> str \<Rightarrow> str" where
  "take_bytes n [] = []"
| "take_bytes n (c # cs) = (if char_len c \<le> n then c # take_bytes (n - char_len c) cs else [])"

definition slice_to :: "str \<Rightarrow> nat \<Rightarrow> str option" where
  "slice_to s n = (if is_char_boundary s n then Some (take_bytes n s) else None)"

text \<open>The loop \<open>while end > 0 && !s.is_char_boundary(end) { end -= 1 }\<close>.\<close>

fun back_up :: "str \<Rightarrow> nat \<Rightarrow> nat" where
  "back_up s 0 = 0"
| "back_up s (Suc n) = (if is_char_boundary s (Suc n) then Suc n else back_up s n)"

definition truncation_marker :: str where
  "truncation_marker = 8230 # lit '' [truncated]''"

definition safe_truncate :: "str \<Rightarrow> nat \<Rightarrow> str option" where
  "safe_truncate s max_bytes =
     (if blen s \<le> max_bytes then Some s
      else map_option (\<lambda>p. p @ truncation_marker) (slice_to s (back_up s max_bytes)))"

definition truncate_bytes :: "str \<Rightarrow> nat \<Rightarrow> str option" where
  "truncate_bytes s max_bytes =
     (if blen s \<le> max_bytes then Some s
      else (let marker = (if max_bytes \<ge> blen truncation_marker then truncation_marker else [])
            in map_option (\<lambda>p. p @ marker)
                 (slice_to s (back_up s (max_bytes - blen marker)))))"

text \<open>What the two functions return, without the panic: the form the other components use.\<close>

definition safe_truncated :: "str \<Rightarrow> nat \<Rightarrow> str" where
  "safe_truncated s n = (if blen s \<le> n then s else take_bytes n s @ truncation_marker)"

definition bytes_truncated :: "str \<Rightarrow> nat \<Rightarrow> str" where
  "bytes_truncated s n =
     (if blen s \<le> n then s
      else if n \<ge> blen truncation_marker
      then take_bytes (n - blen truncation_marker) s @ truncation_marker
      else take_bytes n s)"

section \<open>Lemmas\<close>

lemma blen_truncation_marker [simp]: "blen truncation_marker = 15"
  by (simp add: truncation_marker_def lit_def char_len_def)

lemma is_char_boundary_0 [simp]: "is_char_boundary s 0"
  by (cases s) auto

lemma blen_take_bytes: "blen (take_bytes n s) \<le> n"
  by (induction n s rule: take_bytes.induct) auto

lemma take_bytes_prefix: "\<exists>t. s = take_bytes n s @ t"
  by (induction n s rule: take_bytes.induct) auto

lemma take_bytes_all: "blen s \<le> n \<Longrightarrow> take_bytes n s = s"
  by (induction n s rule: take_bytes.induct) auto

lemma take_bytes_maximal:
  "s = take_bytes n s @ c # t \<Longrightarrow> n < blen (take_bytes n s) + char_len c"
proof (induction n s rule: take_bytes.induct)
  case (2 n d cs)
  then show ?case by (cases "char_len d \<le> n") auto
qed simp

lemma is_char_boundary_iff:
  "is_char_boundary s n \<longleftrightarrow> blen (take_bytes n s) = n"
  by (induction s n rule: is_char_boundary.induct) auto

lemma take_bytes_nonboundary:
  "\<not> is_char_boundary s (Suc n) \<Longrightarrow> take_bytes (Suc n) s = take_bytes n s"
proof (induction s arbitrary: n)
  case (Cons c cs)
  show ?case
  proof (cases "char_len c \<le> n")
    case True
    then have "Suc n - char_len c = Suc (n - char_len c)" by simp
    with Cons True show ?thesis by simp
  next
    case False
    with Cons.prems have "\<not> char_len c \<le> Suc n" by (auto simp: le_Suc_eq)
    with False show ?thesis by simp
  qed
qed simp

lemma back_up_boundary: "is_char_boundary s (back_up s n)"
  by (induction s n rule: back_up.induct) auto

lemma back_up_le: "back_up s n \<le> n"
  by (induction s n rule: back_up.induct) auto

lemma take_bytes_back_up: "take_bytes (back_up s n) s = take_bytes n s"
  by (induction s n rule: back_up.induct) (auto simp: take_bytes_nonboundary)

lemma slice_back_up [simp]: "slice_to s (back_up s n) = Some (take_bytes n s)"
  by (simp add: slice_to_def back_up_boundary take_bytes_back_up)

lemma safe_truncate_eq: "safe_truncate s n = Some (safe_truncated s n)"
  by (simp add: safe_truncate_def safe_truncated_def)

lemma truncate_bytes_eq: "truncate_bytes s n = Some (bytes_truncated s n)"
  by (simp add: truncate_bytes_def bytes_truncated_def Let_def)

lemma blen_bytes_truncated: "blen (bytes_truncated s n) \<le> n"
  using blen_take_bytes [of n s] blen_take_bytes [of "n - 15" s]
  by (auto simp: bytes_truncated_def)

lemma blen_safe_truncated: "blen (safe_truncated s n) \<le> n + 15"
  using blen_take_bytes [of n s] by (simp add: safe_truncated_def)

end
