(* ===== verification/Externals.thy ===== *)
theory Externals
  imports Rust_Prelude
begin

text \<open>
  The crates the program calls, as parameters. \<open>externals\<close> holds the SHA-256 digest, the
  \<open>serde_json\<close> printer and its reader for lists of strings (\<open>Inl\<close> the parser's message); a definition
  that hashes or prints takes it as an argument. A theorem about tampering says that either the data agree or the digest has a collision,
  and \<open>digest_collision\<close> is that second case.

  A JSON value is a tree; an object prints with its keys in order (\<open>serde_json\<close> without
  \<open>preserve_order\<close> keeps a \<open>BTreeMap\<close>), so \<open>json_obj\<close>, the model of the \<open>json!\<close> macro on an
  object literal, sorts the pairs.
\<close>

datatype json =
  JNull | JBool bool | JInt int | JStr str | JArr "json list" | JObj "(str \<times> json) list"

definition json_obj :: "(string \<times> json) list \<Rightarrow> json" where
  "json_obj kvs = JObj (sort_key fst (map (\<lambda>(k, v). (lit k, v)) kvs))"

definition j_opt_str :: "str option \<Rightarrow> json" where
  "j_opt_str m = (case m of None \<Rightarrow> JNull | Some s \<Rightarrow> JStr s)"

definition j_opt_int :: "int option \<Rightarrow> json" where
  "j_opt_int m = (case m of None \<Rightarrow> JNull | Some i \<Rightarrow> JInt i)"

record externals =
  sha256 :: "byte list \<Rightarrow> byte list"
  json_text :: "json \<Rightarrow> str"
  parse_str_list :: "str \<Rightarrow> str + str list"

text \<open>\<open>serde_json\<close> reads back the list of strings it printed: the documented behaviour a stored list
  relies on.\<close>

definition json_list_roundtrip :: "externals \<Rightarrow> bool" where
  "json_list_roundtrip x \<longleftrightarrow> (\<forall>xs. parse_str_list x (json_text x (JArr (map JStr xs))) = Inr xs)"

definition digest_collision :: "externals \<Rightarrow> bool" where
  "digest_collision x \<longleftrightarrow> (\<exists>p q. p \<noteq> q \<and> sha256 x p = sha256 x q)"

text \<open>A collision of the composed hash of JSON documents, text and digest together.\<close>

definition json_digest_collision :: "externals \<Rightarrow> bool" where
  "json_digest_collision x \<longleftrightarrow>
     (\<exists>p q. p \<noteq> q \<and> sha256 x (as_bytes (json_text x p)) = sha256 x (as_bytes (json_text x q)))"

lemma j_opt_str_inj [simp]: "j_opt_str a = j_opt_str b \<longleftrightarrow> a = b"
  by (simp add: j_opt_str_def split: option.splits)

lemma j_opt_int_inj [simp]: "j_opt_int a = j_opt_int b \<longleftrightarrow> a = b"
  by (simp add: j_opt_int_def split: option.splits)

text \<open>A literal written with its keys in order prints as written.\<close>

lemma json_obj_sorted:
  "sorted (map (lit \<circ> fst) kvs) \<Longrightarrow> json_obj kvs = JObj (map (\<lambda>(k, v). (lit k, v)) kvs)"
  by (simp add: json_obj_def sort_key_id_if_sorted comp_def case_prod_beta)

section \<open>Hexadecimal\<close>

definition hex_digit :: "nat \<Rightarrow> uchar" where
  "hex_digit n = (if n < 10 then 48 + n else 87 + n)"

definition hex :: "byte list \<Rightarrow> str" where
  "hex bytes = concat (map (\<lambda>b. [hex_digit (unat b div 16), hex_digit (unat b mod 16)]) bytes)"

lemma hex_digit_inj: "m < 16 \<Longrightarrow> n < 16 \<Longrightarrow> hex_digit m = hex_digit n \<Longrightarrow> m = n"
  by (auto simp: hex_digit_def split: if_splits)

lemma hex_Nil [simp]: "hex [] = []"
  by (simp add: hex_def)

lemma hex_Cons [simp]:
  "hex (b # bs) = hex_digit (unat b div 16) # hex_digit (unat b mod 16) # hex bs"
  by (simp add: hex_def)

lemma length_hex [simp]: "length (hex bs) = 2 * length bs"
  by (induction bs) auto

lemma byte_of_nibbles:
  fixes a b :: byte
  assumes "unat a div 16 = unat b div 16" and "unat a mod 16 = unat b mod 16"
  shows "a = b"
proof -
  have "unat a = unat b" using assms by (metis div_mult_mod_eq)
  then show ?thesis by (rule word_unat_eq_iff [THEN iffD2])
qed

lemma hex_inj: "hex xs = hex ys \<Longrightarrow> xs = ys"
proof (induction xs arbitrary: ys)
  case Nil
  then show ?case by (cases ys) auto
next
  case (Cons x xs)
  from Cons.prems obtain y ys' where ys: "ys = y # ys'" by (cases ys) auto
  have d: "unat b div 16 < 16" for b :: byte
    using unsigned_less [of b, where ?'a = nat] by (simp add: less_mult_imp_div_less)
  from Cons.prems ys have "hex_digit (unat x div 16) = hex_digit (unat y div 16)"
    "hex_digit (unat x mod 16) = hex_digit (unat y mod 16)" "hex xs = hex ys'"
    by simp_all
  then show ?case
    using ys Cons.IH d byte_of_nibbles [of x y] hex_digit_inj by (metis mod_less_divisor zero_less_numeral)
qed

definition sha256_hex :: "externals \<Rightarrow> byte list \<Rightarrow> str" where
  "sha256_hex x input = hex (sha256 x input)"

lemma sha256_hex_eqD: "sha256_hex x p = sha256_hex x q \<Longrightarrow> p = q \<or> digest_collision x"
  unfolding sha256_hex_def digest_collision_def by (blast dest: hex_inj)

lemma sha256_hex_json_eqD:
  "sha256_hex x (as_bytes (json_text x p)) = sha256_hex x (as_bytes (json_text x q))
     \<Longrightarrow> p = q \<or> json_digest_collision x"
  unfolding sha256_hex_def json_digest_collision_def by (blast dest: hex_inj)

section \<open>Length-prefixed byte fields\<close>

text \<open>\<open>(len as u64).to_be_bytes()\<close>.\<close>

definition be_bytes_u64 :: "nat \<Rightarrow> byte list" where
  "be_bytes_u64 n = map (\<lambda>i. of_nat (n div 256 ^ i mod 256)) [7, 6, 5, 4, 3, 2, 1, 0]"

lemma length_be_bytes_u64 [simp]: "length (be_bytes_u64 n) = 8"
  by (simp add: be_bytes_u64_def)

lemma be_bytes_u64_inj:
  assumes "m < 2 ^ 64" and "n < 2 ^ 64" and "be_bytes_u64 m = be_bytes_u64 n"
  shows "m = n"
proof -
  have digits: "m div 256 ^ i mod 256 = n div 256 ^ i mod 256" if "i < 8" for i
  proof -
    have "i \<in> set [7, 6, 5, 4, 3, 2, 1, 0]" using that by auto
    with assms(3) have "(of_nat (m div 256 ^ i mod 256) :: byte) = of_nat (n div 256 ^ i mod 256)"
      unfolding be_bytes_u64_def by (simp only: map_eq_conv)
    then show ?thesis
      using of_nat_byte_inj by (auto simp: inj_on_def)
  qed
  have up: "m div 256 ^ (8 - k) = n div 256 ^ (8 - k)" if "k \<le> 8" for k
    using that
  proof (induction k)
    case 0
    then show ?case using assms by simp
  next
    case (Suc k)
    have e: "8 - k = Suc (8 - Suc k)" using Suc.prems by simp
    have step: "v div 256 ^ (8 - Suc k) = v div 256 ^ (8 - k) * 256 + v div 256 ^ (8 - Suc k) mod 256"
      for v :: nat
      unfolding e by (simp add: div_mult2_eq mult.commute [of 256])
    show ?case
      using step [of m] step [of n] Suc digits [of "8 - Suc k"] by simp
  qed
  show ?thesis using up [of 8] by simp
qed

definition push_len_prefixed :: "byte list \<Rightarrow> byte list" where
  "push_len_prefixed value = be_bytes_u64 (length value) @ value"

definition push_optional_len_prefixed :: "str option \<Rightarrow> byte list" where
  "push_optional_len_prefixed value =
     (case value of Some v \<Rightarrow> 1 # push_len_prefixed (as_bytes v) | None \<Rightarrow> [0])"

lemma push_len_prefixed_inj:
  assumes "length a < 2 ^ 64" and "length b < 2 ^ 64"
    and "push_len_prefixed a @ r = push_len_prefixed b @ s"
  shows "a = b \<and> r = s"
proof -
  from assms(3) have "be_bytes_u64 (length a) = be_bytes_u64 (length b)" and "a @ r = b @ s"
    by (simp_all add: push_len_prefixed_def)
  with assms(1,2) have "length a = length b" by (simp add: be_bytes_u64_inj)
  with \<open>a @ r = b @ s\<close> show ?thesis by simp
qed

end
