(* ===== verification/Governance.thy ===== *)
theory Governance
  imports Str_Util Externals
begin

text \<open>
  \<open>src/src/governance.rs\<close>: the governance metadata of a memory (source type, trust tier, data
  classification, consent), its stored labels, namespace normalisation, the fail-closed consent
  rule, and the hashes that identify records: the evidence root, the record hash and the ledger
  entry hash.

  The SHA-256 crate and the JSON printer of \<open>serde_json\<close> are not part of the repository. They are
  the fields of the record \<open>externals\<close>, an argument of every definition that hashes. JSON objects
  print with their keys in order, so \<open>json_obj\<close> sorts the pairs.
\<close>

section \<open>Data\<close>

datatype memory_source_type =
  UserInput | ToolOutput | AgentGenerated | Derived | External | SyncPeer

datatype trust_tier = TrustHigh | TrustMedium | TrustLow | TrustUntrusted

datatype data_classification =
  Public | Internal | Confidential | Restricted | Phi | Pii

datatype consent_state = ConsentRequired | ConsentGranted | ConsentDenied | ConsentWithdrawn

record memory_governance =
  g_namespace :: str
  g_source_type :: memory_source_type
  g_trust_tier :: trust_tier
  g_writer_identity :: "str option"
  g_source_ref :: "str option"
  g_parent_memory_id :: "int option"
  g_classification :: data_classification
  g_consent_state :: "consent_state option"
  g_residency :: "str option"
  g_retention_policy_id :: "str option"
  g_expires_at :: "int option"
  g_legal_hold :: bool

definition DEFAULT_NAMESPACE :: str where
  "DEFAULT_NAMESPACE = lit ''local''"

definition default_governance :: memory_governance where
  "default_governance = \<lparr>
     g_namespace = DEFAULT_NAMESPACE, g_source_type = Derived, g_trust_tier = TrustMedium,
     g_writer_identity = Some (lit ''ironmem''), g_source_ref = None, g_parent_memory_id = None,
     g_classification = Internal, g_consent_state = None, g_residency = None,
     g_retention_policy_id = None, g_expires_at = None, g_legal_hold = False\<rparr>"

definition explicit_governance :: memory_governance where
  "explicit_governance = default_governance\<lparr>
     g_source_type := UserInput, g_trust_tier := TrustHigh,
     g_writer_identity := Some (lit ''ironmem:remember'')\<rparr>"

definition compressed_session_governance :: memory_governance where
  "compressed_session_governance = default_governance\<lparr>
     g_source_type := Derived, g_trust_tier := TrustMedium,
     g_writer_identity := Some (lit ''ironmem:compress'')\<rparr>"

definition derived_from :: "int \<Rightarrow> memory_governance" where
  "derived_from parent = default_governance\<lparr>
     g_source_type := Derived, g_trust_tier := TrustMedium,
     g_writer_identity := Some (lit ''ironmem:derive''), g_parent_memory_id := Some parent\<rparr>"

fun classification_debug :: "data_classification \<Rightarrow> str" where
  "classification_debug Public = lit ''Public''"
| "classification_debug Internal = lit ''Internal''"
| "classification_debug Confidential = lit ''Confidential''"
| "classification_debug Restricted = lit ''Restricted''"
| "classification_debug Phi = lit ''Phi''"
| "classification_debug Pii = lit ''Pii''"

text \<open>\<open>MemoryGovernance::validate\<close>; the error is the message.\<close>

definition validate_governance :: "memory_governance \<Rightarrow> str + unit" where
  "validate_governance g =
     (if g_classification g \<in> {Phi, Pii} \<and> g_consent_state g \<noteq> Some ConsentGranted
      then Inl (classification_debug (g_classification g)
             @ lit '' memory requires consent_state=granted before it can be stored'')
      else Inr ())"

section \<open>Namespaces\<close>

definition normalize_namespace :: "str \<Rightarrow> str" where
  "normalize_namespace namespace =
     (let cleaned = trim namespace
      in if cleaned = [] then DEFAULT_NAMESPACE
         else map (\<lambda>c. if is_control c \<or> is_whitespace c then 95 else c) cleaned)"

section \<open>Labels\<close>

definition fold_label :: "str \<Rightarrow> str" where
  "fold_label value = to_ascii_lowercase (trim value)"

definition parse_source_type :: "str \<Rightarrow> memory_source_type" where
  "parse_source_type value =
     (let v = fold_label value in
      if v = lit ''user'' \<or> v = lit ''user_input'' then UserInput
      else if v = lit ''tool'' \<or> v = lit ''tool_output'' then ToolOutput
      else if v = lit ''agent'' \<or> v = lit ''agent_generated'' then AgentGenerated
      else if v = lit ''external'' then External
      else if v = lit ''sync'' \<or> v = lit ''sync_peer'' then SyncPeer
      else Derived)"

definition parse_trust_tier :: "str \<Rightarrow> trust_tier" where
  "parse_trust_tier value =
     (let v = fold_label value in
      if v = lit ''high'' then TrustHigh
      else if v = lit ''low'' then TrustLow
      else if v = lit ''untrusted'' then TrustUntrusted
      else TrustMedium)"

definition parse_classification :: "str \<Rightarrow> data_classification" where
  "parse_classification value =
     (let v = fold_label value in
      if v = lit ''public'' then Public
      else if v = lit ''confidential'' then Confidential
      else if v = lit ''restricted'' then Restricted
      else if v = lit ''phi'' then Phi
      else if v = lit ''pii'' then Pii
      else Internal)"

definition parse_consent_state :: "str \<Rightarrow> consent_state option" where
  "parse_consent_state value =
     (let v = fold_label value in
      if v = lit ''required'' then Some ConsentRequired
      else if v = lit ''granted'' then Some ConsentGranted
      else if v = lit ''denied'' then Some ConsentDenied
      else if v = lit ''withdrawn'' then Some ConsentWithdrawn
      else None)"

fun source_type_str :: "memory_source_type \<Rightarrow> str" where
  "source_type_str UserInput = lit ''user_input''"
| "source_type_str ToolOutput = lit ''tool_output''"
| "source_type_str AgentGenerated = lit ''agent_generated''"
| "source_type_str Derived = lit ''derived''"
| "source_type_str External = lit ''external''"
| "source_type_str SyncPeer = lit ''sync_peer''"

fun trust_tier_str :: "trust_tier \<Rightarrow> str" where
  "trust_tier_str TrustHigh = lit ''high''"
| "trust_tier_str TrustMedium = lit ''medium''"
| "trust_tier_str TrustLow = lit ''low''"
| "trust_tier_str TrustUntrusted = lit ''untrusted''"

fun classification_str :: "data_classification \<Rightarrow> str" where
  "classification_str Public = lit ''public''"
| "classification_str Internal = lit ''internal''"
| "classification_str Confidential = lit ''confidential''"
| "classification_str Restricted = lit ''restricted''"
| "classification_str Phi = lit ''phi''"
| "classification_str Pii = lit ''pii''"

fun consent_state_str :: "consent_state \<Rightarrow> str" where
  "consent_state_str ConsentRequired = lit ''required''"
| "consent_state_str ConsentGranted = lit ''granted''"
| "consent_state_str ConsentDenied = lit ''denied''"
| "consent_state_str ConsentWithdrawn = lit ''withdrawn''"

lemma fold_label_folds [simp]: "fold_label (to_ascii_lowercase (trim s)) = fold_label s"
  by (simp add: fold_label_def)

declare fold_label_def [rust_str] DEFAULT_NAMESPACE_def [rust_str]

interpretation source_type_codec: label_codec source_type_str "\<lambda>s. Some (parse_source_type s)"
proof unfold_locales
  fix x show "Some (parse_source_type (source_type_str x)) = Some x"
    by (cases x) (simp_all add: parse_source_type_def rust_str)
qed (simp add: parse_source_type_def)

interpretation trust_tier_codec: label_codec trust_tier_str "\<lambda>s. Some (parse_trust_tier s)"
proof unfold_locales
  fix x show "Some (parse_trust_tier (trust_tier_str x)) = Some x"
    by (cases x) (simp_all add: parse_trust_tier_def rust_str)
qed (simp add: parse_trust_tier_def)

interpretation classification_codec:
  label_codec classification_str "\<lambda>s. Some (parse_classification s)"
proof unfold_locales
  fix x show "Some (parse_classification (classification_str x)) = Some x"
    by (cases x) (simp_all add: parse_classification_def rust_str)
qed (simp add: parse_classification_def)

interpretation consent_state_codec: label_codec consent_state_str parse_consent_state
proof unfold_locales
  fix x show "parse_consent_state (consent_state_str x) = Some x"
    by (cases x) (simp_all add: parse_consent_state_def rust_str)
qed (simp add: parse_consent_state_def)


section \<open>Record identities\<close>

definition EVIDENCE_ROOT_VERSION :: nat where "EVIDENCE_ROOT_VERSION = 1"

text \<open>The bytes that \<open>evidence_root_id\<close> hashes: every variable field behind its length, an optional
  field behind a presence byte.\<close>

definition evidence_preimage :: "str \<Rightarrow> str \<Rightarrow> str option \<Rightarrow> str \<Rightarrow> byte list" where
  "evidence_preimage namespace source_type source_ref canonical_source_hash =
     as_bytes (lit ''ironmem:evidence-root'') @ [of_nat EVIDENCE_ROOT_VERSION]
     @ push_len_prefixed (as_bytes (normalize_namespace namespace))
     @ push_len_prefixed (as_bytes source_type)
     @ push_optional_len_prefixed source_ref
     @ push_len_prefixed (as_bytes canonical_source_hash)"

definition evidence_root_id ::
  "externals \<Rightarrow> str \<Rightarrow> str \<Rightarrow> str option \<Rightarrow> str \<Rightarrow> str" where
  "evidence_root_id x namespace source_type source_ref canonical_source_hash =
     lit ''evr'' @ dec_nat EVIDENCE_ROOT_VERSION @ lit '':''
     @ sha256_hex x (evidence_preimage namespace source_type source_ref canonical_source_hash)"

text \<open>\<open>new_evidence_root_id\<close>: the UUID generator is an argument.\<close>

definition new_evidence_root_id :: "str \<Rightarrow> str" where
  "new_evidence_root_id uuid =
     lit ''evr'' @ dec_nat EVIDENCE_ROOT_VERSION @ lit '':uuid:'' @ uuid"

definition memory_record_payload ::
  "str \<Rightarrow> str \<Rightarrow> str \<Rightarrow> str option \<Rightarrow> str \<Rightarrow> str \<Rightarrow> memory_governance \<Rightarrow> json" where
  "memory_record_payload project session_id summary tags scope kind g = json_obj [
     (''classification'', JStr (classification_str (g_classification g))),
     (''consent_state'', j_opt_str (map_option consent_state_str (g_consent_state g))),
     (''expires_at'', j_opt_int (g_expires_at g)),
     (''kind'', JStr kind),
     (''legal_hold'', JBool (g_legal_hold g)),
     (''namespace'', JStr (normalize_namespace (g_namespace g))),
     (''parent_memory_id'', j_opt_int (g_parent_memory_id g)),
     (''project'', JStr project),
     (''residency'', j_opt_str (g_residency g)),
     (''retention_policy_id'', j_opt_str (g_retention_policy_id g)),
     (''scope'', JStr scope),
     (''session_id'', JStr session_id),
     (''source_ref'', j_opt_str (g_source_ref g)),
     (''source_type'', JStr (source_type_str (g_source_type g))),
     (''summary'', JStr summary),
     (''tags'', j_opt_str tags),
     (''trust_tier'', JStr (trust_tier_str (g_trust_tier g))),
     (''writer_identity'', j_opt_str (g_writer_identity g))]"

definition memory_record_hash ::
  "externals \<Rightarrow> str \<Rightarrow> str \<Rightarrow> str \<Rightarrow> str option \<Rightarrow> str \<Rightarrow> str \<Rightarrow> memory_governance \<Rightarrow> str" where
  "memory_record_hash x project session_id summary tags scope kind g =
     sha256_hex x (as_bytes (json_text x
       (memory_record_payload project session_id summary tags scope kind g)))"

definition ledger_payload ::
  "str option \<Rightarrow> str \<Rightarrow> int option \<Rightarrow> str \<Rightarrow> str option \<Rightarrow> str \<Rightarrow> int \<Rightarrow> json" where
  "ledger_payload prev_hash namespace memory_id op_type actor payload created_at = json_obj [
     (''actor'', j_opt_str actor),
     (''created_at'', JInt created_at),
     (''memory_id'', j_opt_int memory_id),
     (''namespace'', JStr (normalize_namespace namespace)),
     (''op_type'', JStr op_type),
     (''payload'', JStr payload),
     (''prev_hash'', j_opt_str prev_hash)]"

definition ledger_entry_hash ::
  "externals \<Rightarrow> str option \<Rightarrow> str \<Rightarrow> int option \<Rightarrow> str \<Rightarrow> str option \<Rightarrow> str \<Rightarrow> int \<Rightarrow> str" where
  "ledger_entry_hash x prev_hash namespace memory_id op_type actor payload created_at =
     sha256_hex x (as_bytes (json_text x
       (ledger_payload prev_hash namespace memory_id op_type actor payload created_at)))"

section \<open>Lemmas\<close>

lemma normalize_namespace_not_Nil [simp]: "normalize_namespace s \<noteq> []"
  by (simp add: normalize_namespace_def DEFAULT_NAMESPACE_def Let_def)

lemma normalize_namespace_clean:
  assumes "c \<in> set (normalize_namespace s)"
  shows "\<not> is_control c \<and> \<not> is_whitespace c"
proof (cases "trim s = []")
  case True
  with assms show ?thesis
    by (auto simp: normalize_namespace_def DEFAULT_NAMESPACE_def lit_def char_class_defs)
next
  case False
  with assms have "c \<in> (\<lambda>d. if is_control d \<or> is_whitespace d then 95 else d) ` set (trim s)"
    by (simp add: normalize_namespace_def Let_def)
  then obtain d where "c = (if is_control d \<or> is_whitespace d then 95 else d)"
    by (rule imageE)
  then show ?thesis by (auto simp: is_control_def is_whitespace_def)
qed

lemma normalize_namespace_id:
  assumes "s \<noteq> []" and "\<forall>c \<in> set s. \<not> is_control c \<and> \<not> is_whitespace c"
  shows "normalize_namespace s = s"
proof -
  have "trim s = s" using assms(2) by (simp add: trim_no_ws)
  with assms show ?thesis by (simp add: normalize_namespace_def map_idI)
qed

lemma normalize_namespace_idem [simp]:
  "normalize_namespace (normalize_namespace s) = normalize_namespace s"
  using normalize_namespace_clean by (intro normalize_namespace_id) auto

interpretation namespace_form: canonical_form "\<lambda>s. Inr (normalize_namespace s) :: str + str"
  by unfold_locales simp

lemma normalize_default_namespace [simp]:
  "normalize_namespace DEFAULT_NAMESPACE = DEFAULT_NAMESPACE"
  by (rule normalize_namespace_id) (auto simp: DEFAULT_NAMESPACE_def lit_def char_class_defs)

lemma validate_governance_ok:
  "validate_governance g = Inr () \<longleftrightarrow>
     (g_classification g \<in> {Phi, Pii} \<longrightarrow> g_consent_state g = Some ConsentGranted)"
  by (auto simp: validate_governance_def)

lemma optional_len_prefixed_inj:
  assumes "push_optional_len_prefixed a @ r = push_optional_len_prefixed b @ s"
    and "\<And>v. a = Some v \<Longrightarrow> valid_str v \<and> blen v < 2 ^ 64"
    and "\<And>v. b = Some v \<Longrightarrow> valid_str v \<and> blen v < 2 ^ 64"
  shows "a = b \<and> r = s"
proof (cases a)
  case None
  with assms(1) show ?thesis
    by (cases b) (auto simp: push_optional_len_prefixed_def)
next
  case (Some v)
  with assms(1) obtain w where w: "b = Some w"
    by (cases b) (auto simp: push_optional_len_prefixed_def)
  with assms(1) Some have "push_len_prefixed (as_bytes v) @ r = push_len_prefixed (as_bytes w) @ s"
    by (simp add: push_optional_len_prefixed_def)
  moreover have "length (as_bytes v) < 2 ^ 64" and "length (as_bytes w) < 2 ^ 64"
    using assms(2,3) Some w by simp_all
  ultimately have "as_bytes v = as_bytes w \<and> r = s" by (intro push_len_prefixed_inj)
  then show ?thesis using assms(2,3) Some w as_bytes_inj by blast
qed

definition wf_str :: "str \<Rightarrow> bool" where
  "wf_str s \<longleftrightarrow> valid_str s \<and> blen s < 2 ^ 64"

lemma len_prefixed_str_inj:
  assumes "push_len_prefixed (as_bytes a) @ r = push_len_prefixed (as_bytes b) @ s"
    and "wf_str a" and "wf_str b"
  shows "a = b \<and> r = s"
proof -
  have "as_bytes a = as_bytes b \<and> r = s"
    using assms by (intro push_len_prefixed_inj) (simp_all add: wf_str_def)
  with assms(2,3) show ?thesis using as_bytes_inj by (auto simp: wf_str_def)
qed

lemma evidence_preimage_inj:
  assumes "evidence_preimage n st sr h = evidence_preimage n' st' sr' h'"
    and "wf_str (normalize_namespace n)" "wf_str (normalize_namespace n')"
    and "wf_str st" "wf_str st'" "wf_str h" "wf_str h'"
    and "\<forall>v \<in> set_option sr. wf_str v" "\<forall>v \<in> set_option sr'. wf_str v"
  shows "normalize_namespace n = normalize_namespace n' \<and> st = st' \<and> sr = sr' \<and> h = h'"
proof -
  let ?P = "push_len_prefixed" and ?O = "push_optional_len_prefixed"
  have 0: "?P (as_bytes (normalize_namespace n)) @ ?P (as_bytes st) @ ?O sr @ ?P (as_bytes h)
      = ?P (as_bytes (normalize_namespace n')) @ ?P (as_bytes st') @ ?O sr' @ ?P (as_bytes h')"
    using assms(1) by (simp add: evidence_preimage_def)
  from len_prefixed_str_inj [OF this assms(2,3)]
  have 1: "normalize_namespace n = normalize_namespace n'"
    and r1: "?P (as_bytes st) @ ?O sr @ ?P (as_bytes h) = ?P (as_bytes st') @ ?O sr' @ ?P (as_bytes h')"
    by auto
  from len_prefixed_str_inj [OF r1 assms(4,5)]
  have 2: "st = st'" and r2: "?O sr @ ?P (as_bytes h) = ?O sr' @ ?P (as_bytes h')" by auto
  have "sr = sr' \<and> ?P (as_bytes h) = ?P (as_bytes h')"
    by (rule optional_len_prefixed_inj [OF r2]) (use assms(8,9) in \<open>auto simp: wf_str_def\<close>)
  then have 3: "sr = sr'" and r3: "?P (as_bytes h) @ [] = ?P (as_bytes h') @ []" by auto
  from len_prefixed_str_inj [OF r3 assms(6,7)] have "h = h'" by auto
  with 1 2 3 show ?thesis by simp
qed

lemma ledger_payload_inj:
  "ledger_payload p n m t a y c = ledger_payload p' n' m' t' a' y' c' \<longleftrightarrow>
     p = p' \<and> normalize_namespace n = normalize_namespace n' \<and> m = m' \<and> t = t' \<and> a = a'
     \<and> y = y' \<and> c = c'"
proof -
  have s: "sorted (map (lit \<circ> fst) [(''actor'', u1), (''created_at'', u2), (''memory_id'', u3),
      (''namespace'', u4), (''op_type'', u5), (''payload'', u6), (''prev_hash'', u7)])"
    for u1 u2 u3 u4 u5 u6 u7 :: json
    by (simp add: lit_def)
  show ?thesis
    by (auto simp: ledger_payload_def json_obj_sorted [OF s])
qed

lemma ledger_entry_hash_eqD:
  "ledger_entry_hash x p n m t a y c = ledger_entry_hash x p' n' m' t' a' y' c' \<Longrightarrow>
     (p = p' \<and> normalize_namespace n = normalize_namespace n' \<and> m = m' \<and> t = t' \<and> a = a'
      \<and> y = y' \<and> c = c') \<or> json_digest_collision x"
  unfolding ledger_entry_hash_def
  using sha256_hex_json_eqD ledger_payload_inj by blast

end
