(* ===== verification/Slug.thy ===== *)
theory Slug
  imports Rust_Prelude
begin

text \<open>
  Separator-joined canonical names. Task types (\<open>influence.rs\<close>, separator \<open>_\<close>) and claim keys
  (\<open>contradiction.rs\<close>, separator \<open>.\<close>) are built by the same kind of loop: lower-case letters and digits,
  with at most one separator between two of them. The locale holds what both loops need.
\<close>

text \<open>\<open>while normalized.ends_with(c) { normalized.pop(); }\<close>\<close>

definition pop_trailing :: "uchar \<Rightarrow> str \<Rightarrow> str" where
  "pop_trailing c s = rev (dropWhile (\<lambda>d. d = c) (rev s))"

lemma pop_trailing_last: "pop_trailing c s \<noteq> [] \<Longrightarrow> last (pop_trailing c s) \<noteq> c"
  using hd_dropWhile [of "\<lambda>d. d = c" "rev s"] by (simp add: pop_trailing_def last_rev)

lemma pop_trailing_id: "s = [] \<or> last s \<noteq> c \<Longrightarrow> pop_trailing c s = s"
  using dropWhile_fixed [of "\<lambda>d. d = c" "rev s"] by (auto simp: pop_trailing_def hd_rev)

lemma pop_trailing_prefix: "\<exists>t. s = pop_trailing c s @ t"
proof -
  have "rev s = takeWhile (\<lambda>d. d = c) (rev s) @ dropWhile (\<lambda>d. d = c) (rev s)" by simp
  then have "s = pop_trailing c s @ rev (takeWhile (\<lambda>d. d = c) (rev s))"
    unfolding pop_trailing_def by (metis rev_append rev_rev_ident)
  then show ?thesis by blast
qed

lemma length_pop_trailing: "length (pop_trailing c s) \<le> length s"
  using pop_trailing_prefix [of s c] by (metis length_append le_add1)

lemma blen_ascii: "\<forall>c \<in> set s. c < 128 \<Longrightarrow> blen s = length s"
  by (induction s) (auto simp: char_len_def)

locale slug =
  fixes sep_char :: uchar
  assumes sep_not_alnum: "\<not> is_ascii_alphanumeric sep_char"
    and sep_plain: "sep_char < 128" "\<not> is_whitespace sep_char" "\<not> is_control sep_char"
begin

definition name_char :: "uchar \<Rightarrow> bool" where
  "name_char c \<longleftrightarrow> is_ascii_digit c \<or> is_ascii_lower c \<or> c = sep_char"

definition single_seps :: "str \<Rightarrow> bool" where
  "single_seps s \<longleftrightarrow> successively (\<lambda>a b. \<not> (a = sep_char \<and> b = sep_char)) s"

text \<open>What the loop keeps of its accumulator and of its flag.\<close>

definition acc_ok :: "str \<Rightarrow> bool \<Rightarrow> bool" where
  "acc_ok acc sep \<longleftrightarrow> (\<forall>c \<in> set acc. name_char c) \<and> single_seps acc
     \<and> (acc \<noteq> [] \<longrightarrow> hd acc \<noteq> sep_char) \<and> (sep \<longleftrightarrow> acc \<noteq> [] \<and> last acc = sep_char)"

text \<open>The canonical form.\<close>

definition form :: "str \<Rightarrow> bool" where
  "form s \<longleftrightarrow> s \<noteq> [] \<and> acc_ok s False"

lemma acc_ok_Nil [simp]: "acc_ok [] False"
  by (simp add: acc_ok_def single_seps_def)

lemma to_lower_not_sep: "is_ascii_alphanumeric c \<Longrightarrow> to_lower c \<noteq> sep_char \<and> name_char (to_lower c)"
  using sep_not_alnum by (auto simp: name_char_def char_class_defs)

lemma acc_ok_letter:
  assumes "acc_ok acc sep" and "is_ascii_alphanumeric c"
  shows "acc_ok (acc @ [to_lower c]) False"
  using assms to_lower_not_sep [OF assms(2)] unfolding acc_ok_def single_seps_def
  by (cases "acc = []") (auto simp: successively_append_iff)

lemma acc_ok_sep:
  assumes "acc_ok acc False" and "acc \<noteq> []"
  shows "acc_ok (acc @ [sep_char]) True"
  using assms unfolding acc_ok_def single_seps_def
  by (auto simp: successively_append_iff name_char_def)

text \<open>Reading a canonical name: what the next character is and what the accumulator becomes.\<close>

lemma acc_ok_next:
  assumes "acc_ok acc sep" and "acc_ok (acc @ c # cs) sep'"
  obtains (letter) "c \<noteq> sep_char" "is_ascii_alphanumeric c" "to_lower c = c" "acc_ok (acc @ [c]) False"
  | (sep) "c = sep_char" "acc \<noteq> []" "\<not> sep" "acc_ok (acc @ [sep_char]) True"
proof (cases "c = sep_char")
  case True
  have ne: "acc \<noteq> []" "\<not> sep"
    using assms True by (auto simp: acc_ok_def single_seps_def successively_append_iff)
  with acc_ok_sep [of acc] assms(1) True sep show thesis by simp
next
  case False
  have "name_char c" using assms(2) by (simp add: acc_ok_def)
  with False have an: "is_ascii_alphanumeric c" and low: "to_lower c = c"
    by (auto simp: name_char_def char_class_defs)
  with False acc_ok_letter [OF assms(1) an] letter show thesis by simp
qed

lemma form_pop:
  assumes "acc_ok r sep" and "pop_trailing sep_char r \<noteq> []"
  shows "form (pop_trailing sep_char r)"
proof -
  obtain t where t: "r = pop_trailing sep_char r @ t" using pop_trailing_prefix [of r sep_char] by auto
  have "\<forall>c \<in> set (pop_trailing sep_char r). name_char c" "single_seps (pop_trailing sep_char r)"
    "hd (pop_trailing sep_char r) \<noteq> sep_char"
    using assms t unfolding acc_ok_def single_seps_def
    by (metis Un_iff set_append, metis successively_append_iff, metis append_is_Nil_conv hd_append2)
  with assms(2) pop_trailing_last [of sep_char r] show ?thesis
    by (simp add: form_def acc_ok_def)
qed

lemma form_pop_id: "form s \<Longrightarrow> pop_trailing sep_char s = s"
  using pop_trailing_id [of s sep_char] by (auto simp: form_def acc_ok_def)

lemma name_char_ascii: "name_char c \<Longrightarrow> c < 128 \<and> \<not> is_whitespace c \<and> \<not> is_control c"
  using sep_plain by (auto simp: name_char_def char_class_defs)

lemma form_ascii: "form s \<Longrightarrow> c \<in> set s \<Longrightarrow> c < 128 \<and> \<not> is_whitespace c \<and> \<not> is_control c"
  using name_char_ascii by (auto simp: form_def acc_ok_def)

lemma form_blen: "form s \<Longrightarrow> blen s = length s"
  using form_ascii by (intro blen_ascii) blast

lemma form_trim: "form s \<Longrightarrow> trim s = s"
  using form_ascii trim_no_ws by blast

end

end
