(* ===== verification/Influence.thy ===== *)
theory Influence
  imports Governance Slug
begin

text \<open>
  \<open>src/src/influence.rs\<close>: the influence policy of a memory (what it may be used for), its patches,
  the principals that may read or change it, task-type normalisation and the state matrix.
  A policy version is a \<open>u64\<close> (\<open>nat\<close> with its bound written out), a derivation depth a \<open>u32\<close>.
  JSON lists of task types in a stored row are parsed by \<open>serde_json\<close>, an argument.
\<close>

section \<open>States and risks\<close>

datatype influence_state =
  Eligible | Quarantined | ReasoningOnly | ActionRestricted | Blocked | Superseded

datatype action_risk = RiskNone | RiskLow | RiskMedium | RiskHigh | RiskCritical

instantiation action_risk :: linorder
begin

fun risk_rank :: "action_risk \<Rightarrow> nat" where
  "risk_rank RiskNone = 0"
| "risk_rank RiskLow = 1"
| "risk_rank RiskMedium = 2"
| "risk_rank RiskHigh = 3"
| "risk_rank RiskCritical = 4"

definition less_eq_action_risk :: "action_risk \<Rightarrow> action_risk \<Rightarrow> bool" where
  "less_eq_action_risk a b \<longleftrightarrow> risk_rank a \<le> risk_rank b"

definition less_action_risk :: "action_risk \<Rightarrow> action_risk \<Rightarrow> bool" where
  "less_action_risk a b \<longleftrightarrow> risk_rank a < risk_rank b"

lemma risk_rank_inj: "risk_rank a = risk_rank b \<Longrightarrow> a = b"
  by (cases a; cases b) simp_all

instance
  by standard (auto simp: less_eq_action_risk_def less_action_risk_def dest: risk_rank_inj)

end

lemmas risk_order = less_eq_action_risk_def less_action_risk_def

lemma risk_le_critical [simp]: "r \<le> RiskCritical"
  by (cases r) (simp_all add: risk_order)

lemma risk_none_le [simp]: "RiskNone \<le> r"
  by (cases r) (simp_all add: risk_order)

fun influence_state_str :: "influence_state \<Rightarrow> str" where
  "influence_state_str Eligible = lit ''eligible''"
| "influence_state_str Quarantined = lit ''quarantined''"
| "influence_state_str ReasoningOnly = lit ''reasoning_only''"
| "influence_state_str ActionRestricted = lit ''action_restricted''"
| "influence_state_str Blocked = lit ''blocked''"
| "influence_state_str Superseded = lit ''superseded''"

fun action_risk_str :: "action_risk \<Rightarrow> str" where
  "action_risk_str RiskNone = lit ''none''"
| "action_risk_str RiskLow = lit ''low''"
| "action_risk_str RiskMedium = lit ''medium''"
| "action_risk_str RiskHigh = lit ''high''"
| "action_risk_str RiskCritical = lit ''critical''"

section \<open>Errors\<close>

datatype policy_error =
    MemoryNotFound int str
  | ContradictionNotFound str
  | NamespaceDenied str str
  | CapabilityRequired str str
  | VersionConflict nat nat
  | InvalidPolicy str
  | NoChange

fun policy_error_code :: "policy_error \<Rightarrow> str" where
  "policy_error_code (MemoryNotFound _ _) = lit ''memory_not_found''"
| "policy_error_code (ContradictionNotFound _) = lit ''contradiction_not_found''"
| "policy_error_code (NamespaceDenied _ _) = lit ''namespace_denied''"
| "policy_error_code (CapabilityRequired _ _) = lit ''influence_policy_capability_required''"
| "policy_error_code (VersionConflict _ _) = lit ''policy_version_conflict''"
| "policy_error_code (InvalidPolicy _) = lit ''invalid_influence_policy''"
| "policy_error_code NoChange = lit ''influence_policy_unchanged''"

fun current_version :: "policy_error \<Rightarrow> nat option" where
  "current_version (VersionConflict expected actual) = Some actual"
| "current_version _ = None"

fun policy_error_display :: "policy_error \<Rightarrow> str" where
  "policy_error_display (MemoryNotFound memory_id namespace) =
     lit ''memory '' @ dec_int memory_id @ lit '' was not found in namespace '' @ [39] @ namespace @ [39]"
| "policy_error_display (ContradictionNotFound cid) =
     lit ''contradiction set '' @ [39] @ cid @ [39] @ lit '' was not found''"
| "policy_error_display (NamespaceDenied namespace actor) =
     lit ''actor '' @ [39] @ actor @ [39] @ lit '' may not access namespace '' @ [39] @ namespace @ [39]"
| "policy_error_display (CapabilityRequired capability actor) =
     lit ''actor '' @ [39] @ actor @ [39] @ lit '' lacks required capability '' @ [39] @ capability @ [39]"
| "policy_error_display (VersionConflict expected actual) =
     lit ''policy version conflict: expected '' @ dec_nat expected
     @ lit '', current version is '' @ dec_nat actual"
| "policy_error_display (InvalidPolicy message) = message"
| "policy_error_display NoChange = lit ''policy update does not change the policy''"

definition parse_influence_state :: "str \<Rightarrow> policy_error + influence_state" where
  "parse_influence_state value =
     (let v = fold_label value in
      if v = lit ''eligible'' then Inr Eligible
      else if v = lit ''quarantined'' then Inr Quarantined
      else if v = lit ''reasoning_only'' \<or> v = lit ''reasoning-only'' then Inr ReasoningOnly
      else if v = lit ''action_restricted'' \<or> v = lit ''action-restricted'' then Inr ActionRestricted
      else if v = lit ''blocked'' then Inr Blocked
      else if v = lit ''superseded'' then Inr Superseded
      else Inl (InvalidPolicy (lit ''unknown influence state '' @ [39] @ value @ [39])))"

definition parse_action_risk :: "str \<Rightarrow> policy_error + action_risk" where
  "parse_action_risk value =
     (let v = fold_label value in
      if v = lit ''none'' then Inr RiskNone
      else if v = lit ''low'' then Inr RiskLow
      else if v = lit ''medium'' then Inr RiskMedium
      else if v = lit ''high'' then Inr RiskHigh
      else if v = lit ''critical'' then Inr RiskCritical
      else Inl (InvalidPolicy (lit ''unknown action risk '' @ [39] @ value @ [39])))"

interpretation influence_state_codec:
  label_codec influence_state_str "\<lambda>s. result_ok (parse_influence_state s)"
proof unfold_locales
  fix x show "result_ok (parse_influence_state (influence_state_str x)) = Some x"
    by (cases x) (simp_all add: parse_influence_state_def rust_str)
qed (simp add: parse_influence_state_def Let_def)

interpretation action_risk_codec: label_codec action_risk_str "\<lambda>s. result_ok (parse_action_risk s)"
proof unfold_locales
  fix x show "result_ok (parse_action_risk (action_risk_str x)) = Some x"
    by (cases x) (simp_all add: parse_action_risk_def rust_str)
qed (simp add: parse_action_risk_def Let_def)

section \<open>Task types\<close>

definition MAX_TASK_TYPES :: nat where "MAX_TASK_TYPES = 64"
definition MAX_TASK_TYPE_BYTES :: nat where "MAX_TASK_TYPE_BYTES = 64"
definition MAX_REASON_BYTES :: nat where "MAX_REASON_BYTES = 512"
definition MAX_REQUEST_ID_BYTES :: nat where "MAX_REQUEST_ID_BYTES = 128"

text \<open>The loop over the characters: \<open>acc\<close> is \<open>normalized\<close>, \<open>sep\<close> the flag \<open>separator\<close>; \<open>None\<close> is the
  return with an unsupported character.\<close>

fun task_type_loop :: "str \<Rightarrow> str \<Rightarrow> bool \<Rightarrow> str option" where
  "task_type_loop [] acc sep = Some acc"
| "task_type_loop (c # cs) acc sep =
     (if is_ascii_alphanumeric c then task_type_loop cs (acc @ [to_lower c]) False
      else if c = 95 \<or> c = 45 \<or> c = 32
      then (if \<not> sep \<and> acc \<noteq> [] then task_type_loop cs (acc @ [95]) True
            else task_type_loop cs acc sep)
      else None)"

definition normalize_task_type :: "str \<Rightarrow> policy_error + str" where
  "normalize_task_type raw =
     (let value = trim raw in
      if value = [] then Inl (InvalidPolicy (lit ''task type must not be empty''))
      else if blen value > MAX_TASK_TYPE_BYTES
      then Inl (InvalidPolicy (lit ''task type exceeds 64 bytes''))
      else if (\<exists>c \<in> set value. is_control c)
      then Inl (InvalidPolicy (lit ''task type contains control characters''))
      else (case task_type_loop value [] False of
          None \<Rightarrow> Inl (InvalidPolicy
            (lit ''task type '' @ [39] @ value @ [39] @ lit '' contains unsupported characters''))
        | Some normalized \<Rightarrow>
            (let normalized = pop_trailing 95 normalized in
             if normalized = []
             then Inl (InvalidPolicy (lit ''task type must contain letters or digits''))
             else Inr normalized)))"

definition canonicalize_task_types :: "str list \<Rightarrow> policy_error + str list" where
  "canonicalize_task_types task_types =
     (if length task_types > MAX_TASK_TYPES
      then Inl (InvalidPolicy (lit ''task list exceeds the maximum of 64 entries''))
      else try_then (try_map normalize_task_type task_types) (\<lambda>ts. Inr (btree_set ts)))"

definition validate_bounded_text :: "str \<Rightarrow> str \<Rightarrow> nat \<Rightarrow> policy_error + unit" where
  "validate_bounded_text field value maximum_bytes =
     (let trimmed = trim value in
      if trimmed = [] then Inl (InvalidPolicy (field @ lit '' must not be empty''))
      else if blen trimmed > maximum_bytes
      then Inl (InvalidPolicy (field @ lit '' exceeds '' @ dec_nat maximum_bytes @ lit '' bytes''))
      else if (\<exists>c \<in> set trimmed. is_control c)
      then Inl (InvalidPolicy (field @ lit '' contains control characters''))
      else Inr ())"

section \<open>Policies\<close>

record memory_influence_policy =
  p_version :: nat
  p_state :: influence_state
  p_allowed :: "str list"
  p_denied :: "str list"
  p_max_risk :: action_risk
  p_requires_source :: bool
  p_requires_confirmation :: bool
  p_max_depth :: "nat option"

definition default_policy :: memory_influence_policy where
  "default_policy = \<lparr>
     p_version = 1, p_state = Eligible, p_allowed = [], p_denied = [], p_max_risk = RiskCritical,
     p_requires_source = False, p_requires_confirmation = False, p_max_depth = None\<rparr>"

definition is_permissive :: "memory_influence_policy \<Rightarrow> bool" where
  "is_permissive p \<longleftrightarrow>
     p_state p = p_state default_policy \<and> p_allowed p = [] \<and> p_denied p = []
     \<and> p_max_risk p = p_max_risk default_policy \<and> \<not> p_requires_source p
     \<and> \<not> p_requires_confirmation p \<and> p_max_depth p = None"

record stored_influence_policy =
  sp_version :: int
  sp_state :: str
  sp_allowed :: str
  sp_denied :: str
  sp_max_risk :: str
  sp_requires_source :: bool
  sp_requires_confirmation :: bool
  sp_max_depth :: "int option"

definition policy_from_storage ::
  "externals \<Rightarrow> stored_influence_policy \<Rightarrow> policy_error + memory_influence_policy" where
  "policy_from_storage x stored =
     try_then (ok_or (InvalidPolicy (lit ''stored policy version is negative''))
       (u64_of_i64 (sp_version stored))) (\<lambda>version.
     if version = 0
     then Inl (InvalidPolicy (lit ''stored policy version must be at least 1''))
     else try_then (case sp_max_depth stored of
         None \<Rightarrow> Inr None
       | Some depth \<Rightarrow> try_then
           (ok_or (InvalidPolicy (lit ''stored maximum derivation depth is out of range''))
             (u32_of_i64 depth)) (\<lambda>d. Inr (Some d))) (\<lambda>max_depth.
     try_then (parse_influence_state (sp_state stored)) (\<lambda>state.
     try_then (map_err (\<lambda>e. InvalidPolicy (lit ''stored allowed task list is invalid JSON: '' @ e))
       (parse_str_list x (sp_allowed stored))) (\<lambda>allowed.
     try_then (map_err (\<lambda>e. InvalidPolicy (lit ''stored denied task list is invalid JSON: '' @ e))
       (parse_str_list x (sp_denied stored))) (\<lambda>denied.
     try_then (parse_action_risk (sp_max_risk stored)) (\<lambda>risk.
     try_then (canonicalize_task_types allowed) (\<lambda>allowed.
     try_then (canonicalize_task_types denied) (\<lambda>denied.
       Inr \<lparr>p_version = version, p_state = state, p_allowed = allowed, p_denied = denied,
            p_max_risk = risk, p_requires_source = sp_requires_source stored,
            p_requires_confirmation = sp_requires_confirmation stored,
            p_max_depth = max_depth\<rparr>))))))))"

text \<open>The row that the store writes for a policy (\<open>update_memory_influence_policy\<close> in \<open>db.rs\<close>
  serialises the two lists with \<open>serde_json::to_string\<close>).\<close>

definition policy_to_storage :: "externals \<Rightarrow> memory_influence_policy \<Rightarrow> stored_influence_policy" where
  "policy_to_storage x p = \<lparr>
     sp_version = int (p_version p), sp_state = influence_state_str (p_state p),
     sp_allowed = json_text x (JArr (map JStr (p_allowed p))),
     sp_denied = json_text x (JArr (map JStr (p_denied p))),
     sp_max_risk = action_risk_str (p_max_risk p),
     sp_requires_source = p_requires_source p,
     sp_requires_confirmation = p_requires_confirmation p,
     sp_max_depth = map_option int (p_max_depth p)\<rparr>"

section \<open>The state matrix\<close>

datatype influence_use = UseReasoning | UseAction

datatype state_disposition = DispAllow | DispAllowReasoningOnly | DispDeny

definition state_disposition ::
  "memory_influence_policy \<Rightarrow> influence_use \<Rightarrow> action_risk \<Rightarrow> state_disposition" where
  "state_disposition policy use_kind action_risk =
     (case p_state policy of
        Blocked \<Rightarrow> DispDeny
      | Quarantined \<Rightarrow> DispDeny
      | Superseded \<Rightarrow> DispDeny
      | ReasoningOnly \<Rightarrow>
          (case use_kind of UseReasoning \<Rightarrow> DispAllowReasoningOnly | UseAction \<Rightarrow> DispDeny)
      | ActionRestricted \<Rightarrow>
          (case use_kind of
             UseReasoning \<Rightarrow> DispAllow
           | UseAction \<Rightarrow> if action_risk \<le> p_max_risk policy then DispAllow else DispDeny)
      | Eligible \<Rightarrow> DispAllow)"

section \<open>Patches and requests\<close>

record policy_patch =
  pp_state :: "influence_state option"
  pp_allowed :: "str list option"
  pp_denied :: "str list option"
  pp_max_risk :: "action_risk option"
  pp_requires_source :: "bool option"
  pp_requires_confirmation :: "bool option"
  pp_max_depth :: "nat option option"

definition patch_is_empty :: "policy_patch \<Rightarrow> bool" where
  "patch_is_empty p \<longleftrightarrow>
     pp_state p = None \<and> pp_allowed p = None \<and> pp_denied p = None \<and> pp_max_risk p = None
     \<and> pp_requires_source p = None \<and> pp_requires_confirmation p = None \<and> pp_max_depth p = None"

definition patch_apply ::
  "policy_patch \<Rightarrow> memory_influence_policy \<Rightarrow> policy_error + memory_influence_policy" where
  "patch_apply patch current =
     (if patch_is_empty patch
      then Inl (InvalidPolicy (lit ''policy update contains no changes''))
      else
        let next_state = case_option current (\<lambda>s. current\<lparr>p_state := s\<rparr>) (pp_state patch) in
        try_then (case pp_allowed patch of
            None \<Rightarrow> Inr next_state
          | Some ts \<Rightarrow> try_then (canonicalize_task_types ts) (\<lambda>c. Inr (next_state\<lparr>p_allowed := c\<rparr>))) (\<lambda>n1.
        try_then (case pp_denied patch of
            None \<Rightarrow> Inr n1
          | Some ts \<Rightarrow> try_then (canonicalize_task_types ts) (\<lambda>c. Inr (n1\<lparr>p_denied := c\<rparr>))) (\<lambda>n2.
        let n3 = case_option n2 (\<lambda>r. n2\<lparr>p_max_risk := r\<rparr>) (pp_max_risk patch);
            n4 = case_option n3 (\<lambda>b. n3\<lparr>p_requires_source := b\<rparr>) (pp_requires_source patch);
            n5 = case_option n4 (\<lambda>b. n4\<lparr>p_requires_confirmation := b\<rparr>) (pp_requires_confirmation patch);
            n6 = case_option n5 (\<lambda>d. n5\<lparr>p_max_depth := d\<rparr>) (pp_max_depth patch)
        in Inr n6)))"

record policy_mutation_request =
  pm_expected_version :: nat
  pm_patch :: policy_patch
  pm_reason :: str
  pm_request_id :: str

definition validate_policy_mutation :: "policy_mutation_request \<Rightarrow> policy_error + unit" where
  "validate_policy_mutation r =
     try_then (validate_bounded_text (lit ''reason'') (pm_reason r) MAX_REASON_BYTES) (\<lambda>_.
     try_then (validate_bounded_text (lit ''request_id'') (pm_request_id r) MAX_REQUEST_ID_BYTES) (\<lambda>_.
     if patch_is_empty (pm_patch r)
     then Inl (InvalidPolicy (lit ''policy update contains no changes''))
     else Inr ()))"

record memory_policy_record =
  pr_memory_id :: int
  pr_namespace :: str
  pr_policy :: memory_influence_policy
  pr_explicit :: bool
  pr_updated_by :: "str option"
  pr_updated_at :: "int option"

section \<open>Principals\<close>

definition POLICY_READ_CAPABILITY :: str where
  "POLICY_READ_CAPABILITY = lit ''influence_policy:read''"

definition POLICY_WRITE_CAPABILITY :: str where
  "POLICY_WRITE_CAPABILITY = lit ''influence_policy:write''"

record policy_principal =
  pr_actor :: str
  pr_authority :: str
  pr_namespaces :: "str list"
  pr_capabilities :: "str list"

definition local_operator :: "str \<Rightarrow> policy_principal" where
  "local_operator actor = \<lparr>
     pr_actor = actor, pr_authority = lit ''local_operator'', pr_namespaces = [],
     pr_capabilities = [POLICY_READ_CAPABILITY, lit ''diagnostics:read'', lit ''assertions:read'',
       lit ''assertions:write'', POLICY_WRITE_CAPABILITY]\<rparr>"

definition configured_principal :: "str \<Rightarrow> str \<Rightarrow> str list \<Rightarrow> str list \<Rightarrow> policy_principal" where
  "configured_principal actor authority namespaces capabilities = \<lparr>
     pr_actor = actor, pr_authority = authority,
     pr_namespaces = btree_set (map normalize_namespace namespaces),
     pr_capabilities =
       btree_set (filter (\<lambda>c. c \<noteq> []) (map (\<lambda>c. to_ascii_lowercase (trim c)) capabilities))\<rparr>"

definition authorize :: "policy_principal \<Rightarrow> str \<Rightarrow> str \<Rightarrow> policy_error + unit" where
  "authorize p capability namespace =
     (let namespace = normalize_namespace namespace in
      if pr_namespaces p \<noteq> [] \<and> namespace \<notin> set (pr_namespaces p)
      then Inl (NamespaceDenied namespace (pr_actor p))
      else if \<not> (\<exists>configured \<in> set (pr_capabilities p). configured = capability)
      then Inl (CapabilityRequired capability (pr_actor p))
      else Inr ())"

section \<open>Lemmas\<close>

subsection \<open>Task types\<close>

text \<open>The canonical form: lower-case letters, digits and single underscores between them.\<close>

interpretation task_slug: slug 95
  by unfold_locales (simp_all add: char_class_defs)

lemma task_type_loop_acc:
  "task_type_loop cs acc sep = Some r \<Longrightarrow> task_slug.acc_ok acc sep
     \<Longrightarrow> (\<exists>sep'. task_slug.acc_ok r sep') \<and> length r \<le> length acc + length cs"
proof (induction cs acc sep rule: task_type_loop.induct)
  case (2 c cs acc sep)
  consider "is_ascii_alphanumeric c" | "\<not> is_ascii_alphanumeric c" "c = 95 \<or> c = 45 \<or> c = 32"
    using 2 by (auto split: if_splits)
  then show ?case
  proof cases
    case 1
    with 2 task_slug.acc_ok_letter show ?thesis by fastforce
  next
    case c: 2
    show ?thesis
    proof (cases "\<not> sep \<and> acc \<noteq> []")
      case True
      with 2 c have "(\<exists>sep'. task_slug.acc_ok r sep') \<and> length r \<le> length (acc @ [95]) + length cs"
        using task_slug.acc_ok_sep [of acc] by (intro "2.IH"(2)) auto
      then show ?thesis by simp
    next
      case False
      with 2 c have "(\<exists>sep'. task_slug.acc_ok r sep') \<and> length r \<le> length acc + length cs"
        by (intro "2.IH"(3)) auto
      then show ?thesis by auto
    qed
  qed
qed auto

lemma task_type_loop_id:
  "task_slug.acc_ok acc sep \<Longrightarrow> task_slug.acc_ok (acc @ cs) sep' \<Longrightarrow> task_type_loop cs acc sep = Some (acc @ cs)"
proof (induction cs arbitrary: acc sep)
  case (Cons c cs)
  from Cons.prems show ?case
  proof (cases rule: task_slug.acc_ok_next)
    case letter
    with Cons.IH [of "acc @ [c]" False] Cons.prems show ?thesis by simp
  next
    case sep
    with Cons.IH [of "acc @ [95]" True] Cons.prems show ?thesis by (simp add: char_class_defs)
  qed
qed simp

lemma normalize_task_type_form:
  assumes "normalize_task_type raw = Inr t"
  shows "task_slug.form t \<and> blen t \<le> MAX_TASK_TYPE_BYTES"
proof -
  let ?v = "trim raw"
  from assms obtain r where r: "task_type_loop ?v [] False = Some r"
    and t: "t = pop_trailing 95 r" and ne: "t \<noteq> []" and len: "blen ?v \<le> MAX_TASK_TYPE_BYTES"
    by (auto simp: normalize_task_type_def Let_def split: if_splits option.splits)
  from task_type_loop_acc [OF r] obtain sep where "task_slug.acc_ok r sep" and rl: "length r \<le> length ?v"
    by auto
  with ne t have f: "task_slug.form t" using task_slug.form_pop by simp
  have "length t \<le> length r" using t length_pop_trailing by simp
  with rl len length_le_blen [of ?v] f show ?thesis by (simp add: task_slug.form_blen)
qed

lemma normalize_task_type_id:
  assumes "task_slug.form s" and "blen s \<le> MAX_TASK_TYPE_BYTES"
  shows "normalize_task_type s = Inr s"
proof -
  have "task_slug.acc_ok s False" "s \<noteq> []" using assms by (simp_all add: task_slug.form_def)
  then have "task_type_loop s [] False = Some s" using task_type_loop_id [of "[]" False s False] by simp
  with assms task_slug.form_pop_id \<open>s \<noteq> []\<close> show ?thesis
    using task_slug.form_trim task_slug.form_ascii by (auto simp: normalize_task_type_def)
qed

interpretation task_type: bounded_canonical_form normalize_task_type MAX_TASK_TYPE_BYTES
proof unfold_locales
  fix s t assume "normalize_task_type s = Inr t"
  then have f: "task_slug.form t" "blen t \<le> MAX_TASK_TYPE_BYTES"
    using normalize_task_type_form by auto
  then show "normalize_task_type t = Inr t" by (rule normalize_task_type_id)
  show "t \<noteq> []" using f by (simp add: task_slug.form_def)
  show "blen t \<le> MAX_TASK_TYPE_BYTES" by (rule f)
qed

text \<open>Canonical lists: what a policy keeps.\<close>

definition canonical_tasks :: "str list \<Rightarrow> bool" where
  "canonical_tasks ts \<longleftrightarrow> length ts \<le> MAX_TASK_TYPES \<and> sorted ts \<and> distinct ts
     \<and> (\<forall>t \<in> set ts. normalize_task_type t = Inr t)"

lemma length_btree_set: "length (btree_set xs) \<le> length xs"
  by (simp add: btree_set_def length_remdups_leq)

lemma canonicalize_canonical: "canonicalize_task_types ts = Inr cs \<Longrightarrow> canonical_tasks cs"
proof -
  assume "canonicalize_task_types ts = Inr cs"
  then obtain ys where ys: "try_map normalize_task_type ts = Inr ys" "cs = btree_set ys"
    and len: "length ts \<le> MAX_TASK_TYPES"
    by (auto simp: canonicalize_task_types_def try_conv split: if_splits)
  have "normalize_task_type y = Inr y" if "y \<in> set ys" for y
    using try_map_ok_set [OF ys(1) that] task_type.norm_stable by auto
  with ys len try_map_length [OF ys(1)] length_btree_set [of ys] show ?thesis
    by (simp add: canonical_tasks_def)
qed

lemma canonicalize_id: "canonical_tasks cs \<Longrightarrow> canonicalize_task_types cs = Inr cs"
  by (simp add: canonical_tasks_def canonicalize_task_types_def try_map_id btree_set_id)

subsection \<open>Policies\<close>

definition wf_policy :: "memory_influence_policy \<Rightarrow> bool" where
  "wf_policy p \<longleftrightarrow> 1 \<le> p_version p \<and> canonical_tasks (p_allowed p) \<and> canonical_tasks (p_denied p)
     \<and> (\<forall>d. p_max_depth p = Some d \<longrightarrow> d \<le> u32_max)"

lemma wf_default_policy [simp]: "wf_policy default_policy"
  by (simp add: wf_policy_def default_policy_def canonical_tasks_def MAX_TASK_TYPES_def)

lemma policy_from_storage_wf:
  assumes "policy_from_storage x stored = Inr p"
  shows "wf_policy p"
  using assms unfolding policy_from_storage_def
  by (auto simp: try_conv wf_policy_def canonicalize_canonical u32_of_i64_def
      split: if_splits option.splits)

lemma policy_storage_round_trip:
  assumes "json_list_roundtrip x" and "wf_policy p"
  shows "policy_from_storage x (policy_to_storage x p) = Inr p"
proof -
  have d: "p_max_depth p = Some d \<Longrightarrow> u32_of_i64 (int d) = Some d" for d
    using assms(2) by (simp add: wf_policy_def u32_of_i64_def)
  have st: "parse_influence_state (influence_state_str s) = Inr s" for s
    using influence_state_codec.parse_show [of s] by simp
  have rk: "parse_action_risk (action_risk_str s) = Inr s" for s
    using action_risk_codec.parse_show [of s] by simp
  show ?thesis
    using assms d
    by (cases "p_max_depth p")
       (simp_all add: policy_from_storage_def policy_to_storage_def u64_of_i64_def st rk
         json_list_roundtrip_def wf_policy_def canonicalize_id)
qed

lemma patch_apply_wf:
  assumes "wf_policy p" and "patch_apply patch p = Inr q"
    and "\<And>d. pp_max_depth patch = Some (Some d) \<Longrightarrow> d \<le> u32_max"
  shows "wf_policy q \<and> p_version q = p_version p"
proof -
  define s1 where "s1 = case_option p (\<lambda>s. p\<lparr>p_state := s\<rparr>) (pp_state patch)"
  have 1: "wf_policy s1 \<and> p_version s1 = p_version p"
    using assms(1) by (simp add: s1_def wf_policy_def split: option.split)
  from assms(2) obtain n1 n2 where
      n1: "(case pp_allowed patch of None \<Rightarrow> Inr s1
         | Some ts \<Rightarrow> try_then (canonicalize_task_types ts) (\<lambda>c. Inr (s1\<lparr>p_allowed := c\<rparr>))) = Inr n1"
    and n2: "(case pp_denied patch of None \<Rightarrow> Inr n1
         | Some ts \<Rightarrow> try_then (canonicalize_task_types ts) (\<lambda>c. Inr (n1\<lparr>p_denied := c\<rparr>))) = Inr n2"
    and q: "q = (let n3 = case_option n2 (\<lambda>r. n2\<lparr>p_max_risk := r\<rparr>) (pp_max_risk patch);
        n4 = case_option n3 (\<lambda>b. n3\<lparr>p_requires_source := b\<rparr>) (pp_requires_source patch);
        n5 = case_option n4 (\<lambda>b. n4\<lparr>p_requires_confirmation := b\<rparr>) (pp_requires_confirmation patch)
      in case_option n5 (\<lambda>d. n5\<lparr>p_max_depth := d\<rparr>) (pp_max_depth patch))"
    unfolding patch_apply_def s1_def Let_def try_then_Inr by (auto split: if_splits simp: try_then_Inr)
  have 2: "wf_policy n1 \<and> p_version n1 = p_version p"
    using 1 n1 by (auto simp: wf_policy_def try_then_Inr canonicalize_canonical split: option.splits)
  have 3: "wf_policy n2 \<and> p_version n2 = p_version p"
    using 2 n2 by (auto simp: wf_policy_def try_then_Inr canonicalize_canonical split: option.splits)
  show ?thesis
    using 3 assms(3) unfolding q Let_def wf_policy_def
    by (cases "pp_max_risk patch"; cases "pp_requires_source patch";
        cases "pp_requires_confirmation patch"; cases "pp_max_depth patch") simp_all
qed

subsection \<open>The state matrix\<close>

lemma state_disposition_deny:
  "p_state p \<in> {Blocked, Quarantined, Superseded} \<Longrightarrow> state_disposition p u r = DispDeny"
  by (auto simp: state_disposition_def)

lemma state_disposition_risk_mono:
  assumes "state_disposition p UseAction r = DispAllow" and "r' \<le> r"
  shows "state_disposition p UseAction r' = DispAllow"
  using assms by (auto simp: state_disposition_def split: influence_state.splits if_splits)

subsection \<open>Principals\<close>

lemma authorize_ok:
  "authorize p capability namespace = Inr () \<longleftrightarrow>
     (pr_namespaces p = [] \<or> normalize_namespace namespace \<in> set (pr_namespaces p))
     \<and> capability \<in> set (pr_capabilities p)"
  by (auto simp: authorize_def Let_def)

lemma authorize_normalized:
  "authorize p c (normalize_namespace ns) = authorize p c ns"
  by (simp add: authorize_def)

end
