(* ===== verification/Purpose.thy ===== *)
theory Purpose
  imports Influence "HOL-Library.Countable"
begin

text \<open>
  \<open>src/src/purpose.rs\<close>: the purpose of a recall, its normalisation, the two verifiers (advisory and
  trusted runtime), the purpose hash, and signed tokens: a token is
  \<open>v1.<base64 payload>.<base64 HMAC of the rest>\<close>. \<open>token_env\<close> holds the crates' functions (HMAC,
  base64, the serde codecs of the two claim types); \<open>token_env_ok\<close> states the documented
  behaviour of the base64 and serde ones. A clock value is an \<open>i64\<close>; the window check adds the
  skew with the wrap-around of a release build.
\<close>

section \<open>Data\<close>

record recall_purpose =
  rp_request_id :: str
  rp_namespace :: str
  rp_project :: str
  rp_task_type :: str
  rp_intended_action :: "str option"
  rp_action_risk :: action_risk
  rp_require_source_backing :: bool
  rp_purpose_attestation :: "str option"
  rp_confirmation_receipt :: "str option"

datatype purpose_authority = SelfDeclared | AuthenticatedAgent | TrustedRuntime | LocalOperator

fun is_trusted :: "purpose_authority \<Rightarrow> bool" where
  "is_trusted TrustedRuntime = True"
| "is_trusted LocalOperator = True"
| "is_trusted _ = False"

record verified_purpose =
  vp_request_id :: str
  vp_subject_agent_id :: "str option"
  vp_namespace :: str
  vp_project :: str
  vp_task_type :: str
  vp_intended_action :: "str option"
  vp_action_risk :: action_risk
  vp_require_source_backing :: bool
  vp_authority :: purpose_authority
  vp_attestation_id :: "str option"
  vp_confirmation_receipt_id :: "str option"
  vp_issued_at :: int
  vp_expires_at :: "int option"

record attestation_claims =
  ac_attestation_id :: str
  ac_issuer :: str
  ac_subject_agent_id :: "str option"
  ac_request_id :: str
  ac_namespace :: str
  ac_project :: str
  ac_task_type :: str
  ac_intended_action :: "str option"
  ac_action_risk :: action_risk
  ac_require_source_backing :: bool
  ac_issued_at :: int
  ac_expires_at :: int
  ac_nonce :: str

record confirmation_claims =
  cc_receipt_id :: str
  cc_issuer :: str
  cc_confirming_actor :: str
  cc_request_id :: str
  cc_purpose_hash :: str
  cc_namespace :: str
  cc_project :: str
  cc_task_type :: str
  cc_intended_action :: "str option"
  cc_maximum_authorized_risk :: action_risk
  cc_issued_at :: int
  cc_expires_at :: int
  cc_nonce :: str
  cc_single_use :: bool

datatype purpose_error =
    PurposeInvalid str
  | MissingAttestation
  | InvalidAttestation
  | ExpiredAttestation
  | ScopeMismatch
  | InvalidConfirmation
  | ExpiredConfirmation
  | ConfirmationRiskExceeded

fun purpose_error_code :: "purpose_error \<Rightarrow> str" where
  "purpose_error_code (PurposeInvalid _) = lit ''purpose_invalid''"
| "purpose_error_code MissingAttestation = lit ''purpose_unattested''"
| "purpose_error_code InvalidAttestation = lit ''purpose_attestation_invalid''"
| "purpose_error_code ExpiredAttestation = lit ''purpose_attestation_expired''"
| "purpose_error_code ScopeMismatch = lit ''purpose_attestation_scope_mismatch''"
| "purpose_error_code InvalidConfirmation = lit ''confirmation_receipt_invalid''"
| "purpose_error_code ExpiredConfirmation = lit ''confirmation_receipt_expired''"
| "purpose_error_code ConfirmationRiskExceeded = lit ''confirmation_risk_exceeded''"

definition purpose_error_display :: "purpose_error \<Rightarrow> str" where
  "purpose_error_display e = (case e of PurposeInvalid message \<Rightarrow> message | other \<Rightarrow> purpose_error_code other)"

section \<open>Validation and normalisation\<close>

definition MAX_FIELD_BYTES :: nat where "MAX_FIELD_BYTES = 512"
definition CLOCK_SKEW_SECONDS :: int where "CLOCK_SKEW_SECONDS = 30"

definition validate_field :: "str \<Rightarrow> str \<Rightarrow> purpose_error + unit" where
  "validate_field name value =
     (let value = trim value in
      if value = [] \<or> blen value > MAX_FIELD_BYTES \<or> (\<exists>c \<in> set value. is_control c)
      then Inl (PurposeInvalid (lit ''invalid '' @ name))
      else Inr ())"

definition validate_window :: "int \<Rightarrow> int \<Rightarrow> int \<Rightarrow> purpose_error + unit" where
  "validate_window issued_at expires_at now =
     (if expires_at \<le> issued_at \<or> i64 (now + CLOCK_SKEW_SECONDS) < issued_at
         \<or> i64 (now - CLOCK_SKEW_SECONDS) > expires_at
      then Inl ExpiredAttestation
      else Inr ())"

definition normalized_purpose :: "recall_purpose \<Rightarrow> purpose_error + recall_purpose" where
  "normalized_purpose p =
     try_then (validate_field (lit ''request_id'') (rp_request_id p)) (\<lambda>_.
     try_then (validate_field (lit ''namespace'') (rp_namespace p)) (\<lambda>_.
     try_then (validate_field (lit ''project'') (rp_project p)) (\<lambda>_.
     try_then (case rp_intended_action p of
         Some action \<Rightarrow> validate_field (lit ''intended_action'') action
       | None \<Rightarrow> Inr ()) (\<lambda>_.
     try_then (map_err (\<lambda>e. PurposeInvalid (policy_error_display e))
       (normalize_task_type (rp_task_type p))) (\<lambda>task_type.
     Inr \<lparr>rp_request_id = trim (rp_request_id p),
          rp_namespace = normalize_namespace (rp_namespace p),
          rp_project = trim (rp_project p),
          rp_task_type = task_type,
          rp_intended_action = (case rp_intended_action p of
             None \<Rightarrow> None
           | Some a \<Rightarrow> if trim a = [] then None else Some (trim a)),
          rp_action_risk = rp_action_risk p,
          rp_require_source_backing = rp_require_source_backing p,
          rp_purpose_attestation = rp_purpose_attestation p,
          rp_confirmation_receipt = rp_confirmation_receipt p\<rparr>)))))"

section \<open>Signed tokens\<close>

record token_env =
  hmac_sha256 :: "byte list \<Rightarrow> byte list \<Rightarrow> byte list"
  b64_encode :: "byte list \<Rightarrow> str"
  b64_decode :: "str \<Rightarrow> byte list option"
  attestation_bytes :: "attestation_claims \<Rightarrow> byte list"
  attestation_parse :: "byte list \<Rightarrow> attestation_claims option"
  confirmation_bytes :: "confirmation_claims \<Rightarrow> byte list"
  confirmation_parse :: "byte list \<Rightarrow> confirmation_claims option"

text \<open>The URL-safe alphabet has no full stop; decoding and deserialising undo encoding and
  serialising.\<close>

definition token_env_ok :: "token_env \<Rightarrow> bool" where
  "token_env_ok e \<longleftrightarrow>
     (\<forall>bs. b64_decode e (b64_encode e bs) = Some bs \<and> 46 \<notin> set (b64_encode e bs))
     \<and> (\<forall>c. attestation_parse e (attestation_bytes e c) = Some c)
     \<and> (\<forall>c. confirmation_parse e (confirmation_bytes e c) = Some c)"

definition TOKEN_VERSION :: str where "TOKEN_VERSION = lit ''v1''"

text \<open>\<open>token.split('.')\<close> is read part by part; a fourth part is an error. The MAC is over
  \<open>version . payload\<close>.\<close>

definition decode_signed ::
  "token_env \<Rightarrow> (byte list \<Rightarrow> 'c option) \<Rightarrow> str \<Rightarrow> byte list \<Rightarrow> purpose_error + 'c" where
  "decode_signed e from_slice token key =
     (case split_on (\<lambda>c. c = 46) token of
        version # payload # signature # rest \<Rightarrow>
          (if version \<noteq> TOKEN_VERSION \<or> rest \<noteq> [] then Inl InvalidAttestation
           else try_then (ok_or InvalidAttestation (b64_decode e signature)) (\<lambda>signature.
             if hmac_sha256 e key (as_bytes version @ as_bytes [46] @ as_bytes payload) \<noteq> signature
             then Inl InvalidAttestation
             else try_then (ok_or InvalidAttestation (b64_decode e payload)) (\<lambda>bytes.
               ok_or InvalidAttestation (from_slice bytes))))
      | _ \<Rightarrow> Inl InvalidAttestation)"

definition encode_signed :: "token_env \<Rightarrow> byte list \<Rightarrow> byte list \<Rightarrow> str" where
  "encode_signed e claims key =
     (let payload = b64_encode e claims;
          message = TOKEN_VERSION @ [46] @ payload;
          signature = b64_encode e (hmac_sha256 e key (as_bytes message))
      in message @ [46] @ signature)"

section \<open>Verifiers\<close>

definition advisory_verify ::
  "recall_purpose \<Rightarrow> str option \<Rightarrow> int \<Rightarrow> purpose_error + verified_purpose \<times> attestation_claims option"
where
  "advisory_verify purpose authenticated_agent now =
     try_then (normalized_purpose purpose) (\<lambda>purpose. Inr (\<lparr>
       vp_request_id = rp_request_id purpose,
       vp_subject_agent_id = authenticated_agent,
       vp_namespace = rp_namespace purpose,
       vp_project = rp_project purpose,
       vp_task_type = rp_task_type purpose,
       vp_intended_action = rp_intended_action purpose,
       vp_action_risk = rp_action_risk purpose,
       vp_require_source_backing = rp_require_source_backing purpose,
       vp_authority = (if authenticated_agent \<noteq> None then AuthenticatedAgent else SelfDeclared),
       vp_attestation_id = None,
       vp_confirmation_receipt_id = None,
       vp_issued_at = now,
       vp_expires_at = None\<rparr>, None))"

definition trusted_runtime_new :: "byte list \<Rightarrow> purpose_error + byte list" where
  "trusted_runtime_new key =
     (if length key < 32
      then Inl (PurposeInvalid (lit ''attestation key must contain at least 32 bytes''))
      else Inr key)"

definition trusted_verify ::
  "token_env \<Rightarrow> byte list \<Rightarrow> recall_purpose \<Rightarrow> str option \<Rightarrow> int
     \<Rightarrow> purpose_error + verified_purpose \<times> attestation_claims option"
where
  "trusted_verify e key purpose authenticated_agent now =
     try_then (normalized_purpose purpose) (\<lambda>purpose.
     try_then (ok_or MissingAttestation (rp_purpose_attestation purpose)) (\<lambda>token.
     try_then (map_err (\<lambda>_. InvalidAttestation) (decode_signed e (attestation_parse e) token key)) (\<lambda>claims.
     try_then (map_err (\<lambda>_. ExpiredAttestation)
       (validate_window (ac_issued_at claims) (ac_expires_at claims) now)) (\<lambda>_.
     try_then (map_err (\<lambda>_. InvalidAttestation) (normalize_task_type (ac_task_type claims))) (\<lambda>claim_task.
     let claim_namespace = normalize_namespace (ac_namespace claims) in
     if ac_request_id claims \<noteq> rp_request_id purpose
        \<or> claim_namespace \<noteq> rp_namespace purpose
        \<or> ac_project claims \<noteq> rp_project purpose
        \<or> claim_task \<noteq> rp_task_type purpose
        \<or> ac_intended_action claims \<noteq> rp_intended_action purpose
        \<or> ac_action_risk claims \<noteq> rp_action_risk purpose
        \<or> ac_require_source_backing claims \<noteq> rp_require_source_backing purpose
        \<or> (case (authenticated_agent, ac_subject_agent_id claims) of
             (Some transport, Some claim) \<Rightarrow> transport \<noteq> claim
           | _ \<Rightarrow> False)
     then Inl ScopeMismatch
     else Inr (\<lparr>
       vp_request_id = rp_request_id purpose,
       vp_subject_agent_id = ac_subject_agent_id claims,
       vp_namespace = rp_namespace purpose,
       vp_project = rp_project purpose,
       vp_task_type = rp_task_type purpose,
       vp_intended_action = rp_intended_action purpose,
       vp_action_risk = rp_action_risk purpose,
       vp_require_source_backing = rp_require_source_backing purpose,
       vp_authority = TrustedRuntime,
       vp_attestation_id = Some (ac_attestation_id claims),
       vp_confirmation_receipt_id = None,
       vp_issued_at = ac_issued_at claims,
       vp_expires_at = Some (ac_expires_at claims)\<rparr>, Some claims))))))"

definition local_operator_purpose ::
  "recall_purpose \<Rightarrow> str \<Rightarrow> int \<Rightarrow> purpose_error + verified_purpose" where
  "local_operator_purpose purpose actor now =
     try_then (normalized_purpose purpose) (\<lambda>purpose. Inr \<lparr>
       vp_request_id = rp_request_id purpose,
       vp_subject_agent_id = Some actor,
       vp_namespace = rp_namespace purpose,
       vp_project = rp_project purpose,
       vp_task_type = rp_task_type purpose,
       vp_intended_action = rp_intended_action purpose,
       vp_action_risk = rp_action_risk purpose,
       vp_require_source_backing = rp_require_source_backing purpose,
       vp_authority = LocalOperator,
       vp_attestation_id = None,
       vp_confirmation_receipt_id = None,
       vp_issued_at = now,
       vp_expires_at = None\<rparr>)"

section \<open>Purpose hash and confirmations\<close>

definition purpose_payload :: "verified_purpose \<Rightarrow> json" where
  "purpose_payload p = json_obj [
     (''version'', JInt 1),
     (''request_id'', JStr (vp_request_id p)),
     (''namespace'', JStr (vp_namespace p)),
     (''project'', JStr (vp_project p)),
     (''task_type'', JStr (vp_task_type p)),
     (''intended_action'', j_opt_str (vp_intended_action p)),
     (''action_risk'', JStr (action_risk_str (vp_action_risk p))),
     (''require_source_backing'', JBool (vp_require_source_backing p))]"

definition purpose_hash :: "externals \<Rightarrow> verified_purpose \<Rightarrow> str" where
  "purpose_hash x p = sha256_hex x (as_bytes (json_text x (purpose_payload p)))"

definition verify_confirmation ::
  "externals \<Rightarrow> token_env \<Rightarrow> str \<Rightarrow> byte list \<Rightarrow> verified_purpose \<Rightarrow> int
     \<Rightarrow> purpose_error + confirmation_claims"
where
  "verify_confirmation x e token key purpose now =
     try_then (map_err (\<lambda>_. InvalidConfirmation) (decode_signed e (confirmation_parse e) token key)) (\<lambda>claims.
     try_then (map_err (\<lambda>_. ExpiredConfirmation)
       (validate_window (cc_issued_at claims) (cc_expires_at claims) now)) (\<lambda>_.
     if cc_request_id claims \<noteq> vp_request_id purpose
        \<or> cc_purpose_hash claims \<noteq> purpose_hash x purpose
        \<or> normalize_namespace (cc_namespace claims) \<noteq> vp_namespace purpose
        \<or> cc_project claims \<noteq> vp_project purpose
        \<or> result_ok (normalize_task_type (cc_task_type claims)) \<noteq> Some (vp_task_type purpose)
        \<or> cc_intended_action claims \<noteq> vp_intended_action purpose
     then Inl InvalidConfirmation
     else if vp_action_risk purpose > cc_maximum_authorized_risk claims
     then Inl ConfirmationRiskExceeded
     else Inr claims))"

text \<open>The two UUIDs (receipt and nonce) are arguments.\<close>

definition mint_confirmation_token ::
  "externals \<Rightarrow> token_env \<Rightarrow> str \<Rightarrow> str \<Rightarrow> recall_purpose \<Rightarrow> byte list \<Rightarrow> str \<Rightarrow> str \<Rightarrow> action_risk
     \<Rightarrow> int \<Rightarrow> int \<Rightarrow> purpose_error + str"
where
  "mint_confirmation_token x e receipt_uuid nonce_uuid purpose key issuer confirming_actor
     maximum_authorized_risk issued_at expires_at =
     (if length key < 32
      then Inl (PurposeInvalid (lit ''confirmation key must contain at least 32 bytes''))
      else
        try_then (validate_field (lit ''issuer'') issuer) (\<lambda>_.
        try_then (validate_field (lit ''confirming_actor'') confirming_actor) (\<lambda>_.
        try_then (validate_window issued_at expires_at issued_at) (\<lambda>_.
        try_then (local_operator_purpose purpose confirming_actor issued_at) (\<lambda>verified.
        let claims = \<lparr>
          cc_receipt_id = receipt_uuid,
          cc_issuer = issuer,
          cc_confirming_actor = confirming_actor,
          cc_request_id = vp_request_id verified,
          cc_purpose_hash = purpose_hash x verified,
          cc_namespace = vp_namespace verified,
          cc_project = vp_project verified,
          cc_task_type = vp_task_type verified,
          cc_intended_action = vp_intended_action verified,
          cc_maximum_authorized_risk = maximum_authorized_risk,
          cc_issued_at = issued_at,
          cc_expires_at = expires_at,
          cc_nonce = nonce_uuid,
          cc_single_use = True\<rparr>
        in Inr (encode_signed e (confirmation_bytes e claims) key))))))"

section \<open>Lemmas\<close>

lemma split_on_single: "split_on P s = [a] \<Longrightarrow> s = a"
  by (induction s arbitrary: a) (auto split: if_splits list.splits)

lemma split_on_ConsD:
  "split_on P s = a # b # t \<Longrightarrow> \<exists>d r. P d \<and> s = a @ d # r \<and> split_on P r = b # t"
proof (induction s arbitrary: a)
  case (Cons c cs)
  show ?case
  proof (cases "P c")
    case True
    with Cons.prems show ?thesis by auto
  next
    case False
    obtain l ls where l: "split_on P cs = l # ls" by (cases "split_on P cs") auto
    with False Cons.prems have "a = c # l" "ls = b # t" by auto
    with Cons.IH [of l] l show ?thesis by (metis append_Cons)
  qed
qed simp

lemma TOKEN_VERSION_eval: "TOKEN_VERSION = [118, 49]"
  by (simp add: TOKEN_VERSION_def rust_str)

lemma decode_signed_encode:
  assumes "token_env_ok e" and "from_slice claims = Some c"
  shows "decode_signed e from_slice (encode_signed e claims key) key = Inr c"
proof -
  let ?p = "b64_encode e claims"
  let ?m = "TOKEN_VERSION @ [46] @ ?p"
  let ?s = "b64_encode e (hmac_sha256 e key (as_bytes ?m))"
  have nodot: "\<forall>c \<in> set (b64_encode e bs). \<not> c = 46" for bs
    using assms(1) by (auto simp: token_env_ok_def)
  have "split_on (\<lambda>c. c = 46) (?m @ [46] @ ?s) = [TOKEN_VERSION, ?p, ?s]"
    using nodot by (simp add: split_on_append split_on_none TOKEN_VERSION_eval)
  then have sp: "split_on (\<lambda>c. c = 46) (encode_signed e claims key) = [TOKEN_VERSION, ?p, ?s]"
    by (simp add: encode_signed_def Let_def)
  have "as_bytes ?m = as_bytes TOKEN_VERSION @ as_bytes [46] @ as_bytes ?p"
    by (simp only: as_bytes_append)
  then show ?thesis
    using assms by (simp add: decode_signed_def sp token_env_ok_def del: append.simps)
qed

lemma decode_signed_sound:
  assumes "decode_signed e from_slice token key = Inr c"
  obtains payload signature bytes where
    "token = TOKEN_VERSION @ [46] @ payload @ [46] @ signature"
    "b64_decode e signature = Some (hmac_sha256 e key (as_bytes (TOKEN_VERSION @ [46] @ payload)))"
    "b64_decode e payload = Some bytes" "from_slice bytes = Some c"
proof -
  from assms obtain payload signature where sp: "split_on (\<lambda>c. c = 46) token = [TOKEN_VERSION, payload, signature]"
    unfolding decode_signed_def by (auto split: list.splits if_splits)
  from split_on_ConsD [OF sp] obtain r where
    r: "token = TOKEN_VERSION @ 46 # r" "split_on (\<lambda>c. c = 46) r = [payload, signature]" by auto
  from split_on_ConsD [OF r(2)] obtain r2 where
    r2: "r = payload @ 46 # r2" "split_on (\<lambda>c. c = 46) r2 = [signature]" by auto
  from split_on_single [OF r2(2)] r r2 have "token = TOKEN_VERSION @ [46] @ payload @ [46] @ signature"
    by simp
  moreover have "as_bytes (TOKEN_VERSION @ [46] @ payload) = as_bytes TOKEN_VERSION @ as_bytes [46] @ as_bytes payload"
    by (simp only: as_bytes_append)
  moreover obtain bytes where
    "b64_decode e signature = Some (hmac_sha256 e key (as_bytes TOKEN_VERSION @ as_bytes [46] @ as_bytes payload))"
    "b64_decode e payload = Some bytes" "from_slice bytes = Some c"
    using assms sp unfolding decode_signed_def by (auto simp: try_conv split: if_splits)
  ultimately show thesis using that by metis
qed

lemma validate_field_ok:
  "validate_field n v = Inr u \<longleftrightarrow>
     trim v \<noteq> [] \<and> blen (trim v) \<le> MAX_FIELD_BYTES \<and> (\<forall>c \<in> set (trim v). \<not> is_control c)"
  by (auto simp: validate_field_def Let_def)

lemma validate_window_ok:
  "validate_window i x now = Inr u \<longleftrightarrow>
     i < x \<and> i \<le> i64 (now + CLOCK_SKEW_SECONDS) \<and> i64 (now - CLOCK_SKEW_SECONDS) \<le> x"
  by (auto simp: validate_window_def)

lemma blen_map_le: "(\<And>c. char_len (f c) \<le> char_len c) \<Longrightarrow> blen (map f s) \<le> blen s"
  by (induction s) (auto intro: add_mono)

lemma blen_normalize_namespace:
  assumes "trim s \<noteq> []"
  shows "blen (normalize_namespace s) \<le> blen (trim s)"
proof -
  have "char_len (if is_control c \<or> is_whitespace c then 95 else c) \<le> char_len c" for c
    using char_len_pos [of c] by (simp add: char_len_def)
  with assms show ?thesis
    by (simp add: normalize_namespace_def Let_def blen_map_le)
qed

lemma trim_normalize_namespace [simp]: "trim (normalize_namespace s) = normalize_namespace s"
  using normalize_namespace_clean by (intro trim_no_ws) blast

lemma normalized_purpose_stable:
  assumes "normalized_purpose p = Inr q"
  shows "normalized_purpose q = Inr q"
proof -
  have ns: "\<exists>u. validate_field n (normalize_namespace s) = Inr u" if "validate_field n s = Inr ()" for n s
    using that blen_normalize_namespace [of s] normalize_namespace_clean [of _ s]
    unfolding validate_field_ok by auto
  have tr: "\<exists>u. validate_field n (trim s) = Inr u" if "validate_field n s = Inr ()" for n s
    using that unfolding validate_field_ok by simp
  from assms show ?thesis
    by (cases "rp_intended_action p")
       (auto simp: normalized_purpose_def try_conv task_type.norm_stable validate_field_ok
         blen_normalize_namespace [THEN le_trans] dest: normalize_namespace_clean)
qed

lemma normalized_purpose_task:
  "normalized_purpose p = Inr q \<Longrightarrow> normalize_task_type (rp_task_type q) = Inr (rp_task_type q)"
  by (auto simp: normalized_purpose_def try_conv intro: task_type.norm_stable split: option.splits)

lemma normalized_purpose_namespace:
  "normalized_purpose p = Inr q \<Longrightarrow> normalize_namespace (rp_namespace q) = rp_namespace q"
  by (auto simp: normalized_purpose_def try_conv split: option.splits)

text \<open>The fields of a purpose that a hash and a confirmation bind.\<close>

definition same_scope :: "verified_purpose \<Rightarrow> verified_purpose \<Rightarrow> bool" where
  "same_scope p q \<longleftrightarrow>
     vp_request_id p = vp_request_id q \<and> vp_namespace p = vp_namespace q
     \<and> vp_project p = vp_project q \<and> vp_task_type p = vp_task_type q
     \<and> vp_intended_action p = vp_intended_action q \<and> vp_action_risk p = vp_action_risk q
     \<and> vp_require_source_backing p = vp_require_source_backing q"

lemma purpose_hash_cong: "same_scope p q \<Longrightarrow> purpose_hash x p = purpose_hash x q"
  by (simp add: same_scope_def purpose_hash_def purpose_payload_def)

lemma purpose_payload_keys:
  "purpose_payload p = JObj [
     (lit ''action_risk'', JStr (action_risk_str (vp_action_risk p))),
     (lit ''intended_action'', j_opt_str (vp_intended_action p)),
     (lit ''namespace'', JStr (vp_namespace p)),
     (lit ''project'', JStr (vp_project p)),
     (lit ''request_id'', JStr (vp_request_id p)),
     (lit ''require_source_backing'', JBool (vp_require_source_backing p)),
     (lit ''task_type'', JStr (vp_task_type p)),
     (lit ''version'', JInt 1)]"
  by (simp add: purpose_payload_def json_obj_def lit_def)

lemma purpose_hash_eqD:
  assumes "purpose_hash x p = purpose_hash x q"
  shows "same_scope p q \<or> json_digest_collision x"
proof -
  have "purpose_payload p = purpose_payload q \<or> json_digest_collision x"
    using assms unfolding purpose_hash_def by (rule sha256_hex_json_eqD)
  then show ?thesis
    using action_risk_codec.show_inj by (auto simp: purpose_payload_keys same_scope_def)
qed

lemma advisory_never_trusted:
  "advisory_verify p agent now = Inr (v, c) \<Longrightarrow> \<not> is_trusted (vp_authority v) \<and> c = None"
  by (cases agent) (auto simp: advisory_verify_def try_conv)

lemma verifier_scope:
  assumes "advisory_verify p agent t = Inr (v, a) \<or> trusted_verify e k p agent t = Inr (v, a)"
  obtains q where "normalized_purpose p = Inr q" "vp_request_id v = rp_request_id q"
    "vp_namespace v = rp_namespace q" "vp_project v = rp_project q" "vp_task_type v = rp_task_type q"
    "vp_intended_action v = rp_intended_action q" "vp_action_risk v = rp_action_risk q"
    "vp_require_source_backing v = rp_require_source_backing q"
  using assms
proof (elim disjE)
  assume "advisory_verify p agent t = Inr (v, a)"
  with that show thesis by (auto simp: advisory_verify_def try_conv)
next
  assume "trusted_verify e k p agent t = Inr (v, a)"
  with that show thesis
    unfolding trusted_verify_def Let_def
    by (auto simp: try_then_Inr split: if_splits)
qed

lemma local_operator_scope:
  assumes "local_operator_purpose p actor t = Inr v"
  obtains q where "normalized_purpose p = Inr q" "vp_request_id v = rp_request_id q"
    "vp_namespace v = rp_namespace q" "vp_project v = rp_project q" "vp_task_type v = rp_task_type q"
    "vp_intended_action v = rp_intended_action q" "vp_action_risk v = rp_action_risk q"
    "vp_require_source_backing v = rp_require_source_backing q"
  using assms that by (auto simp: local_operator_purpose_def try_conv)

lemma normalized_purpose_risk: "normalized_purpose p = Inr q \<Longrightarrow> rp_action_risk q = rp_action_risk p"
  by (auto simp: normalized_purpose_def try_conv split: option.splits)

lemma verify_confirmation_decode:
  assumes "verify_confirmation x e token key p now = Inr c"
  shows "decode_signed e (confirmation_parse e) token key = Inr c"
    and "validate_window (cc_issued_at c) (cc_expires_at c) now = Inr ()"
    and "cc_request_id c = vp_request_id p" and "cc_purpose_hash c = purpose_hash x p"
    and "vp_action_risk p \<le> cc_maximum_authorized_risk c"
  using assms by (auto simp: verify_confirmation_def try_conv split: if_splits)

text \<open>The claims of an attestation are those of the purpose it authorises.\<close>

definition claims_name_purpose :: "attestation_claims \<Rightarrow> verified_purpose \<Rightarrow> bool" where
  "claims_name_purpose c v \<longleftrightarrow>
     ac_request_id c = vp_request_id v \<and> normalize_namespace (ac_namespace c) = vp_namespace v
     \<and> ac_project c = vp_project v \<and> normalize_task_type (ac_task_type c) = Inr (vp_task_type v)
     \<and> ac_intended_action c = vp_intended_action v \<and> ac_action_risk c = vp_action_risk v
     \<and> ac_require_source_backing c = vp_require_source_backing v
     \<and> ac_subject_agent_id c = vp_subject_agent_id v \<and> vp_authority v = TrustedRuntime
     \<and> vp_attestation_id v = Some (ac_attestation_id c) \<and> vp_expires_at v = Some (ac_expires_at c)"

lemma trusted_verify_accept:
  assumes "trusted_verify e key p agent now = Inr (v, a)"
  obtains q token c where "normalized_purpose p = Inr q"
    "rp_purpose_attestation q = Some token" "decode_signed e (attestation_parse e) token key = Inr c"
    "validate_window (ac_issued_at c) (ac_expires_at c) now = Inr ()" "a = Some c"
    "claims_name_purpose c v" "agent = None \<or> vp_subject_agent_id v = None \<or> agent = vp_subject_agent_id v"
proof -
  from assms obtain q token c task where
    q: "normalized_purpose p = Inr q" "rp_purpose_attestation q = Some token"
      "decode_signed e (attestation_parse e) token key = Inr c"
      "validate_window (ac_issued_at c) (ac_expires_at c) now = Inr ()"
      "normalize_task_type (ac_task_type c) = Inr task"
    and eqs: "ac_request_id c = rp_request_id q" "normalize_namespace (ac_namespace c) = rp_namespace q"
      "ac_project c = rp_project q" "task = rp_task_type q" "ac_intended_action c = rp_intended_action q"
      "ac_action_risk c = rp_action_risk q"
      "ac_require_source_backing c = rp_require_source_backing q"
    and sub: "\<not> (case (agent, ac_subject_agent_id c) of
        (Some transport, Some claim) \<Rightarrow> transport \<noteq> claim | _ \<Rightarrow> False)"
    and a: "a = Some c"
    and v: "v = \<lparr>vp_request_id = rp_request_id q, vp_subject_agent_id = ac_subject_agent_id c,
       vp_namespace = rp_namespace q, vp_project = rp_project q, vp_task_type = rp_task_type q,
       vp_intended_action = rp_intended_action q, vp_action_risk = rp_action_risk q,
       vp_require_source_backing = rp_require_source_backing q, vp_authority = TrustedRuntime,
       vp_attestation_id = Some (ac_attestation_id c), vp_confirmation_receipt_id = None,
       vp_issued_at = ac_issued_at c, vp_expires_at = Some (ac_expires_at c)\<rparr>"
    unfolding trusted_verify_def Let_def try_then_Inr
    by (auto split: if_split_asm simp del: prod.case option.case split del: option.splits)
  have "agent = None \<or> vp_subject_agent_id v = None \<or> agent = vp_subject_agent_id v"
    using sub v by (cases agent; cases "ac_subject_agent_id c") auto
  moreover have "claims_name_purpose c v"
    using q(5) eqs v by (simp add: claims_name_purpose_def)
  ultimately show thesis using that q(1-4) a by blast
qed

text \<open>Mint, with its checks passed.\<close>

lemma mint_confirmation_ok:
  assumes "mint_confirmation_token x e rid nid p key issuer actor m t0 t1 = Inr token"
  obtains v where "local_operator_purpose p actor t0 = Inr v" "validate_window t0 t1 t0 = Inr ()"
    "token = encode_signed e (confirmation_bytes e \<lparr>cc_receipt_id = rid, cc_issuer = issuer,
       cc_confirming_actor = actor, cc_request_id = vp_request_id v, cc_purpose_hash = purpose_hash x v,
       cc_namespace = vp_namespace v, cc_project = vp_project v, cc_task_type = vp_task_type v,
       cc_intended_action = vp_intended_action v, cc_maximum_authorized_risk = m, cc_issued_at = t0,
       cc_expires_at = t1, cc_nonce = nid, cc_single_use = True\<rparr>) key"
  using assms that by (auto simp: mint_confirmation_token_def try_conv Let_def split: if_splits)

lemma mint_verifies:
  assumes "token_env_ok e"
    and mint: "mint_confirmation_token x e rid nid p key issuer actor m t0 t1 = Inr token"
    and ver: "advisory_verify p agent t = Inr (v, a) \<or> trusted_verify e k p agent t = Inr (v, a)"
    and "t0 \<le> i64 (now + 30)" and "i64 (now - 30) \<le> t1"
  shows "if rp_action_risk p \<le> m
    then \<exists>c. verify_confirmation x e token key v now = Inr c \<and> cc_receipt_id c = rid
           \<and> cc_nonce c = nid \<and> cc_single_use c \<and> cc_maximum_authorized_risk c = m
    else verify_confirmation x e token key v now = Inl ConfirmationRiskExceeded"
proof -
  from mint obtain w where w: "local_operator_purpose p actor t0 = Inr w"
    and win: "validate_window t0 t1 t0 = Inr ()"
    and tok: "token = encode_signed e (confirmation_bytes e \<lparr>cc_receipt_id = rid, cc_issuer = issuer,
       cc_confirming_actor = actor, cc_request_id = vp_request_id w, cc_purpose_hash = purpose_hash x w,
       cc_namespace = vp_namespace w, cc_project = vp_project w, cc_task_type = vp_task_type w,
       cc_intended_action = vp_intended_action w, cc_maximum_authorized_risk = m, cc_issued_at = t0,
       cc_expires_at = t1, cc_nonce = nid, cc_single_use = True\<rparr>) key" (is "_ = encode_signed _ (confirmation_bytes _ ?c) _")
    by (rule mint_confirmation_ok)
  from ver obtain q where q: "normalized_purpose p = Inr q" and v: "vp_request_id v = rp_request_id q"
    "vp_namespace v = rp_namespace q" "vp_project v = rp_project q" "vp_task_type v = rp_task_type q"
    "vp_intended_action v = rp_intended_action q" "vp_action_risk v = rp_action_risk q"
    "vp_require_source_backing v = rp_require_source_backing q"
    by (rule verifier_scope)
  from w q v have sc: "same_scope w v" by (auto elim!: local_operator_scope simp: same_scope_def)
  have dec: "decode_signed e (confirmation_parse e) token key = Inr ?c"
    unfolding tok using assms(1) by (intro decode_signed_encode) (simp_all add: token_env_ok_def)
  have now: "validate_window t0 t1 now = Inr ()"
    using win assms(4,5) unfolding validate_window_ok by (simp add: CLOCK_SKEW_SECONDS_def)
  show ?thesis
    using sc q v normalized_purpose_task [OF q] normalized_purpose_namespace [OF q]
      normalized_purpose_risk [OF q] purpose_hash_cong [OF sc, of x]
    by (auto simp: verify_confirmation_def dec now same_scope_def)
qed

section \<open>A concrete environment\<close>

text \<open>A token environment that satisfies \<open>token_env_ok\<close>: bytes print as characters above the full
  stop, claims serialise through a numbering of their fields. Its MAC is the key itself.\<close>

instance action_risk :: countable
  by countable_datatype

definition att_tuple where
  "att_tuple c = (ac_attestation_id c, ac_issuer c, ac_subject_agent_id c, ac_request_id c,
     ac_namespace c, ac_project c, ac_task_type c, ac_intended_action c, ac_action_risk c,
     ac_require_source_backing c, ac_issued_at c, ac_expires_at c, ac_nonce c)"

definition conf_tuple where
  "conf_tuple c = (cc_receipt_id c, cc_issuer c, cc_confirming_actor c, cc_request_id c,
     cc_purpose_hash c, cc_namespace c, cc_project c, cc_task_type c, cc_intended_action c,
     cc_maximum_authorized_risk c, cc_issued_at c, cc_expires_at c, cc_nonce c, cc_single_use c)"

definition demo_env :: token_env where
  "demo_env = \<lparr>
     hmac_sha256 = (\<lambda>k m. k),
     b64_encode = map (\<lambda>b. 100 + unat b),
     b64_decode = (\<lambda>s. Some (map (\<lambda>c. of_nat (c - 100)) s)),
     attestation_bytes = (\<lambda>c. replicate (to_nat (att_tuple c)) 0),
     attestation_parse = (\<lambda>bs. case from_nat (length bs) of
       (a, b, c, d, e, f, g, h, i, j, k, l, m) \<Rightarrow> Some \<lparr>ac_attestation_id = a, ac_issuer = b,
         ac_subject_agent_id = c, ac_request_id = d, ac_namespace = e, ac_project = f,
         ac_task_type = g, ac_intended_action = h, ac_action_risk = i,
         ac_require_source_backing = j, ac_issued_at = k, ac_expires_at = l, ac_nonce = m\<rparr>),
     confirmation_bytes = (\<lambda>c. replicate (to_nat (conf_tuple c)) 0),
     confirmation_parse = (\<lambda>bs. case from_nat (length bs) of
       (a, b, c, d, e, f, g, h, i, j, k, l, m, n) \<Rightarrow> Some \<lparr>cc_receipt_id = a, cc_issuer = b,
         cc_confirming_actor = c, cc_request_id = d, cc_purpose_hash = e, cc_namespace = f,
         cc_project = g, cc_task_type = h, cc_intended_action = i, cc_maximum_authorized_risk = j,
         cc_issued_at = k, cc_expires_at = l, cc_nonce = m, cc_single_use = n\<rparr>)\<rparr>"

lemma demo_env_ok: "token_env_ok demo_env"
  unfolding token_env_ok_def
proof (intro conjI allI)
  fix bs show "b64_decode demo_env (b64_encode demo_env bs) = Some bs"
    by (simp add: demo_env_def comp_def)
next
  fix bs show "46 \<notin> set (b64_encode demo_env bs)" by (auto simp: demo_env_def)
next
  fix c show "attestation_parse demo_env (attestation_bytes demo_env c) = Some c"
    by (simp add: demo_env_def att_tuple_def)
next
  fix c show "confirmation_parse demo_env (confirmation_bytes demo_env c) = Some c"
    by (simp add: demo_env_def conf_tuple_def)
qed

definition demo_ext :: externals where
  "demo_ext = \<lparr>sha256 = id, json_text = (\<lambda>_. lit ''j''), parse_str_list = (\<lambda>_. Inr [])\<rparr>"

definition demo_purpose :: recall_purpose where
  "demo_purpose = \<lparr>rp_request_id = lit ''r1'', rp_namespace = lit '' team a'', rp_project = lit ''/p'',
     rp_task_type = lit ''Code-Review'', rp_intended_action = Some (lit ''merge''),
     rp_action_risk = RiskLow, rp_require_source_backing = False,
     rp_purpose_attestation = None, rp_confirmation_receipt = None\<rparr>"

definition demo_key :: "byte list" where "demo_key = replicate 32 7"

lemma demo_namespace: "normalize_namespace (lit '' team a'') = lit ''team_a''"
  by (simp add: normalize_namespace_def rust_str)

lemma demo_task: "normalize_task_type (lit ''Code-Review'') = Inr (lit ''code_review'')"
  by (simp add: normalize_task_type_def rust_str MAX_TASK_TYPE_BYTES_def char_len_def pop_trailing_def)

lemma demo_normalized:
  "normalized_purpose (demo_purpose\<lparr>rp_purpose_attestation := t\<rparr>) = Inr (demo_purpose\<lparr>
     rp_namespace := lit ''team_a'', rp_task_type := lit ''code_review'',
     rp_purpose_attestation := t\<rparr>)"
  by (simp add: normalized_purpose_def demo_purpose_def demo_namespace demo_task,
      simp add: validate_field_def rust_str char_len_def MAX_FIELD_BYTES_def)

lemma demo_normalized_plain:
  "normalized_purpose demo_purpose = Inr (demo_purpose\<lparr>rp_namespace := lit ''team_a'',
     rp_task_type := lit ''code_review''\<rparr>)"
  using demo_normalized [of None] by (simp add: demo_purpose_def)

definition demo_token :: str where
  "demo_token = (case mint_confirmation_token demo_ext demo_env (lit ''u1'') (lit ''u2'') demo_purpose
     demo_key (lit ''op'') (lit ''alice'') RiskMedium 100 200 of Inr t \<Rightarrow> t | Inl _ \<Rightarrow> [])"

definition demo_verified :: verified_purpose where
  "demo_verified = (case advisory_verify demo_purpose None 120 of Inr (v, _) \<Rightarrow> v | Inl _ \<Rightarrow> undefined)"

lemma demo_mint:
  "mint_confirmation_token demo_ext demo_env (lit ''u1'') (lit ''u2'') demo_purpose
     demo_key (lit ''op'') (lit ''alice'') RiskMedium 100 200 = Inr demo_token"
proof -
  have "validate_field (lit ''issuer'') (lit ''op'') = Inr ()" by code_simp
  moreover have "validate_field (lit ''confirming_actor'') (lit ''alice'') = Inr ()" by code_simp
  moreover have "validate_window 100 200 100 = Inr ()" by code_simp
  moreover have "length demo_key = 32" by (simp add: demo_key_def)
  ultimately show ?thesis
    by (simp add: demo_token_def mint_confirmation_token_def local_operator_purpose_def
        demo_normalized_plain Let_def)
qed

lemma demo_advisory: "advisory_verify demo_purpose None 120 = Inr (demo_verified, None)"
  by (simp add: demo_verified_def advisory_verify_def demo_normalized_plain)

lemma demo_confirmed:
  "\<exists>c. verify_confirmation demo_ext demo_env demo_token demo_key demo_verified 150 = Inr c"
  using mint_verifies [OF demo_env_ok demo_mint disjI1 [OF demo_advisory], of 150]
  by (auto simp: i64_def demo_purpose_def risk_order)

definition demo_claims :: attestation_claims where
  "demo_claims = \<lparr>ac_attestation_id = lit ''at1'', ac_issuer = lit ''rt'', ac_subject_agent_id = None,
     ac_request_id = lit ''r1'', ac_namespace = lit ''team_a'', ac_project = lit ''/p'',
     ac_task_type = lit ''Code-Review'', ac_intended_action = Some (lit ''merge''),
     ac_action_risk = RiskLow, ac_require_source_backing = False, ac_issued_at = 100,
     ac_expires_at = 200, ac_nonce = lit ''n1''\<rparr>"

definition demo_attested :: recall_purpose where
  "demo_attested = demo_purpose\<lparr>rp_purpose_attestation :=
     Some (encode_signed demo_env (attestation_bytes demo_env demo_claims) demo_key)\<rparr>"

lemma demo_trusted: "\<exists>v. trusted_verify demo_env demo_key demo_attested None 150 = Inr (v, Some demo_claims)"
proof -
  let ?tok = "encode_signed demo_env (attestation_bytes demo_env demo_claims) demo_key"
  have d: "decode_signed demo_env (attestation_parse demo_env) ?tok demo_key = Inr demo_claims"
    by (rule decode_signed_encode [OF demo_env_ok]) (use demo_env_ok in \<open>simp add: token_env_ok_def\<close>)
  have w: "validate_window 100 200 150 = Inr ()" by (simp add: validate_window_ok CLOCK_SKEW_SECONDS_def i64_def)
  have n: "normalize_namespace (lit ''team_a'') = lit ''team_a''"
    by (simp add: normalize_namespace_def rust_str)
  have "ac_issued_at demo_claims = 100" "ac_expires_at demo_claims = 200"
    "ac_task_type demo_claims = lit ''Code-Review''" "ac_namespace demo_claims = lit ''team_a''"
    "ac_subject_agent_id demo_claims = None"
    by (simp_all add: demo_claims_def)
  moreover have "ac_request_id demo_claims = rp_request_id demo_purpose"
    "ac_project demo_claims = rp_project demo_purpose"
    "ac_intended_action demo_claims = rp_intended_action demo_purpose"
    "ac_action_risk demo_claims = rp_action_risk demo_purpose"
    "ac_require_source_backing demo_claims = rp_require_source_backing demo_purpose"
    by (simp_all add: demo_claims_def demo_purpose_def)
  ultimately show ?thesis
    unfolding demo_attested_def trusted_verify_def demo_normalized by (simp add: d w n demo_task)
qed

section \<open>Properties\<close>

text \<open>C1: A confirmation token minted for a purpose verifies against that purpose, by whichever
  verifier the purpose itself was checked, at every instant of its window (with the clock skew), and
  gives back the receipt, the single-use nonce and the authorised risk; it is refused exactly
  when the purpose's action risk exceeds the authorised one.\<close>

theorem confirmation_round_trip:
  assumes "token_env_ok e"
    and mint: "mint_confirmation_token x e rid nid p key issuer actor m t0 t1 = Inr token"
    and ver: "advisory_verify p agent t = Inr (v, a) \<or> trusted_verify e k p agent t = Inr (v, a)"
    and "t0 \<le> i64 (now + 30)" and "i64 (now - 30) \<le> t1"
  shows "if rp_action_risk p \<le> m
    then \<exists>c. verify_confirmation x e token key v now = Inr c \<and> cc_receipt_id c = rid
           \<and> cc_nonce c = nid \<and> cc_single_use c \<and> cc_maximum_authorized_risk c = m
    else verify_confirmation x e token key v now = Inl ConfirmationRiskExceeded"
  by (rule mint_verifies [OF assms])

theorem confirmation_round_trip_witness:
  "\<exists>c. verify_confirmation demo_ext demo_env demo_token demo_key demo_verified 150 = Inr c
     \<and> cc_nonce c = lit ''u2'' \<and> cc_single_use c"
  using confirmation_round_trip [OF demo_env_ok demo_mint disjI1 [OF demo_advisory], of 150]
  by (auto simp: i64_def demo_purpose_def risk_order)



text \<open>C3: A confirmation is only accepted with a MAC of exactly its version and payload under the
  verifier's key, inside its validity window, and for a risk it authorises.\<close>

theorem confirmation_authentic:
  assumes "verify_confirmation x e token key p now = Inr c"
  shows "(\<exists>payload signature bytes. token = TOKEN_VERSION @ [46] @ payload @ [46] @ signature
      \<and> b64_decode e signature = Some (hmac_sha256 e key (as_bytes (TOKEN_VERSION @ [46] @ payload)))
      \<and> b64_decode e payload = Some bytes \<and> confirmation_parse e bytes = Some c)
    \<and> cc_issued_at c < cc_expires_at c \<and> cc_issued_at c \<le> i64 (now + 30)
    \<and> i64 (now - 30) \<le> cc_expires_at c \<and> vp_action_risk p \<le> cc_maximum_authorized_risk c"
proof -
  note v = verify_confirmation_decode [OF assms]
  from decode_signed_sound [OF v(1)] obtain payload signature bytes where
    "token = TOKEN_VERSION @ [46] @ payload @ [46] @ signature"
    "b64_decode e signature = Some (hmac_sha256 e key (as_bytes (TOKEN_VERSION @ [46] @ payload)))"
    "b64_decode e payload = Some bytes" "confirmation_parse e bytes = Some c" .
  then show ?thesis
    using v(2,5) unfolding validate_window_ok CLOCK_SKEW_SECONDS_def by blast
qed

theorem confirmation_authentic_witness:
  "\<exists>c. verify_confirmation demo_ext demo_env demo_token demo_key demo_verified 150 = Inr c
     \<and> vp_action_risk demo_verified \<le> cc_maximum_authorized_risk c"
  using demo_confirmed confirmation_authentic by blast

text \<open>C4: A purpose carries the trusted-runtime authority only with an attestation whose MAC
  verifies, that is in its window, and whose claims are those of the normalised purpose; an
  authenticated agent must be the one the claims name, when they name one.\<close>

theorem trusted_purpose_sound:
  assumes "trusted_verify e key p agent now = Inr (v, a)"
  shows "\<exists>q payload signature bytes c. normalized_purpose p = Inr q \<and> a = Some c
    \<and> rp_purpose_attestation q = Some (TOKEN_VERSION @ [46] @ payload @ [46] @ signature)
    \<and> b64_decode e signature = Some (hmac_sha256 e key (as_bytes (TOKEN_VERSION @ [46] @ payload)))
    \<and> b64_decode e payload = Some bytes \<and> attestation_parse e bytes = Some c
    \<and> ac_issued_at c < ac_expires_at c \<and> ac_issued_at c \<le> i64 (now + 30)
    \<and> i64 (now - 30) \<le> ac_expires_at c
    \<and> claims_name_purpose c v \<and> (agent = None \<or> vp_subject_agent_id v = None \<or> agent = vp_subject_agent_id v)"
proof -
  from trusted_verify_accept [OF assms] obtain q token c where q: "normalized_purpose p = Inr q"
    "rp_purpose_attestation q = Some token" "decode_signed e (attestation_parse e) token key = Inr c"
    "validate_window (ac_issued_at c) (ac_expires_at c) now = Inr ()" "a = Some c"
    "claims_name_purpose c v" "agent = None \<or> vp_subject_agent_id v = None \<or> agent = vp_subject_agent_id v" .
  from decode_signed_sound [OF q(3)] obtain payload signature bytes where
    "token = TOKEN_VERSION @ [46] @ payload @ [46] @ signature"
    "b64_decode e signature = Some (hmac_sha256 e key (as_bytes (TOKEN_VERSION @ [46] @ payload)))"
    "b64_decode e payload = Some bytes" "attestation_parse e bytes = Some c" .
  with q show ?thesis
    unfolding validate_window_ok CLOCK_SKEW_SECONDS_def by blast
qed


theorem trusted_purpose_sound_witness:
  "\<exists>v. trusted_verify demo_env demo_key demo_attested None 150 = Inr (v, Some demo_claims)
     \<and> claims_name_purpose demo_claims v"
  using demo_trusted trusted_purpose_sound by (metis option.inject)

end
