(* ===== verification/Table.thy ===== *)
theory Table
  imports Rust_Prelude
begin

text \<open>
  SQL tables as lists of rows in insertion order, with the statements the program runs on them:
  \<open>SELECT .. WHERE key = k\<close> (\<open>t_get\<close>), \<open>UPDATE .. WHERE\<close> (\<open>t_update\<close>), \<open>INSERT .. ON CONFLICT DO
  UPDATE\<close> (\<open>t_upsert\<close>), \<open>INSERT .. ON CONFLICT DO NOTHING\<close> (\<open>t_insert_new\<close>) and \<open>DELETE .. WHERE\<close>
  (\<open>t_delete\<close>), and their laws. A primary key is an injectivity invariant, \<open>t_keyed\<close>.

  \<open>versioned_store\<close> is the interface of optimistic concurrency control that the policy and
  contradiction tables provide; \<open>claim_once\<close> the interface of a table used as a set of claims.
\<close>

section \<open>Statements\<close>

definition t_get :: "('r \<Rightarrow> 'k) \<Rightarrow> 'k \<Rightarrow> 'r list \<Rightarrow> 'r option" where
  "t_get key k rows = find (\<lambda>r. key r = k) rows"

definition t_update :: "('r \<Rightarrow> bool) \<Rightarrow> ('r \<Rightarrow> 'r) \<Rightarrow> 'r list \<Rightarrow> 'r list" where
  "t_update p f rows = map (\<lambda>r. if p r then f r else r) rows"

definition t_upsert :: "('r \<Rightarrow> 'k) \<Rightarrow> 'r \<Rightarrow> ('r \<Rightarrow> 'r) \<Rightarrow> 'r list \<Rightarrow> 'r list" where
  "t_upsert key new upd rows =
     (case t_get key (key new) rows of
        None \<Rightarrow> rows @ [new]
      | Some _ \<Rightarrow> t_update (\<lambda>r. key r = key new) upd rows)"

definition t_insert_new :: "('r \<Rightarrow> 'k) \<Rightarrow> 'r \<Rightarrow> 'r list \<Rightarrow> 'r list" where
  "t_insert_new key new rows =
     (case t_get key (key new) rows of None \<Rightarrow> rows @ [new] | Some _ \<Rightarrow> rows)"

definition t_delete :: "('r \<Rightarrow> bool) \<Rightarrow> 'r list \<Rightarrow> 'r list" where
  "t_delete p rows = filter (\<lambda>r. \<not> p r) rows"

definition t_keyed :: "('r \<Rightarrow> 'k) \<Rightarrow> 'r list \<Rightarrow> bool" where
  "t_keyed key rows \<longleftrightarrow> distinct (map key rows)"

lemmas table_defs = t_get_def t_update_def t_upsert_def t_insert_new_def t_delete_def

section \<open>Laws\<close>

lemma t_get_Nil [simp]: "t_get key k [] = None"
  by (simp add: t_get_def)

lemma t_get_Cons: "t_get key k (r # rs) = (if key r = k then Some r else t_get key k rs)"
  by (simp add: t_get_def)

lemma t_get_append:
  "t_get key k (xs @ ys) = (case t_get key k xs of None \<Rightarrow> t_get key k ys | Some r \<Rightarrow> Some r)"
  by (induction xs) (auto simp: t_get_Cons)

lemma t_get_None: "t_get key k rows = None \<longleftrightarrow> k \<notin> key ` set rows"
  by (auto simp: t_get_def find_None_iff)

lemma t_get_SomeD: "t_get key k rows = Some r \<Longrightarrow> r \<in> set rows \<and> key r = k"
  by (induction rows) (auto simp: t_get_Cons split: if_splits)

lemma t_get_in: "t_keyed key rows \<Longrightarrow> r \<in> set rows \<Longrightarrow> t_get key (key r) rows = Some r"
  by (induction rows) (auto simp: t_get_Cons t_keyed_def image_iff)

lemma t_get_update:
  assumes "\<And>r. key r = k' \<Longrightarrow> key (f r) = k'"
  shows "t_get key k (t_update (\<lambda>r. key r = k') f rows) =
    (if k = k' then map_option f (t_get key k rows) else t_get key k rows)"
  using assms by (induction rows) (auto simp: t_get_Cons t_update_def)

lemma t_get_upsert:
  assumes "\<And>r. key r = key new \<Longrightarrow> key (upd r) = key new"
  shows "t_get key k (t_upsert key new upd rows) =
    (if k = key new then Some (case t_get key k rows of None \<Rightarrow> new | Some r \<Rightarrow> upd r)
     else t_get key k rows)"
  using assms by (auto simp: t_upsert_def t_get_update t_get_append t_get_Cons split: option.split)

lemma t_get_insert_new:
  "t_get key k (t_insert_new key new rows) =
    (if k = key new \<and> t_get key k rows = None then Some new else t_get key k rows)"
  by (auto simp: t_insert_new_def t_get_append t_get_Cons split: option.split)

lemma t_get_delete:
  "t_keyed key rows \<Longrightarrow> t_get key k (t_delete p rows) =
    (case t_get key k rows of Some r \<Rightarrow> if p r then None else Some r | None \<Rightarrow> None)"
  by (induction rows)
     (auto simp: t_get_Cons t_delete_def t_keyed_def t_get_None split: option.split dest!: t_get_SomeD)

lemma t_keyed_Nil [simp]: "t_keyed key []"
  by (simp add: t_keyed_def)

lemma t_keyed_snoc: "t_keyed key (rows @ [r]) \<longleftrightarrow> t_keyed key rows \<and> t_get key (key r) rows = None"
  by (auto simp: t_keyed_def t_get_None)

lemma map_key_update:
  "(\<And>r. p r \<Longrightarrow> key (f r) = key r) \<Longrightarrow> map key (t_update p f rows) = map key rows"
  by (simp add: t_update_def)

lemma t_keyed_update:
  "(\<And>r. p r \<Longrightarrow> key (f r) = key r) \<Longrightarrow> t_keyed key (t_update p f rows) = t_keyed key rows"
  by (simp add: t_keyed_def map_key_update)

lemma t_keyed_upsert:
  "(\<And>r. key r = key new \<Longrightarrow> key (upd r) = key new) \<Longrightarrow> t_keyed key rows
     \<Longrightarrow> t_keyed key (t_upsert key new upd rows)"
  using map_key_update [of "\<lambda>r. key r = key new" key upd rows]
  by (cases "t_get key (key new) rows") (simp_all add: t_upsert_def t_keyed_snoc, simp add: t_keyed_def)

lemma t_keyed_insert_new: "t_keyed key rows \<Longrightarrow> t_keyed key (t_insert_new key new rows)"
  by (simp add: t_insert_new_def t_keyed_snoc split: option.split)

lemma t_keyed_delete: "t_keyed key rows \<Longrightarrow> t_keyed key (t_delete p rows)"
  by (simp add: t_keyed_def t_delete_def distinct_map_filter)

lemma t_update_id [simp]: "t_update p (\<lambda>r. r) rows = rows"
  by (simp add: t_update_def)

section \<open>Optimistic concurrency control\<close>

text \<open>\<open>ver s\<close> is the version of the record a client reads; \<open>update e c s\<close> is a request \<open>c\<close> made by a
  client that saw version \<open>e\<close>. It must fail when the version moved (or the record is gone), and
  otherwise leave the next version.\<close>

locale versioned_store =
  fixes ver :: "'s \<Rightarrow> nat option"
    and update :: "nat \<Rightarrow> 'c \<Rightarrow> 's \<Rightarrow> 'e + 's \<times> 'r"
  assumes update_stale: "ver s \<noteq> Some e \<Longrightarrow> \<exists>er. update e c s = Inl er"
    and update_bumps: "update e c s = Inr (s', r) \<Longrightarrow> ver s' = Some (Suc e)"
begin

lemma update_expected: "update e c s = Inr (s', r) \<Longrightarrow> ver s = Some e"
  using update_stale [of s e c] by fastforce

lemma update_repeated: "update e c s = Inr (s', r) \<Longrightarrow> \<exists>er. update e d s' = Inl er"
  using update_bumps [of e c s s' r] update_stale [of s' e d] by simp

text \<open>A queue of requests, each with the version its client saw, run in order; a refused request
  leaves the store as it was. The second component is the list of accepted expectations.\<close>

fun run :: "(nat \<times> 'c) list \<Rightarrow> 's \<Rightarrow> 's \<times> nat list" where
  "run [] s = (s, [])"
| "run ((e, c) # q) s =
     (case update e c s of
        Inl _ \<Rightarrow> run q s
      | Inr (s', _) \<Rightarrow> (case run q s' of (s'', es) \<Rightarrow> (s'', e # es)))"

lemma run_versions:
  assumes "ver s = Some v" and "run q s = (s', es)"
  shows "\<exists>v'. ver s' = Some v' \<and> es = [v..<v'] \<and> v \<le> v'"
  using assms
proof (induction q arbitrary: s v es)
  case (Cons ec q)
  obtain e c where ec: "ec = (e, c)" by (cases ec)
  show ?case
  proof (cases "update e c s")
    case (Inl er)
    with Cons ec show ?thesis by simp
  next
    case (Inr sr)
    obtain s1 r1 where sr: "sr = (s1, r1)" by (cases sr)
    with Inr have v: "ver s1 = Some (Suc v)" "v = e"
      using update_bumps update_expected [of e c s s1 r1] Cons.prems(1) by auto
    obtain s2 es' where run: "run q s1 = (s2, es')" by (cases "run q s1")
    with Inr sr ec Cons.prems have s2: "s2 = s'" and es: "es = e # es'" by auto
    from Cons.IH [OF v(1) run [unfolded s2]] v es show ?thesis by (auto simp: upt_conv_Cons)
  qed
qed auto

text \<open>No update is lost: however the requests interleave, at most one request made against any
  given version is accepted.\<close>

lemma run_no_lost_update: "ver s = Some v \<Longrightarrow> run q s = (s', es) \<Longrightarrow> distinct es"
  using run_versions by fastforce

end

section \<open>Insert-once claims\<close>

text \<open>A table that records claims, each under a key, against which a claim on a held key fails.
  \<open>valid\<close> delimits the claims in question, those whose rows no other valid claim expires.\<close>

locale claim_once =
  fixes held :: "'s \<Rightarrow> 'k \<Rightarrow> bool" and key :: "'c \<Rightarrow> 'k" and valid :: "'c \<Rightarrow> bool"
    and claim :: "'c \<Rightarrow> 's \<Rightarrow> 's \<times> ('e + 'r)"
  assumes claim_held: "valid c \<Longrightarrow> held s (key c) \<Longrightarrow> \<exists>s' e. claim c s = (s', Inl e)"
    and claim_takes: "valid c \<Longrightarrow> claim c s = (s', Inr r) \<Longrightarrow> held s' (key c)"
    and claim_keeps: "valid c \<Longrightarrow> claim c s = (s', x) \<Longrightarrow> held s j \<Longrightarrow> held s' j"
begin

text \<open>Attempts in the order in which they reach the table, and the keys of the accepted ones.\<close>

fun attempts :: "'c list \<Rightarrow> 's \<Rightarrow> 's \<times> 'k list" where
  "attempts [] s = (s, [])"
| "attempts (c # cs) s =
     (case claim c s of
        (s', Inl _) \<Rightarrow> attempts cs s'
      | (s', Inr _) \<Rightarrow> (case attempts cs s' of (s'', ks) \<Rightarrow> (s'', key c # ks)))"

lemma attempts_held:
  "\<forall>c \<in> set cs. valid c \<Longrightarrow> attempts cs s = (s', ks) \<Longrightarrow> held s k \<Longrightarrow> k \<notin> set ks \<and> held s' k"
proof (induction cs arbitrary: s ks)
  case (Cons c cs)
  obtain s1 x where c: "claim c s = (s1, x)" by (cases "claim c s")
  have k1: "held s1 k" using claim_keeps [OF _ c] Cons.prems by simp
  show ?case
  proof (cases x)
    case (Inl e)
    with Cons c k1 show ?thesis by simp
  next
    case (Inr r)
    obtain ks' where a: "attempts cs s1 = (s', ks')" using Cons.prems c Inr by (auto split: prod.splits)
    have "key c \<noteq> k" using claim_held [of c s] Cons.prems c Inr by fastforce
    with Cons.IH [OF _ a k1] Cons.prems c Inr a show ?thesis by auto
  qed
qed simp

text \<open>However the attempts interleave, every key is accepted at most once.\<close>

lemma attempts_distinct:
  "\<forall>c \<in> set cs. valid c \<Longrightarrow> attempts cs s = (s', ks) \<Longrightarrow> distinct ks"
proof (induction cs arbitrary: s ks)
  case (Cons c cs)
  obtain s1 x where c: "claim c s = (s1, x)" by (cases "claim c s")
  show ?case
  proof (cases x)
    case (Inl e)
    with Cons c show ?thesis by simp
  next
    case (Inr r)
    obtain ks' where a: "attempts cs s1 = (s', ks')" using Cons.prems c Inr by (auto split: prod.splits)
    have "held s1 (key c)" using claim_takes [of c s s1 r] Cons.prems c Inr by simp
    with attempts_held [OF _ a] Cons a c Inr show ?thesis by fastforce
  qed
qed simp

end

end
