(* ===== verification/Store.thy ===== *)
theory Store
  imports Purpose Table
begin

text \<open>
  The state the store components share: one record whose fields are the tables of \<open>src/src/db.rs\<close>
  that they read and write, the error type, transactions, the write triggers that
  \<open>access_mutations.rs\<close> installs, and the invalidation of generated context files
  (\<open>hooks.rs\<close>).

  A row keeps the column types of the schema: labels are strings, counters and identifiers \<open>i64\<close>.
  \<open>memory_meta.importance\<close> (a floating-point ranking weight) is the only column left out.
  The clock, UUIDs and the file system's answers are arguments; the \<open>IRONMEM.md\<close> files are the
  field \<open>s_disk\<close>, a map from projects to contents.
\<close>

section \<open>Errors and transactions\<close>

text \<open>\<open>anyhow::Error\<close>: a downcastable policy or purpose error, a message, or an error of the driver
  (a constraint violation, or a row that a \<open>fetch_one\<close> did not find).\<close>

datatype app_error =
    Policy policy_error
  | Purpose purpose_error
  | Msg str
  | DbConstraint str
  | DbRowNotFound

text \<open>A transaction on a connection either commits a new state with its result or rolls back.\<close>

definition commit :: "('s \<Rightarrow> app_error + 's \<times> 'a) \<Rightarrow> 's \<Rightarrow> 's \<times> (app_error + 'a)" where
  "commit tx s = (case tx s of Inl e \<Rightarrow> (s, Inl e) | Inr (s', r) \<Rightarrow> (s', Inr r))"

text \<open>A later step of an operation that is not one transaction: what the earlier steps wrote stays.\<close>

definition and_then ::
  "'s \<times> (app_error + 'a) \<Rightarrow> ('a \<Rightarrow> 's \<Rightarrow> 's \<times> (app_error + 'b)) \<Rightarrow> 's \<times> (app_error + 'b)" where
  "and_then m f = (case m of (s, Inl e) \<Rightarrow> (s, Inl e) | (s, Inr a) \<Rightarrow> f a s)"

lemma and_then_simps [simp]:
  "and_then (s, Inl e) f = (s, Inl e)" "and_then (s, Inr a) f = f a s"
  by (simp_all add: and_then_def)

lemma and_then_Inr:
  "and_then m f = (s', Inr b) \<longleftrightarrow> (\<exists>s a. m = (s, Inr a) \<and> f a s = (s', Inr b))"
  by (cases m; cases "snd m") auto

lemma commit_Inr: "commit tx s = (s', Inr r) \<longleftrightarrow> tx s = Inr (s', r)"
  by (auto simp: commit_def split: sum.splits prod.splits)

lemma commit_Inl: "commit tx s = (s', Inl e) \<longleftrightarrow> tx s = Inl e \<and> s' = s"
  by (auto simp: commit_def split: sum.splits prod.splits)

section \<open>Rows\<close>

record memory =
  mem_id :: int
  mem_project :: str
  mem_session_id :: str
  mem_summary :: str
  mem_tags :: "str option"
  mem_created_at :: int

record meta_row =
  mt_memory_id :: int
  mt_created_at :: int
  mt_scope :: str
  mt_kind :: str
  mt_event_time :: "str option"
  mt_namespace :: str
  mt_source_type :: str
  mt_trust_tier :: str
  mt_writer_identity :: "str option"
  mt_source_ref :: "str option"
  mt_parent_memory_id :: "int option"
  mt_classification :: str
  mt_consent_state :: "str option"
  mt_residency :: "str option"
  mt_retention_policy_id :: "str option"
  mt_expires_at :: "int option"
  mt_legal_hold :: int
  mt_record_hash :: "str option"
  mt_tombstoned_at :: "int option"
  mt_tombstone_reason :: "str option"
  mt_trust_first_seen_at :: "int option"
  mt_evidence_root_id :: "str option"
  mt_derivation_depth :: int
  mt_session_blob :: "str option"

text \<open>A fresh row: the column defaults of the schema.\<close>

definition new_meta_row :: "int \<Rightarrow> int \<Rightarrow> meta_row" where
  "new_meta_row memory_id now = \<lparr>
     mt_memory_id = memory_id, mt_created_at = now, mt_scope = lit ''project'',
     mt_kind = lit ''session'', mt_event_time = None, mt_namespace = DEFAULT_NAMESPACE,
     mt_source_type = lit ''derived'', mt_trust_tier = lit ''medium'', mt_writer_identity = None,
     mt_source_ref = None, mt_parent_memory_id = None, mt_classification = lit ''internal'',
     mt_consent_state = None, mt_residency = None, mt_retention_policy_id = None,
     mt_expires_at = None, mt_legal_hold = 0, mt_record_hash = None, mt_tombstoned_at = None,
     mt_tombstone_reason = None, mt_trust_first_seen_at = None, mt_evidence_root_id = None,
     mt_derivation_depth = 0, mt_session_blob = None\<rparr>"

record root_row =
  er_memory_id :: int
  er_root_id :: str
  er_role :: str
  er_created_at :: int

record policy_row =
  pl_memory_id :: int
  pl_stored :: stored_influence_policy
  pl_updated_by :: "str option"
  pl_updated_at :: int

record set_row =
  cs_id :: str
  cs_namespace :: str
  cs_realm :: str
  cs_project :: "str option"
  cs_claim_key :: str
  cs_claim_schema_version :: int
  cs_cardinality :: str
  cs_preferred_memory_id :: "int option"
  cs_status :: str
  cs_resolution_basis :: "str option"
  cs_resolved_by :: "str option"
  cs_version :: int
  cs_created_at :: int
  cs_updated_at :: int

record member_row =
  cm_set_id :: str
  cm_memory_id :: int
  cm_stance :: str
  cm_created_at :: int

record nonce_row =
  nn_token_kind :: str
  nn_issuer :: str
  nn_nonce :: str
  nn_request_id :: str
  nn_expires_at :: int
  nn_consumed_at :: int

record ledger_entry =
  le_id :: int
  le_namespace :: str
  le_memory_id :: "int option"
  le_op_type :: str
  le_actor :: "str option"
  le_prev_hash :: "str option"
  le_entry_hash :: str
  le_payload :: str
  le_created_at :: int

record ledger_epoch =
  ep_namespace :: str
  ep_epoch :: int
  ep_start_entry_id :: int
  ep_start_entry_hash :: str
  ep_evidence_sha256 :: str
  ep_prior_entry_count :: int
  ep_created_at :: int

record event_row =
  ev_id :: str
  ev_decision_id :: str
  ev_request_id :: str
  ev_memory_id :: int
  ev_project :: str
  ev_namespace :: str
  ev_agent_id :: "str option"
  ev_purpose_authority :: str
  ev_attestation_id :: "str option"
  ev_confirmation_receipt_id :: "str option"
  ev_task_type :: str
  ev_intended_action_hash :: "str option"
  ev_action_risk :: str
  ev_decision :: str
  ev_reason_codes :: str
  ev_policy_version :: int
  ev_evaluator_version :: str
  ev_config_hash :: str
  ev_purpose_hash :: str
  ev_query_hash :: "str option"
  ev_memory_record_hash :: "str option"
  ev_created_at :: int

record mutation_row =
  mu_memory_id :: int
  mu_observed_since :: int
  mu_count :: int

record access_row =
  ac_memory_id :: int
  ac_observed_since :: int
  ac_recall_count :: int
  ac_last_recalled_at :: "int option"
  ac_expansion_count :: int
  ac_last_expanded_at :: "int option"

record receipt_row =
  rc_operation_hash :: str
  rc_kind :: str
  rc_memory_id :: int
  rc_created_at :: int

record context_file_row =
  cf_project :: str
  cf_content_hash :: str
  cf_dirty :: int

record store =
  s_memories :: "memory list"
  s_highwater :: int
  s_meta :: "meta_row list"
  s_roots :: "root_row list"
  s_policies :: "policy_row list"
  s_sets :: "set_row list"
  s_members :: "member_row list"
  s_nonces :: "nonce_row list"
  s_events :: "event_row list"
  s_ledger :: "ledger_entry list"
  s_epochs :: "ledger_epoch list"
  s_mutations :: "mutation_row list"
  s_access :: "access_row list"
  s_receipts :: "receipt_row list"
  s_revision :: int
  s_context_files :: "context_file_row list"
  s_disk :: "str \<Rightarrow> byte list option"

definition empty_store :: store where
  "empty_store = \<lparr>s_memories = [], s_highwater = 0, s_meta = [], s_roots = [], s_policies = [],
     s_sets = [], s_members = [], s_nonces = [], s_events = [], s_ledger = [], s_epochs = [],
     s_mutations = [], s_access = [], s_receipts = [], s_revision = 0, s_context_files = [],
     s_disk = (\<lambda>_. None)\<rparr>"

definition get_memory :: "store \<Rightarrow> int \<Rightarrow> memory option" where
  "get_memory st memory_id = t_get mem_id memory_id (s_memories st)"

definition get_meta :: "store \<Rightarrow> int \<Rightarrow> meta_row option" where
  "get_meta st memory_id = t_get mt_memory_id memory_id (s_meta st)"

section \<open>Write triggers\<close>

text \<open>The body of the triggers on \<open>memory_meta\<close>, \<open>memory_influence_policy\<close>,
  \<open>memory_evidence_roots\<close> and \<open>contradiction_members\<close>: count the mutation (when the memory has a
  metadata row), mark every generated context file dirty, advance the context revision.\<close>

definition mark_context_changed :: "store \<Rightarrow> store" where
  "mark_context_changed st = st\<lparr>
     s_context_files := t_update (\<lambda>_. True) (\<lambda>r. r\<lparr>cf_dirty := cf_dirty r + 1\<rparr>) (s_context_files st),
     s_revision := s_revision st + 1\<rparr>"

definition count_mutation :: "int \<Rightarrow> int \<Rightarrow> store \<Rightarrow> store" where
  "count_mutation now memory_id st =
     (case get_meta st memory_id of
        None \<Rightarrow> st
      | Some _ \<Rightarrow> st\<lparr>s_mutations := t_upsert mu_memory_id
          \<lparr>mu_memory_id = memory_id, mu_observed_since = now, mu_count = 1\<rparr>
          (\<lambda>r. r\<lparr>mu_count := mu_count r + 1\<rparr>) (s_mutations st)\<rparr>)"

definition touch :: "int \<Rightarrow> int \<Rightarrow> store \<Rightarrow> store" where
  "touch now memory_id st = mark_context_changed (count_mutation now memory_id st)"

text \<open>An insert into \<open>memory_meta\<close> also opens the observation window of the memory.\<close>

definition open_access_window :: "int \<Rightarrow> int \<Rightarrow> store \<Rightarrow> store" where
  "open_access_window now memory_id st = st\<lparr>s_access := t_insert_new ac_memory_id
     \<lparr>ac_memory_id = memory_id, ac_observed_since = now, ac_recall_count = 0,
      ac_last_recalled_at = None, ac_expansion_count = 0, ac_last_expanded_at = None\<rparr> (s_access st)\<rparr>"

text \<open>An update of \<open>contradiction_sets\<close> counts for every member of the set.\<close>

definition touch_set :: "str \<Rightarrow> store \<Rightarrow> store" where
  "touch_set set_id st = mark_context_changed (st\<lparr>s_mutations :=
     t_update (\<lambda>r. \<exists>m \<in> set (s_members st). cm_set_id m = set_id \<and> cm_memory_id m = mu_memory_id r)
       (\<lambda>r. r\<lparr>mu_count := mu_count r + 1\<rparr>) (s_mutations st)\<rparr>)"

text \<open>Inserting and updating \<open>memory_meta\<close>, with the triggers.\<close>

definition upsert_meta :: "int \<Rightarrow> meta_row \<Rightarrow> (meta_row \<Rightarrow> meta_row) \<Rightarrow> store \<Rightarrow> store" where
  "upsert_meta now new upd st =
     (let st' = st\<lparr>s_meta := t_upsert mt_memory_id new upd (s_meta st)\<rparr> in
      touch now (mt_memory_id new)
        (case get_meta st (mt_memory_id new) of
           None \<Rightarrow> open_access_window now (mt_memory_id new) st'
         | Some _ \<Rightarrow> st'))"

definition update_meta :: "int \<Rightarrow> int \<Rightarrow> (meta_row \<Rightarrow> meta_row) \<Rightarrow> store \<Rightarrow> store" where
  "update_meta now memory_id upd st =
     (case get_meta st memory_id of
        None \<Rightarrow> st
      | Some _ \<Rightarrow> touch now memory_id
          (st\<lparr>s_meta := t_update (\<lambda>r. mt_memory_id r = memory_id) upd (s_meta st)\<rparr>))"

section \<open>Generated context files\<close>

text \<open>\<open>invalidate_generated_files\<close>: every dirty registration is dropped, and its file removed when
  its bytes are still the registered ones. The transaction reads the rows under the write
  lock, so the deletion by \<open>(project, content_hash, dirty)\<close> removes exactly the rows read.
  \<open>None\<close> in \<open>s_disk\<close> is a file that does not exist; I/O errors leave the state as it was and
  are not modelled.\<close>

definition context_file_stale :: "context_file_row \<Rightarrow> bool" where
  "context_file_stale r \<longleftrightarrow> cf_dirty r > 0"

definition remove_unedited ::
  "externals \<Rightarrow> context_file_row \<Rightarrow> (str \<Rightarrow> byte list option) \<Rightarrow> str \<Rightarrow> byte list option" where
  "remove_unedited x r disk =
     (case disk (cf_project r) of
        None \<Rightarrow> disk
      | Some bytes \<Rightarrow>
          if sha256_hex x bytes = cf_content_hash r then disk(cf_project r := None) else disk)"

definition invalidate_generated_files :: "externals \<Rightarrow> store \<Rightarrow> store" where
  "invalidate_generated_files x st =
     (let rows = filter context_file_stale (s_context_files st) in
      if rows = [] then st
      else st\<lparr>
        s_disk := fold (remove_unedited x) rows (s_disk st),
        s_context_files := t_delete (\<lambda>r. \<exists>q \<in> set rows. cf_project r = cf_project q
          \<and> cf_content_hash r = cf_content_hash q \<and> cf_dirty r = cf_dirty q) (s_context_files st)\<rparr>)"

text \<open>Mutating operations end with it, whatever their result.\<close>

definition then_invalidate ::
  "externals \<Rightarrow> store \<times> (app_error + 'a) \<Rightarrow> store \<times> (app_error + 'a)" where
  "then_invalidate x m = (case m of (st, r) \<Rightarrow> (invalidate_generated_files x st, r))"

section \<open>Lemmas\<close>

lemma mark_context_changed_simps [simp]:
  "s_memories (mark_context_changed st) = s_memories st"
  "s_highwater (mark_context_changed st) = s_highwater st"
  "s_meta (mark_context_changed st) = s_meta st" "s_roots (mark_context_changed st) = s_roots st"
  "s_policies (mark_context_changed st) = s_policies st" "s_sets (mark_context_changed st) = s_sets st"
  "s_members (mark_context_changed st) = s_members st" "s_nonces (mark_context_changed st) = s_nonces st"
  "s_events (mark_context_changed st) = s_events st" "s_ledger (mark_context_changed st) = s_ledger st"
  "s_epochs (mark_context_changed st) = s_epochs st"
  "s_mutations (mark_context_changed st) = s_mutations st"
  "s_access (mark_context_changed st) = s_access st" "s_receipts (mark_context_changed st) = s_receipts st"
  "s_disk (mark_context_changed st) = s_disk st"
  "s_revision (mark_context_changed st) = s_revision st + 1"
  by (simp_all add: mark_context_changed_def)

lemma touch_simps [simp]:
  "s_memories (touch now m st) = s_memories st" "s_highwater (touch now m st) = s_highwater st"
  "s_meta (touch now m st) = s_meta st" "s_roots (touch now m st) = s_roots st"
  "s_policies (touch now m st) = s_policies st" "s_sets (touch now m st) = s_sets st"
  "s_members (touch now m st) = s_members st" "s_nonces (touch now m st) = s_nonces st"
  "s_events (touch now m st) = s_events st" "s_ledger (touch now m st) = s_ledger st"
  "s_epochs (touch now m st) = s_epochs st" "s_access (touch now m st) = s_access st"
  "s_receipts (touch now m st) = s_receipts st" "s_disk (touch now m st) = s_disk st"
  "s_revision (touch now m st) = s_revision st + 1"
  by (simp_all add: touch_def count_mutation_def split: option.split)

lemma touch_context_files [simp]:
  "s_context_files (touch now m st) =
     t_update (\<lambda>_. True) (\<lambda>r. r\<lparr>cf_dirty := cf_dirty r + 1\<rparr>) (s_context_files st)"
  by (simp add: touch_def count_mutation_def mark_context_changed_def split: option.split)

lemma touch_set_simps [simp]:
  "s_memories (touch_set c st) = s_memories st"
  "s_meta (touch_set c st) = s_meta st" "s_roots (touch_set c st) = s_roots st"
  "s_policies (touch_set c st) = s_policies st" "s_sets (touch_set c st) = s_sets st"
  "s_members (touch_set c st) = s_members st" "s_nonces (touch_set c st) = s_nonces st"
  "s_events (touch_set c st) = s_events st" "s_ledger (touch_set c st) = s_ledger st"
  "s_epochs (touch_set c st) = s_epochs st" "s_disk (touch_set c st) = s_disk st"
  "s_revision (touch_set c st) = s_revision st + 1"
  by (simp_all add: touch_set_def)

lemma open_access_window_simps [simp]:
  "s_memories (open_access_window now m st) = s_memories st"
  "s_meta (open_access_window now m st) = s_meta st" "s_roots (open_access_window now m st) = s_roots st"
  "s_policies (open_access_window now m st) = s_policies st"
  "s_ledger (open_access_window now m st) = s_ledger st"
  "s_revision (open_access_window now m st) = s_revision st"
  "s_context_files (open_access_window now m st) = s_context_files st"
  "s_disk (open_access_window now m st) = s_disk st"
  by (simp_all add: open_access_window_def)

lemma invalidate_simps [simp]:
  "s_memories (invalidate_generated_files x st) = s_memories st"
  "s_highwater (invalidate_generated_files x st) = s_highwater st"
  "s_meta (invalidate_generated_files x st) = s_meta st"
  "s_roots (invalidate_generated_files x st) = s_roots st"
  "s_policies (invalidate_generated_files x st) = s_policies st"
  "s_sets (invalidate_generated_files x st) = s_sets st"
  "s_members (invalidate_generated_files x st) = s_members st"
  "s_nonces (invalidate_generated_files x st) = s_nonces st"
  "s_events (invalidate_generated_files x st) = s_events st"
  "s_ledger (invalidate_generated_files x st) = s_ledger st"
  "s_epochs (invalidate_generated_files x st) = s_epochs st"
  "s_mutations (invalidate_generated_files x st) = s_mutations st"
  "s_access (invalidate_generated_files x st) = s_access st"
  "s_revision (invalidate_generated_files x st) = s_revision st"
  by (simp_all add: invalidate_generated_files_def Let_def)

lemma get_meta_touch [simp]: "get_meta (touch now m st) i = get_meta st i"
  by (simp add: get_meta_def)

text \<open>After the invalidation no registered file is dirty.\<close>

lemma invalidate_clears:
  "r \<in> set (s_context_files (invalidate_generated_files x st)) \<Longrightarrow> \<not> context_file_stale r"
  by (auto simp: invalidate_generated_files_def Let_def t_delete_def filter_empty_conv split: if_splits)

lemma remove_unedited_cases: "remove_unedited x r disk p = disk p \<or> remove_unedited x r disk p = None"
  by (auto simp: remove_unedited_def split: option.split)

lemma remove_unedited_edited:
  "remove_unedited x r disk (cf_project r) = Some bytes \<Longrightarrow> sha256_hex x bytes \<noteq> cf_content_hash r"
  by (auto simp: remove_unedited_def split: option.splits if_splits)

lemma remove_fold_cases: "fold (remove_unedited x) rows disk p = disk p \<or> fold (remove_unedited x) rows disk p = None"
proof (induction rows arbitrary: disk)
  case (Cons q rows)
  from Cons.IH [of "remove_unedited x q disk"] remove_unedited_cases [of x q disk p]
  show ?case by (elim disjE) simp_all
qed simp

lemma remove_fold_edited:
  "r \<in> set rows \<Longrightarrow> fold (remove_unedited x) rows disk (cf_project r) = Some bytes
     \<Longrightarrow> sha256_hex x bytes \<noteq> cf_content_hash r"
proof (induction rows arbitrary: disk)
  case (Cons q rows)
  show ?case
  proof (cases "r \<in> set rows")
    case False
    with Cons.prems have "r = q" by simp
    with Cons.prems remove_fold_cases [of x rows "remove_unedited x q disk" "cf_project r"]
    have "remove_unedited x r disk (cf_project r) = Some bytes" by auto
    then show ?thesis by (rule remove_unedited_edited)
  qed (use Cons in auto)
qed simp

lemma invalidate_disk_cases:
  "s_disk (invalidate_generated_files x st) p = s_disk st p \<or> s_disk (invalidate_generated_files x st) p = None"
  using remove_fold_cases by (simp add: invalidate_generated_files_def Let_def)

lemma invalidate_disk_edited:
  assumes "r \<in> set (s_context_files st)" and "context_file_stale r"
    and "s_disk (invalidate_generated_files x st) (cf_project r) = Some bytes"
  shows "sha256_hex x bytes \<noteq> cf_content_hash r"
proof -
  let ?rows = "filter context_file_stale (s_context_files st)"
  have r: "r \<in> set ?rows" using assms by simp
  then have "?rows \<noteq> []" by force
  then have "s_disk (invalidate_generated_files x st) = fold (remove_unedited x) ?rows (s_disk st)"
    by (simp add: invalidate_generated_files_def Let_def)
  with assms(3) remove_fold_edited [OF r] show ?thesis by metis
qed

end
