(* ===== verification/Hash_Chain.thy ===== *)
theory Hash_Chain
  imports Rust_Prelude
begin

text \<open>
  Hash-chained logs. An entry names the hash of its predecessor and carries a hash that must
  re-derive from its own fields. \<open>chain_linked\<close> is the check of a walk over such a log; the
  locale \<open>hash_chain\<close> adds the one law of the hash (two entries with the same derived hash agree in
  what was hashed, or the digest is broken) and shows what a successful walk establishes.
\<close>

fun chain_linked ::
  "('e \<Rightarrow> 'h option) \<Rightarrow> ('e \<Rightarrow> 'h) \<Rightarrow> ('e \<Rightarrow> 'h) \<Rightarrow> 'h option \<Rightarrow> 'e list \<Rightarrow> bool" where
  "chain_linked prev_of hash_of derived prev [] = True"
| "chain_linked prev_of hash_of derived prev (e # es) =
     (prev_of e = prev \<and> derived e = hash_of e
      \<and> chain_linked prev_of hash_of derived (Some (hash_of e)) es)"

definition chain_head :: "('e \<Rightarrow> 'h) \<Rightarrow> 'h option \<Rightarrow> 'e list \<Rightarrow> 'h option" where
  "chain_head hash_of prev es = (if es = [] then prev else Some (hash_of (last es)))"

lemma chain_head_simps [simp]:
  "chain_head h p [] = p" "chain_head h p (es @ [e]) = Some (h e)"
  "chain_head h p (e # es) = chain_head h (Some (h e)) es"
  by (simp_all add: chain_head_def)

lemma chain_linked_append:
  "chain_linked pv h d p (es @ fs) \<longleftrightarrow> chain_linked pv h d p es \<and> chain_linked pv h d (chain_head h p es) fs"
  by (induction es arbitrary: p) auto

lemma chain_linked_prev_of:
  "chain_linked pv h d p es \<Longrightarrow> map pv es = take (length es) (p # map (\<lambda>e. Some (h e)) es)"
  by (induction es arbitrary: p) auto

locale hash_chain =
  fixes prev_of :: "'e \<Rightarrow> 'h option" and hash_of :: "'e \<Rightarrow> 'h" and derived :: "'e \<Rightarrow> 'h"
    and content :: "'e \<Rightarrow> 'c" and broken :: bool
  assumes derived_eqD:
    "derived a = derived b \<Longrightarrow> (content a = content b \<and> prev_of a = prev_of b) \<or> broken"
begin

lemma linked_snoc:
  "chain_linked prev_of hash_of derived p (es @ [e]) \<longleftrightarrow>
     chain_linked prev_of hash_of derived p es \<and> prev_of e = chain_head hash_of p es
     \<and> derived e = hash_of e"
  by (simp add: chain_linked_append)

lemma linked_prefix:
  "chain_linked prev_of hash_of derived p (es @ fs) \<Longrightarrow> chain_linked prev_of hash_of derived p es"
  by (simp add: chain_linked_append)

text \<open>The head hash determines the whole log.\<close>

lemma linked_determined:
  assumes "chain_linked prev_of hash_of derived None es" and "chain_linked prev_of hash_of derived None fs"
    and "chain_head hash_of None es = chain_head hash_of None fs" and "\<not> broken"
  shows "map (\<lambda>e. (content e, prev_of e, hash_of e)) es = map (\<lambda>e. (content e, prev_of e, hash_of e)) fs"
  using assms(1-3)
proof (induction es arbitrary: fs rule: rev_induct)
  case Nil
  then show ?case by (auto simp: chain_head_def split: if_splits)
next
  case (snoc e es)
  from snoc.prems(3) have "fs \<noteq> []" by (auto simp: chain_head_def)
  then obtain gs f where fs: "fs = gs @ [f]" by (cases fs rule: rev_cases) auto
  with snoc.prems have hf: "hash_of e = hash_of f" by simp
  from snoc.prems fs have
    e: "chain_linked prev_of hash_of derived None es" "prev_of e = chain_head hash_of None es" "derived e = hash_of e"
    and f: "chain_linked prev_of hash_of derived None gs" "prev_of f = chain_head hash_of None gs" "derived f = hash_of f"
    by (simp_all add: linked_snoc)
  from hf e f have "derived e = derived f" by simp
  with derived_eqD assms(4) have c: "content e = content f" "prev_of e = prev_of f" by blast+
  from snoc.IH [OF e(1) f(1)] e f c fs hf show ?case by simp
qed

text \<open>A walked log whose hashes are distinct has no fork: no two entries name the same predecessor.\<close>

lemma linked_no_fork:
  assumes l: "chain_linked prev_of hash_of derived None es" and d: "distinct (map hash_of es)"
  shows "distinct (map prev_of es)"
proof -
  have "distinct (None # map (\<lambda>e. Some (hash_of e)) es)"
    using d by (auto simp: distinct_map inj_on_def)
  then have "distinct (take (length es) (None # map (\<lambda>e. Some (hash_of e)) es))"
    by (rule distinct_take)
  with chain_linked_prev_of [OF l] show ?thesis by simp
qed

text \<open>Every entry but the last is named by its successor; the last is the only tip.\<close>

lemma linked_tips:
  assumes l: "chain_linked prev_of hash_of derived None (es @ [e])"
    and d: "distinct (map hash_of (es @ [e]))"
  shows "filter (\<lambda>x. Some (hash_of x) \<notin> set (map prev_of (es @ [e]))) (es @ [e]) = [e]"
proof -
  have "map prev_of (es @ [e]) = take (length (es @ [e])) (None # map (\<lambda>e. Some (hash_of e)) (es @ [e]))"
    by (rule chain_linked_prev_of [OF l])
  then have p: "map prev_of (es @ [e]) = None # map (\<lambda>e. Some (hash_of e)) es" by simp
  have s: "set (map prev_of (es @ [e])) = insert None ((\<lambda>e. Some (hash_of e)) ` set es)"
    unfolding p by simp
  have "filter (\<lambda>x. Some (hash_of x) \<notin> set (map prev_of (es @ [e]))) es = []"
    unfolding s by (simp add: filter_empty_conv)
  moreover have "Some (hash_of e) \<notin> set (map prev_of (es @ [e]))"
    unfolding s using d by auto
  ultimately show ?thesis by simp
qed

end

end
