(* ===== verification/Ledger.thy ===== *)
theory Ledger
  imports Store Hash_Chain "HOL-Library.Option_ord"
begin

text \<open>
  The memory ledger: appending (\<open>src/src/db.rs\<close>), and its verification, the fork-evidence bundle and
  the forward-only migration to a new epoch (\<open>src/src/compliance.rs\<close>).

  An append runs in a transaction that holds the write lock, so the model's step is one
  function from store to store. Entry ids come from an \<open>AUTOINCREMENT\<close> column and \<open>entry_hash\<close> is a
  \<open>UNIQUE\<close> column, so an insert with a known hash fails with \<open>DbConstraint\<close>.
\<close>

section \<open>Appending\<close>

definition ledger_for_namespace :: "store \<Rightarrow> str \<Rightarrow> ledger_entry list" where
  "ledger_for_namespace st namespace =
     sort_key le_id (filter (\<lambda>e. le_namespace e = normalize_namespace namespace) (s_ledger st))"

definition ledger_for_memory :: "store \<Rightarrow> int \<Rightarrow> ledger_entry list" where
  "ledger_for_memory st memory_id =
     sort_key le_id (filter (\<lambda>e. le_memory_id e = Some memory_id) (s_ledger st))"

text \<open>\<open>SELECT entry_hash .. WHERE namespace = $1 ORDER BY id DESC LIMIT 1\<close>, the namespace as given.\<close>

definition ledger_head :: "store \<Rightarrow> str \<Rightarrow> str option" where
  "ledger_head st namespace =
     (case rev (sort_key le_id (filter (\<lambda>e. le_namespace e = namespace) (s_ledger st))) of
        [] \<Rightarrow> None
      | e # _ \<Rightarrow> Some (le_entry_hash e))"

definition latest_ledger_hash :: "store \<Rightarrow> str \<Rightarrow> str option" where
  "latest_ledger_hash st namespace = ledger_head st (normalize_namespace namespace)"

definition next_ledger_id :: "store \<Rightarrow> int" where
  "next_ledger_id st = fold max (map le_id (s_ledger st)) 0 + 1"

definition append_ledger_on_connection ::
  "externals \<Rightarrow> int \<Rightarrow> str \<Rightarrow> int option \<Rightarrow> str \<Rightarrow> str option \<Rightarrow> str \<Rightarrow> str option \<Rightarrow> store
     \<Rightarrow> app_error + store \<times> str"
where
  "append_ledger_on_connection x now namespace memory_id op_type actor payload expected_prev_hash st =
     (let prev_hash = ledger_head st namespace in
      if expected_prev_hash \<noteq> None \<and> prev_hash \<noteq> expected_prev_hash
      then Inl (Msg (lit ''ledger head changed while migration evidence was being prepared''))
      else
        let entry_hash = ledger_entry_hash x prev_hash namespace memory_id op_type actor payload now in
        if \<exists>e \<in> set (s_ledger st). le_entry_hash e = entry_hash
        then Inl (DbConstraint (lit ''memory_ledger.entry_hash''))
        else Inr (st\<lparr>s_ledger := s_ledger st @ [\<lparr>
            le_id = next_ledger_id st, le_namespace = namespace, le_memory_id = memory_id,
            le_op_type = op_type, le_actor = actor, le_prev_hash = prev_hash,
            le_entry_hash = entry_hash, le_payload = payload, le_created_at = now\<rparr>]\<rparr>, entry_hash))"

definition append_ledger_with_expected_head ::
  "externals \<Rightarrow> int \<Rightarrow> str \<Rightarrow> int option \<Rightarrow> str \<Rightarrow> str option \<Rightarrow> str \<Rightarrow> str option \<Rightarrow> store
     \<Rightarrow> store \<times> (app_error + str)"
where
  "append_ledger_with_expected_head x now namespace memory_id op_type actor payload expected_prev_hash =
     commit (append_ledger_on_connection x now (normalize_namespace namespace) memory_id op_type actor
       payload expected_prev_hash)"

definition append_ledger ::
  "externals \<Rightarrow> int \<Rightarrow> str \<Rightarrow> int option \<Rightarrow> str \<Rightarrow> str option \<Rightarrow> str \<Rightarrow> store
     \<Rightarrow> store \<times> (app_error + str)"
where
  "append_ledger x now namespace memory_id op_type actor payload =
     append_ledger_with_expected_head x now namespace memory_id op_type actor payload None"

text \<open>\<open>SELECT DISTINCT namespace .. ORDER BY namespace\<close>.\<close>

definition list_ledger_namespaces :: "store \<Rightarrow> str list" where
  "list_ledger_namespaces st = btree_set (map le_namespace (s_ledger st))"

section \<open>Epochs\<close>

definition record_epoch_on_connection ::
  "int \<Rightarrow> str \<Rightarrow> str \<Rightarrow> str \<Rightarrow> int \<Rightarrow> store \<Rightarrow> app_error + store \<times> ledger_epoch" where
  "record_epoch_on_connection now namespace start_entry_hash evidence_sha256 prior_entry_count st =
     (case find (\<lambda>e. le_entry_hash e = start_entry_hash) (s_ledger st) of
        None \<Rightarrow> Inl DbRowNotFound
      | Some start \<Rightarrow>
          let epoch = fold max (map ep_epoch (filter (\<lambda>p. ep_namespace p = namespace) (s_epochs st))) 0 + 1;
              row = \<lparr>ep_namespace = namespace, ep_epoch = epoch, ep_start_entry_id = le_id start,
                ep_start_entry_hash = start_entry_hash, ep_evidence_sha256 = evidence_sha256,
                ep_prior_entry_count = prior_entry_count, ep_created_at = now\<rparr>
          in if \<exists>p \<in> set (s_epochs st). ep_start_entry_hash p = start_entry_hash
             then Inl (DbConstraint (lit ''memory_ledger_epochs.start_entry_hash''))
             else Inr (st\<lparr>s_epochs := s_epochs st @ [row]\<rparr>, row))"

definition append_ledger_migration ::
  "externals \<Rightarrow> int \<Rightarrow> str \<Rightarrow> str \<Rightarrow> str \<Rightarrow> str \<Rightarrow> str \<Rightarrow> int \<Rightarrow> store \<Rightarrow> store \<times> (app_error + ledger_epoch)"
where
  "append_ledger_migration x now namespace actor payload expected_prev_hash evidence_sha256 prior_entry_count =
     (let namespace = normalize_namespace namespace in
      commit (\<lambda>st.
        try_then (append_ledger_on_connection x now namespace None (lit ''migration_genesis'') (Some actor)
          payload (Some expected_prev_hash) st) (\<lambda>(st, entry_hash).
        record_epoch_on_connection now namespace entry_hash evidence_sha256 prior_entry_count st)))"

definition latest_ledger_epoch :: "store \<Rightarrow> str \<Rightarrow> ledger_epoch option" where
  "latest_ledger_epoch st namespace =
     (case rev (sort_key ep_epoch
        (filter (\<lambda>p. ep_namespace p = normalize_namespace namespace) (s_epochs st))) of
        [] \<Rightarrow> None
      | p # _ \<Rightarrow> Some p)"

section \<open>Verification\<close>

record chain_verification =
  cv_namespace :: str
  cv_entries :: nat
  cv_valid :: bool
  cv_first_broken_id :: "int option"
  cv_epoch :: "int option"
  cv_historical_entries :: nat
  cv_historical_fork_points :: nat

definition entry_derived_hash :: "externals \<Rightarrow> ledger_entry \<Rightarrow> str" where
  "entry_derived_hash x e = ledger_entry_hash x (le_prev_hash e) (le_namespace e) (le_memory_id e)
     (le_op_type e) (le_actor e) (le_payload e) (le_created_at e)"

text \<open>The loop over the entries: the id at which it returns, if it does.\<close>

fun first_broken :: "externals \<Rightarrow> str option \<Rightarrow> ledger_entry list \<Rightarrow> int option" where
  "first_broken x prev [] = None"
| "first_broken x prev (entry # entries) =
     (let linked = (le_prev_hash entry = prev); derived = entry_derived_hash x entry in
      if \<not> linked \<or> derived \<noteq> le_entry_hash entry then Some (le_id entry)
      else first_broken x (Some (le_entry_hash entry)) entries)"

definition verify_ledger_chain :: "externals \<Rightarrow> store \<Rightarrow> str \<Rightarrow> chain_verification" where
  "verify_ledger_chain x st namespace =
     (let entries = ledger_for_namespace st namespace in
      case first_broken x None entries of
        Some broken \<Rightarrow> \<lparr>cv_namespace = namespace, cv_entries = length entries, cv_valid = False,
          cv_first_broken_id = Some broken, cv_epoch = None, cv_historical_entries = 0,
          cv_historical_fork_points = 0\<rparr>
      | None \<Rightarrow> \<lparr>cv_namespace = namespace, cv_entries = length entries, cv_valid = True,
          cv_first_broken_id = None, cv_epoch = None, cv_historical_entries = 0,
          cv_historical_fork_points = 0\<rparr>)"

text \<open>\<open>i64 as usize\<close>.\<close>

definition usize_of_i64 :: "int \<Rightarrow> nat" where
  "usize_of_i64 z = nat (z mod 18446744073709551616)"

definition count_fork_points :: "ledger_entry list \<Rightarrow> nat" where
  "count_fork_points entries = length (filter
     (\<lambda>p. length (filter (\<lambda>e. le_prev_hash e = p) entries) > 1) (btree_set (map le_prev_hash entries)))"

definition verify_current_ledger_epoch :: "externals \<Rightarrow> store \<Rightarrow> str \<Rightarrow> chain_verification" where
  "verify_current_ledger_epoch x st namespace =
     (case latest_ledger_epoch st namespace of
        None \<Rightarrow> verify_ledger_chain x st namespace
      | Some epoch \<Rightarrow>
          let all_entries = ledger_for_namespace st namespace;
              historical = usize_of_i64 (ep_prior_entry_count epoch);
              forks = count_fork_points (take historical all_entries);
              entries = filter (\<lambda>e. le_id e \<ge> ep_start_entry_id epoch) all_entries;
              prev = (case entries of [] \<Rightarrow> None | e # _ \<Rightarrow> le_prev_hash e)
          in (case first_broken x prev entries of
                Some broken \<Rightarrow> \<lparr>cv_namespace = namespace, cv_entries = length entries, cv_valid = False,
                  cv_first_broken_id = Some broken, cv_epoch = Some (ep_epoch epoch),
                  cv_historical_entries = historical, cv_historical_fork_points = forks\<rparr>
              | None \<Rightarrow> \<lparr>cv_namespace = namespace, cv_entries = length entries,
                  cv_valid = (entries \<noteq> []), cv_first_broken_id = None,
                  cv_epoch = Some (ep_epoch epoch), cv_historical_entries = historical,
                  cv_historical_fork_points = forks\<rparr>))"

section \<open>Fork evidence and migration\<close>

record fork_evidence =
  fe_prev_hash :: "str option"
  fe_child_ids :: "int list"
  fe_child_hashes :: "str list"

record ledger_evidence =
  lev_format_version :: nat
  lev_namespace :: str
  lev_entries :: "ledger_entry list"
  lev_forks :: "fork_evidence list"
  lev_tip_hashes :: "str list"

record evidence_bundle =
  eb_evidence_sha256 :: str
  eb_evidence :: ledger_evidence

record migration_result =
  mr_namespace :: str
  mr_evidence_sha256 :: str
  mr_prior_entries :: nat
  mr_fork_points :: nat
  mr_start_index :: nat
  mr_epoch :: ledger_epoch

text \<open>A derived \<open>Serialize\<close> prints the fields of a struct in their order.\<close>

definition ledger_entry_json :: "ledger_entry \<Rightarrow> json" where
  "ledger_entry_json e = JObj [
     (lit ''id'', JInt (le_id e)), (lit ''namespace'', JStr (le_namespace e)),
     (lit ''memory_id'', j_opt_int (le_memory_id e)), (lit ''op_type'', JStr (le_op_type e)),
     (lit ''actor'', j_opt_str (le_actor e)), (lit ''prev_hash'', j_opt_str (le_prev_hash e)),
     (lit ''entry_hash'', JStr (le_entry_hash e)), (lit ''payload'', JStr (le_payload e)),
     (lit ''created_at'', JInt (le_created_at e))]"

definition fork_json :: "fork_evidence \<Rightarrow> json" where
  "fork_json f = JObj [
     (lit ''prev_hash'', j_opt_str (fe_prev_hash f)),
     (lit ''child_ids'', JArr (map JInt (fe_child_ids f))),
     (lit ''child_hashes'', JArr (map JStr (fe_child_hashes f)))]"

definition evidence_json :: "ledger_evidence \<Rightarrow> json" where
  "evidence_json ev = JObj [
     (lit ''format_version'', JInt (int (lev_format_version ev))),
     (lit ''namespace'', JStr (lev_namespace ev)),
     (lit ''entries'', JArr (map ledger_entry_json (lev_entries ev))),
     (lit ''forks'', JArr (map fork_json (lev_forks ev))),
     (lit ''tip_hashes'', JArr (map JStr (lev_tip_hashes ev)))]"

definition evidence_digest :: "externals \<Rightarrow> ledger_evidence \<Rightarrow> str" where
  "evidence_digest x ev = sha256_hex x (as_bytes (json_text x (evidence_json ev)))"

definition build_ledger_evidence :: "externals \<Rightarrow> store \<Rightarrow> str \<Rightarrow> evidence_bundle" where
  "build_ledger_evidence x st namespace =
     (let entries = ledger_for_namespace st namespace;
          children = (\<lambda>p. filter (\<lambda>e. le_prev_hash e = p) entries);
          referenced = set (map le_prev_hash entries);
          forks = map (\<lambda>p. \<lparr>fe_prev_hash = p, fe_child_ids = map le_id (children p),
                    fe_child_hashes = map le_entry_hash (children p)\<rparr>)
                  (filter (\<lambda>p. length (children p) > 1) (btree_set (map le_prev_hash entries)));
          tips = map le_entry_hash (filter (\<lambda>e. Some (le_entry_hash e) \<notin> referenced) entries);
          evidence = \<lparr>lev_format_version = 1, lev_namespace = normalize_namespace namespace,
            lev_entries = entries, lev_forks = forks, lev_tip_hashes = tips\<rparr>
      in \<lparr>eb_evidence_sha256 = evidence_digest x evidence, eb_evidence = evidence\<rparr>)"

definition migration_payload :: "evidence_bundle \<Rightarrow> str \<Rightarrow> json" where
  "migration_payload bundle last_hash = json_obj [
     (''evidence_format_version'', JInt (int (lev_format_version (eb_evidence bundle)))),
     (''evidence_sha256'', JStr (eb_evidence_sha256 bundle)),
     (''fork_points'', JInt (int (length (lev_forks (eb_evidence bundle))))),
     (''namespace'', JStr (lev_namespace (eb_evidence bundle))),
     (''prior_entries'', JInt (int (length (lev_entries (eb_evidence bundle))))),
     (''prior_last_entry_hash'', JStr last_hash),
     (''repair_mode'', JStr (lit ''forward_only_epoch''))]"

definition apply_ledger_migration ::
  "externals \<Rightarrow> int \<Rightarrow> evidence_bundle \<Rightarrow> str \<Rightarrow> store \<Rightarrow> store \<times> (app_error + migration_result)" where
  "apply_ledger_migration x now bundle actor st =
     (let ev = eb_evidence bundle in
      if latest_ledger_epoch st (lev_namespace ev) \<noteq> None
      then (st, Inl (Msg (lit ''namespace '' @ [39] @ lev_namespace ev @ [39]
             @ lit '' already has a ledger migration epoch'')))
      else if evidence_digest x ev \<noteq> eb_evidence_sha256 bundle
      then (st, Inl (Msg (lit ''ledger evidence hash does not match its contents'')))
      else if lev_entries ev = []
      then (st, Inl (Msg (lit ''cannot migrate an empty ledger'')))
      else
        let last_entry = last (lev_entries ev);
            payload = json_text x (migration_payload bundle (le_entry_hash last_entry))
        in and_then (append_ledger_migration x now (lev_namespace ev) actor payload
             (le_entry_hash last_entry) (eb_evidence_sha256 bundle) (int (length (lev_entries ev))) st)
           (\<lambda>epoch st. (st, Inr \<lparr>mr_namespace = lev_namespace ev,
              mr_evidence_sha256 = eb_evidence_sha256 bundle,
              mr_prior_entries = length (lev_entries ev), mr_fork_points = length (lev_forks ev),
              mr_start_index = length (lev_entries ev), mr_epoch = epoch\<rparr>)))"

section \<open>The ledger as a hash chain\<close>

definition ledger_content where
  "ledger_content e = (normalize_namespace (le_namespace e), le_memory_id e, le_op_type e, le_actor e,
     le_payload e, le_created_at e)"

interpretation ledger_chain:
  hash_chain le_prev_hash le_entry_hash "entry_derived_hash x" ledger_content "json_digest_collision x"
  for x
proof
  fix a b
  assume "entry_derived_hash x a = entry_derived_hash x b"
  then show "(ledger_content a = ledger_content b \<and> le_prev_hash a = le_prev_hash b) \<or> json_digest_collision x"
    unfolding entry_derived_hash_def ledger_content_def by (auto dest: ledger_entry_hash_eqD)
qed

abbreviation linked_from :: "externals \<Rightarrow> str option \<Rightarrow> ledger_entry list \<Rightarrow> bool" where
  "linked_from x \<equiv> chain_linked le_prev_hash le_entry_hash (entry_derived_hash x)"

lemma first_broken_None: "first_broken x prev es = None \<longleftrightarrow> linked_from x prev es"
  by (induction es arbitrary: prev) auto

lemma first_broken_Some:
  "first_broken x prev es = Some i \<Longrightarrow>
     \<exists>as e bs. es = as @ e # bs \<and> le_id e = i \<and> linked_from x prev as
       \<and> (le_prev_hash e \<noteq> chain_head le_entry_hash prev as \<or> entry_derived_hash x e \<noteq> le_entry_hash e)"
proof (induction es arbitrary: prev)
  case (Cons e es)
  show ?case
  proof (cases "le_prev_hash e \<noteq> prev \<or> entry_derived_hash x e \<noteq> le_entry_hash e")
    case True
    with Cons.prems have "le_id e = i" by simp
    with True show ?thesis by (intro exI [of _ "[]"] exI [of _ e] exI [of _ es]) simp
  next
    case False
    with Cons.prems have "first_broken x (Some (le_entry_hash e)) es = Some i" by simp
    from Cons.IH [OF this] obtain as f bs where f: "es = as @ f # bs" "le_id f = i"
      "linked_from x (Some (le_entry_hash e)) as"
      "le_prev_hash f \<noteq> chain_head le_entry_hash (Some (le_entry_hash e)) as \<or> entry_derived_hash x f \<noteq> le_entry_hash f"
      by blast
    with False show ?thesis by (intro exI [of _ "e # as"] exI [of _ f] exI [of _ bs]) simp
  qed
qed simp

section \<open>The ledger's invariant\<close>

text \<open>Rows in the order of their ids, hashes unique (the schema's constraints).\<close>

definition ledger_rows_ok :: "ledger_entry list \<Rightarrow> bool" where
  "ledger_rows_ok es \<longleftrightarrow> sorted_wrt (<) (map le_id es) \<and> distinct (map le_entry_hash es)"

definition ns_entries :: "store \<Rightarrow> str \<Rightarrow> ledger_entry list" where
  "ns_entries st namespace = filter (\<lambda>e. le_namespace e = namespace) (s_ledger st)"

definition ledger_inv :: "externals \<Rightarrow> store \<Rightarrow> bool" where
  "ledger_inv x st \<longleftrightarrow> ledger_rows_ok (s_ledger st) \<and> (\<forall>ns. linked_from x None (ns_entries st ns))"

lemma sorted_wrt_filter: "sorted_wrt P (map f xs) \<Longrightarrow> sorted_wrt P (map f (filter Q xs))"
  by (induction xs) auto

lemma ledger_rows_ok_filter: "ledger_rows_ok es \<Longrightarrow> ledger_rows_ok (filter P es)"
  by (simp add: ledger_rows_ok_def sorted_wrt_filter distinct_map_filter)

lemma ledger_rows_sorted: "ledger_rows_ok es \<Longrightarrow> sorted (map le_id es)"
  by (simp add: ledger_rows_ok_def strict_sorted_imp_sorted)

lemma ledger_rows_sort_filter: "ledger_rows_ok es \<Longrightarrow> sort_key le_id (filter P es) = filter P es"
  by (intro sort_key_id_if_sorted ledger_rows_sorted ledger_rows_ok_filter)

lemma ledger_for_namespace_rows:
  "ledger_rows_ok (s_ledger st) \<Longrightarrow> ledger_for_namespace st ns = ns_entries st (normalize_namespace ns)"
  by (simp add: ledger_for_namespace_def ns_entries_def ledger_rows_sort_filter)

lemma ledger_head_rows:
  assumes "ledger_rows_ok (s_ledger st)"
  shows "ledger_head st ns = chain_head le_entry_hash None (ns_entries st ns)"
  using ledger_rows_sort_filter [OF assms, of "\<lambda>e. le_namespace e = ns"]
  unfolding ledger_head_def ns_entries_def
  by (cases "filter (\<lambda>e. le_namespace e = ns) (s_ledger st)" rule: rev_cases) simp_all

lemma fold_max_ge: "a \<le> fold max xs (a::int) \<and> (\<forall>b \<in> set xs. b \<le> fold max xs a)"
proof (induction xs arbitrary: a)
  case (Cons b xs)
  have "a \<le> max b a" "b \<le> max b a" by simp_all
  with Cons.IH [of "max b a"] show ?case by force
qed simp

lemma next_ledger_id_fresh: "e \<in> set (s_ledger st) \<Longrightarrow> le_id e < next_ledger_id st"
  using fold_max_ge [of 0 "map le_id (s_ledger st)"] by (auto simp: next_ledger_id_def)

lemma verify_ledger_chain_valid:
  "cv_valid (verify_ledger_chain x st ns) \<longleftrightarrow> linked_from x None (ledger_for_namespace st ns)"
  by (auto simp: verify_ledger_chain_def Let_def first_broken_None [symmetric] split: option.split)

subsection \<open>Appending\<close>

text \<open>The row an append adds.\<close>

definition appended_entry ::
  "externals \<Rightarrow> int \<Rightarrow> str \<Rightarrow> int option \<Rightarrow> str \<Rightarrow> str option \<Rightarrow> str \<Rightarrow> store \<Rightarrow> ledger_entry" where
  "appended_entry x now ns mid op actor payload st = \<lparr>
     le_id = next_ledger_id st, le_namespace = ns, le_memory_id = mid, le_op_type = op,
     le_actor = actor, le_prev_hash = ledger_head st ns,
     le_entry_hash = ledger_entry_hash x (ledger_head st ns) ns mid op actor payload now,
     le_payload = payload, le_created_at = now\<rparr>"

lemma append_ledger_on_connection_Inr:
  "append_ledger_on_connection x now ns mid op actor payload expected st = Inr (st', h) \<longleftrightarrow>
     (expected = None \<or> ledger_head st ns = expected)
     \<and> (\<forall>e \<in> set (s_ledger st). le_entry_hash e \<noteq> h)
     \<and> st' = st\<lparr>s_ledger := s_ledger st @ [appended_entry x now ns mid op actor payload st]\<rparr>
     \<and> h = ledger_entry_hash x (ledger_head st ns) ns mid op actor payload now"
  by (auto simp: append_ledger_on_connection_def Let_def appended_entry_def)

lemma appended_entry_simps [simp]:
  "le_namespace (appended_entry x now ns mid op actor payload st) = ns"
  "le_id (appended_entry x now ns mid op actor payload st) = next_ledger_id st"
  "le_prev_hash (appended_entry x now ns mid op actor payload st) = ledger_head st ns"
  "le_memory_id (appended_entry x now ns mid op actor payload st) = mid"
  "le_op_type (appended_entry x now ns mid op actor payload st) = op"
  "le_actor (appended_entry x now ns mid op actor payload st) = actor"
  "le_payload (appended_entry x now ns mid op actor payload st) = payload"
  "entry_derived_hash x (appended_entry x now ns mid op actor payload st)
     = le_entry_hash (appended_entry x now ns mid op actor payload st)"
  by (simp_all add: appended_entry_def entry_derived_hash_def)

lemma appended_rows_ok:
  assumes "ledger_rows_ok (s_ledger st)"
    and "\<forall>e \<in> set (s_ledger st). le_entry_hash e \<noteq> le_entry_hash r" and "le_id r = next_ledger_id st"
  shows "ledger_rows_ok (s_ledger st @ [r])"
  using assms next_ledger_id_fresh by (auto simp: ledger_rows_ok_def sorted_wrt_append)

lemma append_on_connection_inv:
  assumes "ledger_inv x st"
    and "append_ledger_on_connection x now ns mid op actor payload expected st = Inr (st', h)"
  shows "ledger_inv x st'"
proof -
  let ?r = "appended_entry x now ns mid op actor payload st"
  from assms(2) have st': "st' = st\<lparr>s_ledger := s_ledger st @ [?r]\<rparr>"
    and fresh: "\<forall>e \<in> set (s_ledger st). le_entry_hash e \<noteq> le_entry_hash ?r"
    by (auto simp: append_ledger_on_connection_Inr appended_entry_def)
  have rows: "ledger_rows_ok (s_ledger st)" using assms(1) by (simp add: ledger_inv_def)
  have "linked_from x None (ns_entries st' m)" for m
    using assms(1) ledger_head_rows [OF rows, of ns]
    by (cases "m = ns") (simp_all add: ledger_inv_def st' ns_entries_def chain_linked_append)
  with appended_rows_ok [OF rows fresh] show ?thesis by (simp add: ledger_inv_def st')
qed

lemma append_ledger_inv:
  assumes "ledger_inv x st"
    and "append_ledger_with_expected_head x now ns mid op actor payload expected st = (st', r)"
  shows "ledger_inv x st'"
  using assms append_on_connection_inv
  by (cases r) (auto simp: append_ledger_with_expected_head_def commit_Inr commit_Inl)

lemma record_epoch_ledger:
  "record_epoch_on_connection now ns h ev n st = Inr (st', ep) \<Longrightarrow> s_ledger st' = s_ledger st"
  by (auto simp: record_epoch_on_connection_def Let_def split: option.splits if_splits)

lemma ledger_inv_cong: "s_ledger st' = s_ledger st \<Longrightarrow> ledger_inv x st' = ledger_inv x st"
  by (simp add: ledger_inv_def ns_entries_def)

lemma append_migration_inv:
  assumes "ledger_inv x st" and "append_ledger_migration x now ns actor payload ph ev n st = (st', r)"
  shows "ledger_inv x st'"
proof (cases r)
  case (Inl e)
  with assms show ?thesis by (simp add: append_ledger_migration_def Let_def commit_Inl)
next
  case (Inr ep)
  with assms obtain st1 h where
    "append_ledger_on_connection x now (normalize_namespace ns) None (lit ''migration_genesis'') (Some actor)
       payload (Some ph) st = Inr (st1, h)"
    and rec: "record_epoch_on_connection now (normalize_namespace ns) h ev n st1 = Inr (st', ep)"
    by (auto simp: append_ledger_migration_def Let_def commit_Inr try_conv)
  with append_on_connection_inv [OF assms(1)] record_epoch_ledger [OF rec] ledger_inv_cong show ?thesis
    by blast
qed

text \<open>The ledgers that appends and migrations reach, in any order and interleaving of namespaces.\<close>

inductive ledger_reachable :: "externals \<Rightarrow> store \<Rightarrow> bool" for x where
  start: "s_ledger st = [] \<Longrightarrow> ledger_reachable x st"
| append: "ledger_reachable x st
    \<Longrightarrow> append_ledger_with_expected_head x now ns mid op actor payload expected st = (st', r)
    \<Longrightarrow> ledger_reachable x st'"
| migrate: "ledger_reachable x st
    \<Longrightarrow> append_ledger_migration x now ns actor payload prev evidence count st = (st', r')
    \<Longrightarrow> ledger_reachable x st'"

lemma ledger_inv_empty: "s_ledger st = [] \<Longrightarrow> ledger_inv x st"
  by (simp add: ledger_inv_def ns_entries_def ledger_rows_ok_def)

lemma ledger_reachable_inv: "ledger_reachable x st \<Longrightarrow> ledger_inv x st"
  by (induction rule: ledger_reachable.induct)
     (auto intro: ledger_inv_empty append_ledger_inv append_migration_inv)

subsection \<open>Migration\<close>

lemma latest_epoch_None:
  "latest_ledger_epoch st ns = None \<longleftrightarrow>
     filter (\<lambda>p. ep_namespace p = normalize_namespace ns) (s_epochs st) = []"
proof -
  define ps where "ps = filter (\<lambda>p. ep_namespace p = normalize_namespace ns) (s_epochs st)"
  have "(case rev (sort_key ep_epoch ps) of [] \<Rightarrow> None | p # _ \<Rightarrow> Some p) = None \<longleftrightarrow> sort_key ep_epoch ps = []"
    by (cases "sort_key ep_epoch ps" rule: rev_cases) simp_all
  moreover have "sort_key ep_epoch ps = [] \<longleftrightarrow> ps = []"
    using length_sort [of ep_epoch ps] by (metis length_0_conv)
  ultimately show ?thesis unfolding latest_ledger_epoch_def ps_def by simp
qed

lemma find_snoc_fresh:
  "(\<forall>e \<in> set es. \<not> P e) \<Longrightarrow> P r \<Longrightarrow> find P (es @ [r]) = Some r"
  by (induction es) auto

text \<open>What a successful migration leaves: the genesis entry at the end of the ledger and the first
  epoch of the namespace, starting at it.\<close>

lemma append_migration_result:
  assumes "append_ledger_migration x now ns actor payload ph ev n st = (st', Inr ep)"
  defines "N \<equiv> normalize_namespace ns"
  defines "r \<equiv> appended_entry x now N None (lit ''migration_genesis'') (Some actor) payload st"
  shows "s_ledger st' = s_ledger st @ [r]" and "s_epochs st' = s_epochs st @ [ep]"
    and "ep_namespace ep = N" and "ep_start_entry_id ep = le_id r"
    and "ep_start_entry_hash ep = le_entry_hash r" and "ep_prior_entry_count ep = n"
    and "\<forall>e \<in> set (s_ledger st). le_entry_hash e \<noteq> le_entry_hash r"
    and "ledger_head st N = Some ph"
proof -
  from assms(1) obtain st1 h where
    a: "append_ledger_on_connection x now N None (lit ''migration_genesis'') (Some actor)
       payload (Some ph) st = Inr (st1, h)"
    and rec: "record_epoch_on_connection now N h ev n st1 = Inr (st', ep)"
    by (auto simp: append_ledger_migration_def Let_def commit_Inr try_conv N_def)
  from a have st1: "st1 = st\<lparr>s_ledger := s_ledger st @ [r]\<rparr>" and h: "h = le_entry_hash r"
    and fresh: "\<forall>e \<in> set (s_ledger st). le_entry_hash e \<noteq> le_entry_hash r"
    and head: "ledger_head st N = Some ph"
    by (auto simp: append_ledger_on_connection_Inr r_def appended_entry_def)
  have "find (\<lambda>e. le_entry_hash e = h) (s_ledger st @ [r]) = Some r"
    by (rule find_snoc_fresh) (use fresh h in blast)+
  then have "find (\<lambda>e. le_entry_hash e = h) (s_ledger st1) = Some r" unfolding st1 by simp
  with rec have "s_epochs st' = s_epochs st1 @ [ep]" "ep_namespace ep = N" "ep_start_entry_id ep = le_id r"
    "ep_start_entry_hash ep = h" "ep_prior_entry_count ep = n"
    by (auto simp: record_epoch_on_connection_def Let_def split: if_splits)
  with record_epoch_ledger [OF rec] st1 h fresh head
  show "s_ledger st' = s_ledger st @ [r]" "s_epochs st' = s_epochs st @ [ep]"
    "ep_namespace ep = N" "ep_start_entry_id ep = le_id r"
    "ep_start_entry_hash ep = le_entry_hash r" "ep_prior_entry_count ep = n"
    "\<forall>e \<in> set (s_ledger st). le_entry_hash e \<noteq> le_entry_hash r" "ledger_head st N = Some ph"
    by simp_all
qed

text \<open>The entries an epoch's verification walks.\<close>

definition epoch_entries :: "ledger_epoch \<Rightarrow> store \<Rightarrow> str \<Rightarrow> ledger_entry list" where
  "epoch_entries ep st ns = filter (\<lambda>e. le_id e \<ge> ep_start_entry_id ep) (ledger_for_namespace st ns)"

definition self_linked :: "externals \<Rightarrow> ledger_entry list \<Rightarrow> bool" where
  "self_linked x es \<longleftrightarrow> es \<noteq> [] \<and> linked_from x (le_prev_hash (hd es)) es"

lemma verify_current_valid:
  assumes "latest_ledger_epoch st ns = Some ep"
  shows "cv_valid (verify_current_ledger_epoch x st ns) \<longleftrightarrow> self_linked x (epoch_entries ep st ns)"
  unfolding verify_current_ledger_epoch_def assms self_linked_def
  by (cases "epoch_entries ep st ns")
     (simp_all add: epoch_entries_def [symmetric] first_broken_None [symmetric] Let_def split: option.split)

lemma verify_current_fields:
  assumes "latest_ledger_epoch st ns = Some ep"
  shows "cv_entries (verify_current_ledger_epoch x st ns) = length (epoch_entries ep st ns)"
    and "cv_epoch (verify_current_ledger_epoch x st ns) = Some (ep_epoch ep)"
    and "cv_historical_entries (verify_current_ledger_epoch x st ns) = usize_of_i64 (ep_prior_entry_count ep)"
    and "cv_historical_fork_points (verify_current_ledger_epoch x st ns)
      = count_fork_points (take (usize_of_i64 (ep_prior_entry_count ep)) (ledger_for_namespace st ns))"
  using assms by (simp_all add: verify_current_ledger_epoch_def epoch_entries_def Let_def split: option.split)

lemma usize_of_length: "length es < 2 ^ 63 \<Longrightarrow> usize_of_i64 (int (length es)) = length es"
  by (simp add: usize_of_i64_def)

lemma build_evidence_fields:
  "lev_namespace (eb_evidence (build_ledger_evidence x st ns)) = normalize_namespace ns"
  "lev_entries (eb_evidence (build_ledger_evidence x st ns)) = ledger_for_namespace st ns"
  "length (lev_forks (eb_evidence (build_ledger_evidence x st ns))) = count_fork_points (ledger_for_namespace st ns)"
  "eb_evidence_sha256 (build_ledger_evidence x st ns) = evidence_digest x (eb_evidence (build_ledger_evidence x st ns))"
  by (simp_all add: build_ledger_evidence_def count_fork_points_def Let_def)

lemma apply_migration_append:
  assumes "apply_ledger_migration x now b actor st = (st', Inr r)"
  shows "latest_ledger_epoch st (lev_namespace (eb_evidence b)) = None"
    and "lev_entries (eb_evidence b) \<noteq> []"
    and "\<exists>payload ph. append_ledger_migration x now (lev_namespace (eb_evidence b)) actor payload ph
      (eb_evidence_sha256 b) (int (length (lev_entries (eb_evidence b)))) st = (st', Inr (mr_epoch r))
      \<and> ph = le_entry_hash (last (lev_entries (eb_evidence b)))"
    and "mr_fork_points r = length (lev_forks (eb_evidence b))"
    and "mr_prior_entries r = length (lev_entries (eb_evidence b))"
  using assms
  by (auto simp: apply_ledger_migration_def Let_def and_then_def split: if_splits prod.splits sum.splits)

lemma migration_epoch_state:
  assumes rows: "ledger_rows_ok (s_ledger st)"
    and ap: "apply_ledger_migration x now (build_ledger_evidence x st ns) actor st = (st', Inr r)"
  shows "\<exists>g. latest_ledger_epoch st' ns = Some (mr_epoch r) \<and> ledger_rows_ok (s_ledger st')
    \<and> ledger_for_namespace st' ns = ledger_for_namespace st ns @ [g]
    \<and> epoch_entries (mr_epoch r) st' ns = [g] \<and> entry_derived_hash x g = le_entry_hash g
    \<and> ep_prior_entry_count (mr_epoch r) = int (length (ledger_for_namespace st ns))
    \<and> ep_start_entry_id (mr_epoch r) = le_id g \<and> ep_start_entry_hash (mr_epoch r) = le_entry_hash g"
proof -
  let ?N = "normalize_namespace ns"
  note f = apply_migration_append [OF ap, unfolded build_evidence_fields]
  from f(3) obtain payload where m: "append_ledger_migration x now ?N actor payload
      (le_entry_hash (last (ledger_for_namespace st ns))) (eb_evidence_sha256 (build_ledger_evidence x st ns))
      (int (length (ledger_for_namespace st ns))) st = (st', Inr (mr_epoch r))"
    by (auto simp: build_evidence_fields(4))
  define g where "g = appended_entry x now ?N None (lit ''migration_genesis'') (Some actor) payload st"
  note res = append_migration_result [OF m, simplified, folded g_def]
  have rows': "ledger_rows_ok (s_ledger st')"
    using appended_rows_ok [OF rows res(7)] by (simp add: res(1) g_def)
  have none: "filter (\<lambda>p. ep_namespace p = ?N) (s_epochs st) = []"
    using f(1) by (simp add: latest_epoch_None)
  have all: "ledger_for_namespace st' ns = ledger_for_namespace st ns @ [g]"
    using rows rows' by (simp add: ledger_for_namespace_rows ns_entries_def res(1) g_def)
  moreover have "epoch_entries (mr_epoch r) st' ns = [g]"
  proof -
    have "\<not> next_ledger_id st \<le> le_id e" if "e \<in> set (ledger_for_namespace st ns)" for e
      using next_ledger_id_fresh [of e st] that rows by (simp add: ledger_for_namespace_rows ns_entries_def)
    then have "filter (\<lambda>e. next_ledger_id st \<le> le_id e) (ledger_for_namespace st ns) = []"
      by (simp add: filter_empty_conv)
    then show ?thesis unfolding epoch_entries_def all res(4) by (simp add: g_def)
  qed
  moreover have "latest_ledger_epoch st' ns = Some (mr_epoch r)"
    using none by (simp add: latest_ledger_epoch_def res(2,3))
  moreover have "entry_derived_hash x g = le_entry_hash g" by (simp add: g_def)
  moreover have "ep_start_entry_id (mr_epoch r) = le_id g" by (simp add: res(4) g_def)
  ultimately show ?thesis using rows' res(5,6) by (intro exI [of _ g] conjI)
qed

text \<open>Appends after the migration extend the current epoch's chain.\<close>

lemma append_keeps_epoch_valid:
  assumes rows: "ledger_rows_ok (s_ledger st)" and ep: "latest_ledger_epoch st ns = Some ep"
    and valid: "cv_valid (verify_current_ledger_epoch x st ns)"
    and ap: "append_ledger_with_expected_head x now m mid op actor payload expected st = (st', r)"
  shows "latest_ledger_epoch st' ns = Some ep \<and> ledger_rows_ok (s_ledger st')
    \<and> cv_valid (verify_current_ledger_epoch x st' ns)"
proof (cases r)
  case (Inl e)
  with ap have "st' = st" by (simp add: append_ledger_with_expected_head_def commit_Inl)
  with rows ep valid show ?thesis by simp
next
  case (Inr h)
  let ?M = "normalize_namespace m" and ?N = "normalize_namespace ns"
  let ?r = "appended_entry x now ?M mid op actor payload st"
  from ap Inr have st': "st' = st\<lparr>s_ledger := s_ledger st @ [?r]\<rparr>"
    and fresh: "\<forall>e \<in> set (s_ledger st). le_entry_hash e \<noteq> le_entry_hash ?r"
    by (auto simp: append_ledger_with_expected_head_def commit_Inr append_ledger_on_connection_Inr
        appended_entry_def)
  have rows': "ledger_rows_ok (s_ledger st')" using appended_rows_ok [OF rows fresh] by (simp add: st')
  have ep': "latest_ledger_epoch st' ns = Some ep" using ep by (simp add: st' latest_ledger_epoch_def)
  have sl: "self_linked x (epoch_entries ep st ns)"
    using valid verify_current_valid [OF ep, of x] by simp
  have "self_linked x (epoch_entries ep st' ns)"
  proof (cases "?M = ?N")
    case False
    then have "epoch_entries ep st' ns = epoch_entries ep st ns"
      using rows rows' by (simp add: epoch_entries_def ledger_for_namespace_rows ns_entries_def st')
    with sl show ?thesis by simp
  next
    case True
    have "hd (epoch_entries ep st ns) \<in> set (epoch_entries ep st ns)" using sl by (simp add: self_linked_def)
    then obtain e where e: "e \<in> set (epoch_entries ep st ns)" by blast
    then have "e \<in> set (s_ledger st)" "ep_start_entry_id ep \<le> le_id e"
      using rows by (auto simp: epoch_entries_def ledger_for_namespace_rows ns_entries_def)
    with next_ledger_id_fresh [of e st] have start: "ep_start_entry_id ep \<le> next_ledger_id st" by linarith
    have all: "ns_entries st' ?N = ns_entries st ?N @ [?r]" using True by (simp add: ns_entries_def st')
    then have ee: "epoch_entries ep st' ns = epoch_entries ep st ns @ [?r]"
      using rows rows' start by (simp add: epoch_entries_def ledger_for_namespace_rows)
    have "ns_entries st ?N \<noteq> []" "last (ns_entries st ?N) = last (epoch_entries ep st ns)"
    proof -
      have ne: "epoch_entries ep st ns \<noteq> []" using sl by (simp add: self_linked_def)
      have eq: "epoch_entries ep st ns = filter (\<lambda>e. ep_start_entry_id ep \<le> le_id e) (ns_entries st ?N)"
        using rows by (simp add: epoch_entries_def ledger_for_namespace_rows)
      with ne show n: "ns_entries st ?N \<noteq> []" by auto
      obtain as l where al: "ns_entries st ?N = as @ [l]" using n by (cases "ns_entries st ?N" rule: rev_cases) auto
      have srt: "sorted_wrt (<) (map le_id (as @ [l]))"
        using ledger_rows_ok_filter [OF rows, of "\<lambda>e. le_namespace e = ?N"] al
        by (simp add: ledger_rows_ok_def ns_entries_def)
      obtain f where "f \<in> set (as @ [l])" "ep_start_entry_id ep \<le> le_id f"
        using ne unfolding eq filter_empty_conv al by blast
      with srt have "ep_start_entry_id ep \<le> le_id l" by (fastforce simp: sorted_wrt_append)
      then show "last (ns_entries st ?N) = last (epoch_entries ep st ns)" unfolding eq al by simp
    qed
    then have "ledger_head st ?M = Some (le_entry_hash (last (epoch_entries ep st ns)))"
      using ledger_head_rows [OF rows, of ?M] True by (simp add: chain_head_def)
    then show ?thesis
      using sl unfolding ee self_linked_def by (simp add: chain_linked_append chain_head_def)
  qed
  with ep' rows' verify_current_valid [OF ep', of x] show ?thesis by simp
qed

lemma ledger_head_entries:
  "latest_ledger_hash st ns = chain_head le_entry_hash None (ledger_for_namespace st ns)"
  unfolding latest_ledger_hash_def ledger_head_def ledger_for_namespace_def
  by (cases "sort_key le_id (filter (\<lambda>e. le_namespace e = normalize_namespace ns) (s_ledger st))"
      rule: rev_cases) simp_all

lemma lit_eq: "lit s = lit t \<longleftrightarrow> s = t"
proof -
  have "inj (of_char :: char \<Rightarrow> nat)" by (simp add: inj_def)
  then show ?thesis by (simp add: lit_def inj_map_eq_map)
qed

section \<open>A concrete ledger\<close>

text \<open>A printer that shows the integers of a document and an identity digest: enough to run the
  ledger on. \<open>demo_forked\<close> is a ledger with a fork, as concurrent writers left them before the write
  lock.\<close>

definition demo_log :: externals where
  "demo_log = \<lparr>sha256 = (\<lambda>bs. bs),
     json_text = (\<lambda>j. case j of
         JObj kvs \<Rightarrow> concat (map (\<lambda>(k, v). case v of JInt i \<Rightarrow> dec_int i | _ \<Rightarrow> []) kvs)
       | _ \<Rightarrow> []),
     parse_str_list = (\<lambda>_. Inr [])\<rparr>"

definition demo_entry :: "int \<Rightarrow> string \<Rightarrow> ledger_entry" where
  "demo_entry i h = \<lparr>le_id = i, le_namespace = lit ''a'', le_memory_id = Some 1, le_op_type = lit ''write'',
     le_actor = None, le_prev_hash = None, le_entry_hash = lit h, le_payload = [], le_created_at = 3\<rparr>"

definition demo_forked :: store where
  "demo_forked = empty_store\<lparr>s_ledger := [demo_entry 1 ''h1'', demo_entry 2 ''h2'']\<rparr>"

definition demo_migrate :: "store \<times> (app_error + migration_result)" where
  "demo_migrate = apply_ledger_migration demo_log 5 (build_ledger_evidence demo_log demo_forked (lit ''a''))
     (lit ''op'') demo_forked"

definition demo_migrated :: store where
  "demo_migrated = fst demo_migrate"

definition demo_extended :: store where
  "demo_extended = fst (append_ledger demo_log 6 (lit ''a'') (Some 1) (lit ''write'') None [] demo_migrated)"

lemma demo_hash:
  "ledger_entry_hash demo_log p (lit ''a'') None op act pay 5 = lit ''35''"
  "ledger_entry_hash demo_log p (lit ''a'') (Some 1) op act pay 6 = lit ''3631''"
  by (simp_all add: ledger_entry_hash_def ledger_payload_def json_obj_def demo_log_def sha256_hex_def
      j_opt_int_def j_opt_str_def as_bytes_def utf8_char_def hex_digit_def rust_str split: option.split)

lemma demo_namespace_a: "normalize_namespace (lit ''a'') = lit ''a''"
  by (simp add: normalize_namespace_def rust_str)

lemma demo_forked_rows: "ledger_rows_ok (s_ledger demo_forked)"
  by (simp add: demo_forked_def demo_entry_def ledger_rows_ok_def lit_def)

lemma demo_forked_entries: "ledger_for_namespace demo_forked (lit ''a'') = [demo_entry 1 ''h1'', demo_entry 2 ''h2'']"
  using demo_forked_rows
  by (simp add: ledger_for_namespace_rows ns_entries_def demo_forked_def demo_entry_def demo_namespace_a)

lemma demo_migrate_result: "\<exists>r. demo_migrate = (demo_migrated, Inr r)"
proof -
  have "ledger_head demo_forked (lit ''a'') = Some (lit ''h2'')"
    using ledger_head_entries [of demo_forked "lit ''a''"] demo_forked_entries
    by (simp add: latest_ledger_hash_def demo_namespace_a chain_head_def demo_entry_def)
  moreover have "latest_ledger_epoch demo_forked (lit ''a'') = None"
    by (simp add: latest_epoch_None demo_forked_def empty_store_def)
  ultimately have "is_ok (snd demo_migrate)"
    unfolding demo_migrate_def apply_ledger_migration_def Let_def build_evidence_fields demo_forked_entries
      append_ledger_migration_def demo_namespace_a
    by (simp add: commit_def append_ledger_on_connection_def Let_def demo_hash record_epoch_on_connection_def
        demo_entry_def demo_forked_def empty_store_def lit_eq)
  then show ?thesis by (cases "snd demo_migrate") (auto simp: demo_migrated_def prod_eq_iff)
qed

text \<open>An append that finds a fresh hash succeeds.\<close>

lemma append_ledger_ok:
  assumes "\<forall>e \<in> set (s_ledger st). le_entry_hash e \<noteq>
      ledger_entry_hash x (ledger_head st (normalize_namespace ns)) (normalize_namespace ns) mid op actor payload now"
  shows "append_ledger_with_expected_head x now ns mid op actor payload None st =
    (st\<lparr>s_ledger := s_ledger st @ [appended_entry x now (normalize_namespace ns) mid op actor payload st]\<rparr>,
     Inr (ledger_entry_hash x (ledger_head st (normalize_namespace ns)) (normalize_namespace ns) mid op actor payload now))"
  using assms unfolding append_ledger_with_expected_head_def commit_Inr append_ledger_on_connection_Inr
  by simp

lemma demo_migrated_ledger:
  "\<exists>g. s_ledger demo_migrated = s_ledger demo_forked @ [g] \<and> le_entry_hash g = lit ''35'' \<and> le_id g = 3"
proof -
  obtain r where r: "demo_migrate = (demo_migrated, Inr r)" using demo_migrate_result by blast
  from apply_migration_append(3) [OF r [unfolded demo_migrate_def]] obtain payload ph ev n where
    "append_ledger_migration demo_log 5 (lit ''a'') (lit ''op'') payload ph ev n demo_forked = (demo_migrated, Inr (mr_epoch r))"
    by (auto simp: build_evidence_fields demo_namespace_a)
  from append_migration_result(1) [OF this] show ?thesis
    by (simp add: demo_namespace_a appended_entry_def demo_hash next_ledger_id_def demo_forked_def demo_entry_def)
qed

lemma demo_extended_append:
  "\<exists>h. append_ledger_with_expected_head demo_log 6 (lit ''a'') (Some 1) (lit ''write'') None [] None demo_migrated
     = (demo_extended, Inr h)"
proof -
  obtain g where g: "s_ledger demo_migrated = s_ledger demo_forked @ [g]" "le_entry_hash g = lit ''35''"
    using demo_migrated_ledger by blast
  have "\<forall>e \<in> set (s_ledger demo_migrated). le_entry_hash e \<noteq>
      ledger_entry_hash demo_log (ledger_head demo_migrated (normalize_namespace (lit ''a''))) (normalize_namespace (lit ''a''))
        (Some 1) (lit ''write'') None [] 6"
    unfolding g(1) demo_namespace_a demo_hash
    by (simp add: g(2) demo_forked_def demo_entry_def lit_eq)
  from append_ledger_ok [OF this] show ?thesis
    unfolding demo_extended_def append_ledger_def by simp
qed

lemma demo_epoch_state:
  "\<exists>ep g. latest_ledger_epoch demo_migrated (lit ''a'') = Some ep \<and> ledger_rows_ok (s_ledger demo_migrated)
    \<and> epoch_entries ep demo_migrated (lit ''a'') = [g] \<and> entry_derived_hash demo_log g = le_entry_hash g
    \<and> ep_start_entry_id ep = le_id g"
proof -
  obtain r where r: "demo_migrate = (demo_migrated, Inr r)" using demo_migrate_result by blast
  from migration_epoch_state [OF demo_forked_rows r [unfolded demo_migrate_def]] show ?thesis by blast
qed

lemma demo_migrated_valid: "cv_valid (verify_current_ledger_epoch demo_log demo_migrated (lit ''a''))"
proof -
  obtain ep g where "latest_ledger_epoch demo_migrated (lit ''a'') = Some ep"
    "epoch_entries ep demo_migrated (lit ''a'') = [g]" "entry_derived_hash demo_log g = le_entry_hash g"
    using demo_epoch_state by blast
  then show ?thesis by (simp add: verify_current_valid self_linked_def)
qed

section \<open>Properties\<close>

text \<open>C5: However appends and migrations interleave over the namespaces (refused and conflicting
  ones included), the ledger of every namespace verifies from its first entry, and has no fork:
  no two entries name the same predecessor.\<close>

theorem ledger_interleaving_valid:
  assumes "ledger_reachable x st"
  shows "cv_valid (verify_ledger_chain x st ns)
    \<and> cv_first_broken_id (verify_ledger_chain x st ns) = None
    \<and> distinct (map le_prev_hash (ledger_for_namespace st ns))"
proof -
  have inv: "ledger_inv x st" using assms by (rule ledger_reachable_inv)
  then have rows: "ledger_rows_ok (s_ledger st)" by (simp add: ledger_inv_def)
  have l: "linked_from x None (ledger_for_namespace st ns)"
    using inv by (simp add: ledger_for_namespace_rows [OF rows] ledger_inv_def)
  have "distinct (map le_entry_hash (ledger_for_namespace st ns))"
    using rows ledger_rows_ok_filter [OF rows]
    by (simp add: ledger_for_namespace_rows ns_entries_def ledger_rows_ok_def)
  with ledger_chain.linked_no_fork [OF l] show ?thesis
    using l by (simp add: verify_ledger_chain_def first_broken_None [symmetric])
qed

definition demo_two_namespaces :: store where
  "demo_two_namespaces = fst (append_ledger_with_expected_head demo_log 6 (lit ''a'') (Some 1) (lit ''write'') None [] None
     (fst (append_ledger_with_expected_head demo_log 5 (lit ''b'') None (lit ''write'') None [] None empty_store)))"

theorem ledger_interleaving_valid_witness:
  "cv_valid (verify_ledger_chain demo_log demo_two_namespaces (lit ''a''))"
proof -
  have "ledger_reachable demo_log empty_store" by (rule ledger_reachable.start) (simp add: empty_store_def)
  then have "ledger_reachable demo_log demo_two_namespaces"
    unfolding demo_two_namespaces_def by (intro ledger_reachable.append [OF _ prod.collapse [symmetric]])
  then show ?thesis by (rule ledger_interleaving_valid [THEN conjunct1])
qed



text \<open>C7: Cutting off the newest entries is not detected: every prefix of a ledger that verifies
  verifies too, although the documentation of the chain check says that any deletion of history
  breaks it.\<close>

theorem ledger_truncation_verifies:
  assumes "ledger_rows_ok (s_ledger st)" and "cv_valid (verify_ledger_chain x st ns)"
  shows "cv_valid (verify_ledger_chain x (st\<lparr>s_ledger := take n (s_ledger st)\<rparr>) ns)"
proof -
  let ?P = "\<lambda>e. le_namespace e = normalize_namespace ns"
  have rows': "ledger_rows_ok (take n (s_ledger st))"
    using assms(1) by (simp add: ledger_rows_ok_def take_map [symmetric] sorted_wrt_take distinct_take)
  have "ns_entries st (normalize_namespace ns)
      = filter ?P (take n (s_ledger st)) @ filter ?P (drop n (s_ledger st))"
    unfolding ns_entries_def filter_append [symmetric] by simp
  with assms show ?thesis
    using rows' ledger_chain.linked_prefix
    by (fastforce simp: verify_ledger_chain_valid ledger_for_namespace_rows ns_entries_def)
qed

theorem ledger_truncation_verifies_witness:
  "cv_valid (verify_ledger_chain demo_log (demo_two_namespaces\<lparr>s_ledger := take 1 (s_ledger demo_two_namespaces)\<rparr>) (lit ''a''))"
proof -
  have "ledger_inv demo_log empty_store" by (rule ledger_inv_empty) (simp add: empty_store_def)
  then have "ledger_inv demo_log demo_two_namespaces"
    unfolding demo_two_namespaces_def by (intro append_ledger_inv [OF _ prod.collapse [symmetric]])
  then have "ledger_rows_ok (s_ledger demo_two_namespaces)"
    "cv_valid (verify_ledger_chain demo_log demo_two_namespaces (lit ''a''))"
    by (simp_all add: verify_ledger_chain_valid ledger_for_namespace_rows ledger_inv_def)
  then show ?thesis by (rule ledger_truncation_verifies)
qed

text \<open>C8: Migrating a ledger with its own evidence bundle, whatever forks it has, leaves every old
  entry in place, adds one genesis entry, and the new current epoch verifies; the report counts
  the historical entries and the fork points of the bundle.\<close>

theorem migration_verifies:
  assumes "ledger_rows_ok (s_ledger st)" and "length (ledger_for_namespace st ns) < 2 ^ 63"
    and ap: "apply_ledger_migration x now (build_ledger_evidence x st ns) actor st = (st', Inr r)"
  defines "v \<equiv> verify_current_ledger_epoch x st' ns"
  shows "cv_valid v \<and> cv_entries v = 1 \<and> cv_historical_entries v = length (ledger_for_namespace st ns)
    \<and> cv_historical_fork_points v = mr_fork_points r
    \<and> (\<exists>g. ledger_for_namespace st' ns = ledger_for_namespace st ns @ [g])"
proof -
  obtain g where g: "latest_ledger_epoch st' ns = Some (mr_epoch r)"
    "ledger_for_namespace st' ns = ledger_for_namespace st ns @ [g]" "epoch_entries (mr_epoch r) st' ns = [g]"
    "entry_derived_hash x g = le_entry_hash g"
    "ep_prior_entry_count (mr_epoch r) = int (length (ledger_for_namespace st ns))"
    using migration_epoch_state [OF assms(1) ap] by blast
  have "cv_valid v" unfolding v_def verify_current_valid [OF g(1)] by (simp add: self_linked_def g)
  with g show ?thesis
    using verify_current_fields [OF g(1), of x] usize_of_length [OF assms(2)] apply_migration_append(4) [OF ap]
    by (simp add: v_def build_evidence_fields)
qed

theorem migration_verifies_witness:
  "cv_historical_entries (verify_current_ledger_epoch demo_log demo_migrated (lit ''a'')) = 2"
proof -
  obtain r where "demo_migrate = (demo_migrated, Inr r)" using demo_migrate_result by blast
  from migration_verifies [OF demo_forked_rows _ this [unfolded demo_migrate_def]] show ?thesis
    by (simp add: demo_forked_entries)
qed

text \<open>C9: After a migration, appends (to any namespace, accepted or refused) keep the current epoch
  and keep it verifying.\<close>

theorem epoch_stays_valid:
  assumes "ledger_rows_ok (s_ledger st)" and "latest_ledger_epoch st ns = Some ep"
    and "cv_valid (verify_current_ledger_epoch x st ns)"
    and "append_ledger x now m mid op actor payload st = (st', r)"
  shows "latest_ledger_epoch st' ns = Some ep \<and> cv_valid (verify_current_ledger_epoch x st' ns)"
  using append_keeps_epoch_valid [OF assms(1-3) assms(4) [unfolded append_ledger_def]] by blast

theorem epoch_stays_valid_witness:
  "cv_valid (verify_current_ledger_epoch demo_log demo_extended (lit ''a''))"
proof -
  obtain h where "append_ledger demo_log 6 (lit ''a'') (Some 1) (lit ''write'') None [] demo_migrated = (demo_extended, Inr h)"
    using demo_extended_append by (auto simp: append_ledger_def)
  then show ?thesis using epoch_stays_valid demo_migrated_valid demo_epoch_state by blast
qed

text \<open>C10: A bundle built before someone else appended is refused and changes nothing: the migration
  compares the head it recorded with the head it finds under the write lock.\<close>

theorem stale_migration_refused:
  assumes "le_entry_hash (last (lev_entries (eb_evidence b))) \<noteq> h"
    and "ledger_head st (normalize_namespace (lev_namespace (eb_evidence b))) = Some h"
  shows "\<exists>e. apply_ledger_migration x now b actor st = (st, Inl e)"
proof -
  have "append_ledger_migration x now (lev_namespace (eb_evidence b)) actor p
      (le_entry_hash (last (lev_entries (eb_evidence b)))) ev n st
    = (st, Inl (Msg (lit ''ledger head changed while migration evidence was being prepared'')))" for p ev n
    using assms by (simp add: append_ledger_migration_def Let_def commit_def append_ledger_on_connection_def)
  then show ?thesis by (simp add: apply_ledger_migration_def Let_def)
qed

theorem stale_migration_refused_witness:
  "\<exists>e. apply_ledger_migration demo_log 7 (build_ledger_evidence demo_log demo_forked (lit ''a'')) (lit ''op'') demo_migrated
     = (demo_migrated, Inl e)"
proof -
  obtain g where g: "s_ledger demo_migrated = s_ledger demo_forked @ [g]" "le_entry_hash g = lit ''35''"
    using demo_migrated_ledger by blast
  obtain r g' where r: "ledger_for_namespace demo_migrated (lit ''a'') = ledger_for_namespace demo_forked (lit ''a'') @ [g']"
    "demo_migrate = (demo_migrated, Inr r)" "latest_ledger_epoch demo_migrated (lit ''a'') = Some (mr_epoch r)"
    using demo_migrate_result migration_epoch_state [OF demo_forked_rows, of demo_log 5 "lit ''a''" "lit ''op''"]
    unfolding demo_migrate_def by blast
  have "g' \<in> set (ledger_for_namespace demo_migrated (lit ''a''))" using r(1) by simp
  then have "g' \<in> set (s_ledger demo_migrated)" by (simp add: ledger_for_namespace_def)
  have "g' = g"
  proof (rule ccontr)
    assume "g' \<noteq> g"
    with \<open>g' \<in> set (s_ledger demo_migrated)\<close> g(1) have "g' \<in> set (s_ledger demo_forked)" by simp
    then have "g' \<in> set (ledger_for_namespace demo_forked (lit ''a''))"
      by (simp only: demo_forked_entries) (simp add: demo_forked_def)
    then have "\<not> distinct (map le_id (ledger_for_namespace demo_migrated (lit ''a'')))"
      unfolding r(1) by simp
    moreover have "ledger_rows_ok (s_ledger demo_migrated)" using demo_epoch_state by blast
    ultimately show False
      using strict_sorted_iff [of "map le_id (ledger_for_namespace demo_migrated (lit ''a''))"]
        ledger_rows_ok_filter
      by (simp add: ledger_for_namespace_rows ns_entries_def ledger_rows_ok_def)
  qed
  with r(1) g(2) have "ledger_head demo_migrated (lit ''a'') = Some (lit ''35'')"
    using ledger_head_entries [of demo_migrated "lit ''a''"]
    by (simp add: latest_ledger_hash_def demo_namespace_a)
  then show ?thesis
    by (intro stale_migration_refused [where h = "lit ''35''"])
       (simp_all add: build_evidence_fields demo_forked_entries demo_namespace_a demo_entry_def lit_eq)
qed

text \<open>C11: The epoch check does not compare its first entry with the recorded genesis: when the
  current epoch verifies and has a second entry, deleting the genesis row leaves a ledger whose
  current epoch still verifies.\<close>

theorem epoch_genesis_deletion_verifies:
  assumes rows: "ledger_rows_ok (s_ledger st)" and ep: "latest_ledger_epoch st ns = Some ep"
    and valid: "cv_valid (verify_current_ledger_epoch x st ns)"
    and two: "cv_entries (verify_current_ledger_epoch x st ns) \<ge> 2"
    and gen: "le_id (hd (epoch_entries ep st ns)) = ep_start_entry_id ep"
  shows "cv_valid (verify_current_ledger_epoch x
    (st\<lparr>s_ledger := filter (\<lambda>e. le_id e \<noteq> ep_start_entry_id ep) (s_ledger st)\<rparr>) ns)"
proof -
  let ?st = "st\<lparr>s_ledger := filter (\<lambda>e. le_id e \<noteq> ep_start_entry_id ep) (s_ledger st)\<rparr>"
  have ep': "latest_ledger_epoch ?st ns = Some ep" using ep by (simp add: latest_ledger_epoch_def)
  obtain g f es where es: "epoch_entries ep st ns = g # f # es"
    using two verify_current_fields(1) [OF ep, of x]
    by (cases "epoch_entries ep st ns"; cases "tl (epoch_entries ep st ns)") auto
  have "sorted_wrt (<) (map le_id (g # f # es))"
    using ledger_rows_ok_filter [OF ledger_rows_ok_filter [OF rows]] es rows
    by (metis (no_types, lifting) epoch_entries_def ledger_for_namespace_rows ledger_rows_ok_def ns_entries_def)
  then have ids: "\<forall>e \<in> set (f # es). le_id e \<noteq> ep_start_entry_id ep" using gen es by auto
  have "epoch_entries ep ?st ns = filter (\<lambda>e. le_id e \<noteq> ep_start_entry_id ep) (epoch_entries ep st ns)"
    using rows ledger_rows_ok_filter [OF rows]
    by (simp add: epoch_entries_def ledger_for_namespace_rows ns_entries_def conj_ac)
  also have "\<dots> = f # es" using ids gen by (simp add: es filter_id_conv)
  finally have e': "epoch_entries ep ?st ns = f # es" .
  from valid have "self_linked x (g # f # es)" by (simp add: verify_current_valid [OF ep] es)
  then have "self_linked x (f # es)" by (simp add: self_linked_def)
  then show ?thesis unfolding verify_current_valid [OF ep'] e' .
qed

theorem epoch_genesis_deletion_verifies_witness:
  "\<exists>i. cv_valid (verify_current_ledger_epoch demo_log
     (demo_extended\<lparr>s_ledger := filter (\<lambda>e. le_id e \<noteq> i) (s_ledger demo_extended)\<rparr>) (lit ''a''))"
proof -
  obtain ep g where m: "latest_ledger_epoch demo_migrated (lit ''a'') = Some ep" "ledger_rows_ok (s_ledger demo_migrated)"
    "epoch_entries ep demo_migrated (lit ''a'') = [g]" "ep_start_entry_id ep = le_id g"
    using demo_epoch_state by blast
  obtain h where h: "append_ledger_with_expected_head demo_log 6 (lit ''a'') (Some 1) (lit ''write'') None [] None demo_migrated
     = (demo_extended, Inr h)" using demo_extended_append by blast
  note k = append_keeps_epoch_valid [OF m(2,1) demo_migrated_valid h]
  let ?r = "appended_entry demo_log 6 (lit ''a'') (Some 1) (lit ''write'') None [] demo_migrated"
  have st: "s_ledger demo_extended = s_ledger demo_migrated @ [?r]"
  proof -
    have "demo_extended = demo_migrated\<lparr>s_ledger := s_ledger demo_migrated @ [?r]\<rparr>"
      using h unfolding append_ledger_with_expected_head_def commit_Inr append_ledger_on_connection_Inr demo_namespace_a
      by blast
    from arg_cong [OF this, of s_ledger] show ?thesis by simp
  qed
  have "g \<in> set (epoch_entries ep demo_migrated (lit ''a''))" using m(3) by simp
  then have "g \<in> set (s_ledger demo_migrated)" by (simp add: epoch_entries_def ledger_for_namespace_def)
  then have "ep_start_entry_id ep \<le> next_ledger_id demo_migrated"
    using next_ledger_id_fresh [of g demo_migrated] m(4) by simp
  then have ee: "epoch_entries ep demo_extended (lit ''a'') = [g, ?r]"
    using m k by (simp add: epoch_entries_def ledger_for_namespace_rows ns_entries_def st demo_namespace_a)
  have "cv_entries (verify_current_ledger_epoch demo_log demo_extended (lit ''a'')) \<ge> 2"
    using verify_current_fields(1) [of demo_extended "lit ''a''" ep demo_log] k ee by simp
  from epoch_genesis_deletion_verifies [OF _ _ _ this] k ee m(4) show ?thesis by fastforce
qed

end
