(* ===== verification/Policy_Store.thy ===== *)
theory Policy_Store
  imports Ledger
begin

text \<open>
  The stored influence policies (\<open>src/src/db.rs\<close>, called by \<open>influence.rs\<close>): reading a memory's policy,
  with the implicit permissive default, and the compare-and-swap update that writes the row, the
  ledger entry and the trigger effects in one transaction.
\<close>

section \<open>Reading\<close>

text \<open>\<open>influence_policy_record_from_row\<close>, on the row of \<open>memory_meta\<close> and the one of
  \<open>memory_influence_policy\<close> that the left join may miss.\<close>

definition policy_record_from_row ::
  "externals \<Rightarrow> meta_row \<Rightarrow> policy_row option \<Rightarrow> app_error + memory_policy_record" where
  "policy_record_from_row x mm row =
     (case row of
        None \<Rightarrow> Inr \<lparr>pr_memory_id = mt_memory_id mm, pr_namespace = mt_namespace mm,
          pr_policy = default_policy, pr_explicit = False, pr_updated_by = None, pr_updated_at = None\<rparr>
      | Some p \<Rightarrow>
          try_then (map_err Policy (policy_from_storage x (pl_stored p))) (\<lambda>policy.
          Inr \<lparr>pr_memory_id = mt_memory_id mm, pr_namespace = mt_namespace mm, pr_policy = policy,
            pr_explicit = True, pr_updated_by = pl_updated_by p, pr_updated_at = Some (pl_updated_at p)\<rparr>))"

definition policy_row_of :: "store \<Rightarrow> int \<Rightarrow> policy_row option" where
  "policy_row_of st memory_id = t_get pl_memory_id memory_id (s_policies st)"

text \<open>\<open>INFLUENCE_POLICY_SELECT\<close> with its two parameters.\<close>

definition policy_select :: "store \<Rightarrow> int \<Rightarrow> str \<Rightarrow> (meta_row \<times> policy_row option) option" where
  "policy_select st memory_id namespace =
     (case get_meta st memory_id of
        Some mm \<Rightarrow> if mt_namespace mm = namespace then Some (mm, policy_row_of st memory_id) else None
      | None \<Rightarrow> None)"

definition influence_policy_record_on_connection ::
  "externals \<Rightarrow> int \<Rightarrow> str \<Rightarrow> store \<Rightarrow> app_error + memory_policy_record" where
  "influence_policy_record_on_connection x memory_id namespace st =
     (case policy_select st memory_id namespace of
        None \<Rightarrow> Inl (Policy (MemoryNotFound memory_id namespace))
      | Some (mm, row) \<Rightarrow> policy_record_from_row x mm row)"

definition get_memory_influence_policy ::
  "externals \<Rightarrow> store \<Rightarrow> int \<Rightarrow> str \<Rightarrow> app_error + memory_policy_record" where
  "get_memory_influence_policy x st memory_id namespace =
     (let namespace = normalize_namespace namespace in
      case policy_select st memory_id namespace of
        None \<Rightarrow> Inl (Policy (MemoryNotFound memory_id namespace))
      | Some (mm, row) \<Rightarrow> policy_record_from_row x mm row)"

definition get_explicit_memory_influence_policy ::
  "externals \<Rightarrow> store \<Rightarrow> int \<Rightarrow> str \<Rightarrow> app_error + memory_policy_record option" where
  "get_explicit_memory_influence_policy x st memory_id namespace =
     try_then (get_memory_influence_policy x st memory_id namespace) (\<lambda>record.
     Inr (if pr_explicit record then Some record else None))"

section \<open>Updating\<close>

text \<open>A policy inside a \<open>json!\<close> document.\<close>

definition policy_json :: "memory_influence_policy \<Rightarrow> json" where
  "policy_json p = json_obj [
     (''version'', JInt (int (p_version p))),
     (''state'', JStr (influence_state_str (p_state p))),
     (''allowed_task_types'', JArr (map JStr (p_allowed p))),
     (''denied_task_types'', JArr (map JStr (p_denied p))),
     (''maximum_action_risk'', JStr (action_risk_str (p_max_risk p))),
     (''requires_original_source'', JBool (p_requires_source p)),
     (''requires_human_confirmation'', JBool (p_requires_confirmation p)),
     (''maximum_derivation_depth'', j_opt_int (map_option int (p_max_depth p)))]"

definition policy_update_payload ::
  "policy_principal \<Rightarrow> policy_mutation_request \<Rightarrow> memory_influence_policy \<Rightarrow> memory_influence_policy
     \<Rightarrow> int \<Rightarrow> json" where
  "policy_update_payload prin request current next_policy version = json_obj [
     (''actor'', JStr (pr_actor prin)),
     (''authority'', JStr (pr_authority prin)),
     (''new_policy'', policy_json next_policy),
     (''new_version'', JInt version),
     (''old_policy'', policy_json current),
     (''old_version'', JInt (int (pm_expected_version request))),
     (''reason'', JStr (trim (pm_reason request))),
     (''request_id'', JStr (trim (pm_request_id request)))]"

definition put_policy_row :: "int \<Rightarrow> policy_row \<Rightarrow> store \<Rightarrow> store" where
  "put_policy_row now row st = touch now (pl_memory_id row)
     (st\<lparr>s_policies := t_upsert pl_memory_id row (\<lambda>_. row) (s_policies st)\<rparr>)"

definition update_policy_on_connection ::
  "externals \<Rightarrow> int \<Rightarrow> int \<Rightarrow> str \<Rightarrow> policy_principal \<Rightarrow> policy_mutation_request \<Rightarrow> store
     \<Rightarrow> app_error + store \<times> memory_policy_record"
where
  "update_policy_on_connection x now memory_id namespace prin request st =
     try_then (influence_policy_record_on_connection x memory_id namespace st) (\<lambda>current_record.
     let current = pr_policy current_record in
     if p_version current \<noteq> pm_expected_version request
     then Inl (Policy (VersionConflict (pm_expected_version request) (p_version current)))
     else try_then (map_err Policy (patch_apply (pm_patch request) current)) (\<lambda>next_policy.
     if next_policy = current then Inl (Policy NoChange)
     else try_then (ok_or (Policy (InvalidPolicy (lit ''policy version overflow'')))
       (checked_add_u64 (p_version current) 1)) (\<lambda>next_version.
     let next_policy = next_policy\<lparr>p_version := next_version\<rparr> in
     try_then (ok_or (Policy (InvalidPolicy (lit ''policy version exceeds storage range'')))
       (i64_of_u64 next_version)) (\<lambda>version.
     let st1 = put_policy_row now \<lparr>pl_memory_id = memory_id,
           pl_stored = policy_to_storage x next_policy,
           pl_updated_by = Some (pr_actor prin), pl_updated_at = now\<rparr> st;
         payload = json_text x (policy_update_payload prin request current next_policy version)
     in try_then (append_ledger_on_connection x now namespace (Some memory_id)
          (lit ''influence_policy_update'') (Some (pr_actor prin)) payload None st1) (\<lambda>(st2, _).
     Inr (st2, \<lparr>pr_memory_id = memory_id, pr_namespace = namespace, pr_policy = next_policy,
       pr_explicit = True, pr_updated_by = Some (pr_actor prin), pr_updated_at = Some now\<rparr>))))))"

definition update_memory_influence_policy ::
  "externals \<Rightarrow> int \<Rightarrow> int \<Rightarrow> str \<Rightarrow> policy_principal \<Rightarrow> policy_mutation_request \<Rightarrow> store
     \<Rightarrow> store \<times> (app_error + memory_policy_record)"
where
  "update_memory_influence_policy x now memory_id namespace prin request st =
     then_invalidate x
       (case validate_policy_mutation request of
          Inl e \<Rightarrow> (st, Inl (Policy e))
        | Inr _ \<Rightarrow> commit (update_policy_on_connection x now memory_id (normalize_namespace namespace)
            prin request) st)"

text \<open>The entry points of \<open>influence.rs\<close>.\<close>

definition get_memory_policy ::
  "externals \<Rightarrow> store \<Rightarrow> policy_principal \<Rightarrow> int \<Rightarrow> str \<Rightarrow> app_error + memory_policy_record" where
  "get_memory_policy x st prin memory_id namespace =
     try_then (map_err Policy (authorize prin POLICY_READ_CAPABILITY namespace)) (\<lambda>_.
     get_memory_influence_policy x st memory_id namespace)"

definition update_memory_policy ::
  "externals \<Rightarrow> int \<Rightarrow> policy_principal \<Rightarrow> int \<Rightarrow> str \<Rightarrow> policy_mutation_request \<Rightarrow> store
     \<Rightarrow> store \<times> (app_error + memory_policy_record)"
where
  "update_memory_policy x now prin memory_id namespace request st =
     (case authorize prin POLICY_WRITE_CAPABILITY namespace of
        Inl e \<Rightarrow> (st, Inl (Policy e))
      | Inr _ \<Rightarrow>
          (case validate_policy_mutation request of
             Inl e \<Rightarrow> (st, Inl (Policy e))
           | Inr _ \<Rightarrow> update_memory_influence_policy x now memory_id namespace prin request st))"

section \<open>Lemmas\<close>

definition stored_version :: "int \<Rightarrow> str \<Rightarrow> store \<Rightarrow> nat option" where
  "stored_version memory_id namespace st =
     (case policy_select st memory_id namespace of
        None \<Rightarrow> None
      | Some (_, None) \<Rightarrow> Some 1
      | Some (_, Some p) \<Rightarrow> u64_of_i64 (sp_version (pl_stored p)))"

lemma policy_from_storage_version:
  "policy_from_storage x s = Inr p \<Longrightarrow> u64_of_i64 (sp_version s) = Some (p_version p)"
  unfolding policy_from_storage_def by (auto simp: try_conv split: if_splits)

lemma policy_record_version:
  assumes "influence_policy_record_on_connection x m ns st = Inr r"
  shows "stored_version m ns st = Some (p_version (pr_policy r))"
  using assms policy_from_storage_version
  by (auto simp: influence_policy_record_on_connection_def stored_version_def policy_record_from_row_def
      default_policy_def try_conv split: option.splits)

lemma policy_record_wf:
  assumes "influence_policy_record_on_connection x m ns st = Inr r"
  shows "wf_policy (pr_policy r)"
  using assms policy_from_storage_wf
  by (auto simp: influence_policy_record_on_connection_def policy_record_from_row_def try_conv
      split: option.splits)

lemma put_policy_row_simps [simp]:
  "get_meta (put_policy_row now row st) m = get_meta st m"
  "s_ledger (put_policy_row now row st) = s_ledger st"
  "s_revision (put_policy_row now row st) = s_revision st + 1"
  "policy_row_of (put_policy_row now row st) (pl_memory_id row) = Some row"
  by (simp_all add: put_policy_row_def get_meta_def policy_row_of_def t_get_upsert split: option.split)

lemma policy_select_invalidate [simp]:
  "policy_select (invalidate_generated_files x st) m ns = policy_select st m ns"
  by (simp add: policy_select_def get_meta_def policy_row_of_def split: option.split)

text \<open>Everything a successful update did.\<close>

lemma update_policy_on_connection_Inr:
  assumes "update_policy_on_connection x now m ns prin request st = Inr (st', r)"
  obtains current q where
    "influence_policy_record_on_connection x m ns st = Inr current"
    "p_version (pr_policy current) = pm_expected_version request"
    "patch_apply (pm_patch request) (pr_policy current) = Inr q" "q \<noteq> pr_policy current"
    "pr_policy r = q\<lparr>p_version := Suc (pm_expected_version request)\<rparr>"
    "i64_of_u64 (Suc (pm_expected_version request)) \<noteq> None"
    "r = \<lparr>pr_memory_id = m, pr_namespace = ns, pr_policy = pr_policy r, pr_explicit = True,
       pr_updated_by = Some (pr_actor prin), pr_updated_at = Some now\<rparr>"
    "\<exists>e. st' = (put_policy_row now \<lparr>pl_memory_id = m, pl_stored = policy_to_storage x (pr_policy r),
       pl_updated_by = Some (pr_actor prin), pl_updated_at = now\<rparr> st)\<lparr>s_ledger := s_ledger st @ [e]\<rparr>
     \<and> le_namespace e = ns \<and> le_memory_id e = Some m \<and> le_op_type e = lit ''influence_policy_update''
     \<and> le_actor e = Some (pr_actor prin)
     \<and> le_payload e = json_text x (policy_update_payload prin request (pr_policy current) (pr_policy r)
         (int (Suc (pm_expected_version request))))"
proof -
  from assms obtain current q v w h where
    cur: "influence_policy_record_on_connection x m ns st = Inr current"
    and ver: "p_version (pr_policy current) = pm_expected_version request"
    and patch: "patch_apply (pm_patch request) (pr_policy current) = Inr q" "q \<noteq> pr_policy current"
    and v: "checked_add_u64 (p_version (pr_policy current)) 1 = Some v" "i64_of_u64 v = Some w"
    and ap: "append_ledger_on_connection x now ns (Some m) (lit ''influence_policy_update'')
         (Some (pr_actor prin)) (json_text x (policy_update_payload prin request (pr_policy current)
           (q\<lparr>p_version := v\<rparr>) w)) None
         (put_policy_row now \<lparr>pl_memory_id = m, pl_stored = policy_to_storage x (q\<lparr>p_version := v\<rparr>),
           pl_updated_by = Some (pr_actor prin), pl_updated_at = now\<rparr> st) = Inr (st', h)"
    and r: "r = \<lparr>pr_memory_id = m, pr_namespace = ns, pr_policy = q\<lparr>p_version := v\<rparr>, pr_explicit = True,
       pr_updated_by = Some (pr_actor prin), pr_updated_at = Some now\<rparr>"
    unfolding update_policy_on_connection_def Let_def
    by (auto simp: try_then_Inr split: if_split_asm prod.splits)
  from v ver have vw: "v = Suc (pm_expected_version request)" "w = int v"
    by (auto simp: checked_add_u64_def i64_of_u64_def split: if_splits)
  show thesis
  proof (rule that [OF cur ver patch])
    show "\<exists>e. st' = (put_policy_row now \<lparr>pl_memory_id = m, pl_stored = policy_to_storage x (pr_policy r),
       pl_updated_by = Some (pr_actor prin), pl_updated_at = now\<rparr> st)\<lparr>s_ledger := s_ledger st @ [e]\<rparr>
     \<and> le_namespace e = ns \<and> le_memory_id e = Some m \<and> le_op_type e = lit ''influence_policy_update''
     \<and> le_actor e = Some (pr_actor prin)
     \<and> le_payload e = json_text x (policy_update_payload prin request (pr_policy current) (pr_policy r)
         (int (Suc (pm_expected_version request))))"
      using ap unfolding append_ledger_on_connection_Inr by (auto simp: r vw)
  qed (use r vw v in auto)
qed

lemma stored_version_put:
  assumes "policy_select st m ns \<noteq> None" and "pl_memory_id row = m"
  shows "stored_version m ns ((put_policy_row now row st)\<lparr>s_ledger := l\<rparr>)
    = u64_of_i64 (sp_version (pl_stored row))"
  using assms put_policy_row_simps(4) [of now row st]
  by (auto simp: stored_version_def policy_select_def get_meta_def policy_row_of_def put_policy_row_def
      split: option.splits if_splits)

lemma policy_select_found:
  "influence_policy_record_on_connection x m ns st = Inr r \<Longrightarrow> policy_select st m ns \<noteq> None"
  by (auto simp: influence_policy_record_on_connection_def split: option.splits)

lemma update_policy_versions:
  assumes "update_policy_on_connection x now m ns prin request st = Inr (st', r)"
  shows "stored_version m ns st = Some (pm_expected_version request)"
    and "stored_version m ns st' = Some (Suc (pm_expected_version request))"
proof -
  from assms show "stored_version m ns st = Some (pm_expected_version request)"
    by (rule update_policy_on_connection_Inr) (use policy_record_version in fastforce)
  from assms show "stored_version m ns st' = Some (Suc (pm_expected_version request))"
    by (rule update_policy_on_connection_Inr)
       (auto simp: stored_version_put policy_select_found policy_to_storage_def u64_of_i64_def)
qed

text \<open>The update transaction is an optimistic compare-and-swap. A request made against version \<open>e\<close>
  is a clock value, a principal and a request with that expectation.\<close>

definition update_policy_cas where
  "update_policy_cas x m ns e c st =
     (case c of (now, prin, request) \<Rightarrow>
        update_policy_on_connection x now m ns prin (request\<lparr>pm_expected_version := e\<rparr>) st)"

interpretation policy_cas: versioned_store "stored_version m ns" "update_policy_cas x m ns" for x m ns
proof
  fix st :: store and e :: nat and c :: "int \<times> policy_principal \<times> policy_mutation_request"
  assume stale: "stored_version m ns st \<noteq> Some e"
  obtain now prin request where c: "c = (now, prin, request)" by (cases c)
  show "\<exists>er. update_policy_cas x m ns e c st = Inl er"
  proof (cases "update_policy_cas x m ns e c st")
    case (Inr sr)
    with c update_policy_versions(1) [of x now m ns prin "request\<lparr>pm_expected_version := e\<rparr>" st "fst sr" "snd sr"]
      stale show ?thesis by (simp add: update_policy_cas_def)
  qed simp
next
  fix e c st st' r
  assume "update_policy_cas x m ns e c st = Inr (st', r)"
  then show "stored_version m ns st' = Some (Suc e)"
    using update_policy_versions(2) by (fastforce simp: update_policy_cas_def split: prod.splits)
qed

text \<open>A stored policy reads back.\<close>

lemma update_policy_reads_back:
  assumes "json_list_roundtrip x"
    and "update_policy_on_connection x now m ns prin request st = Inr (st', r)"
    and "\<And>d. pp_max_depth (pm_patch request) = Some (Some d) \<Longrightarrow> d \<le> u32_max"
  shows "influence_policy_record_on_connection x m ns st' = Inr r"
proof -
  from assms(2) obtain current q e where
    cur: "influence_policy_record_on_connection x m ns st = Inr current"
    and pa: "patch_apply (pm_patch request) (pr_policy current) = Inr q"
    and rq: "pr_policy r = q\<lparr>p_version := Suc (pm_expected_version request)\<rparr>"
    and r: "r = \<lparr>pr_memory_id = m, pr_namespace = ns, pr_policy = pr_policy r, pr_explicit = True,
       pr_updated_by = Some (pr_actor prin), pr_updated_at = Some now\<rparr>"
    and st': "st' = (put_policy_row now \<lparr>pl_memory_id = m, pl_stored = policy_to_storage x (pr_policy r),
       pl_updated_by = Some (pr_actor prin), pl_updated_at = now\<rparr> st)\<lparr>s_ledger := s_ledger st @ [e]\<rparr>"
    by (rule update_policy_on_connection_Inr) blast
  have "wf_policy q" using patch_apply_wf [OF policy_record_wf [OF cur] pa assms(3)] by blast
  then have "wf_policy (pr_policy r)" by (simp add: rq wf_policy_def)
  from policy_storage_round_trip [OF assms(1) this]
  have rt: "policy_from_storage x (policy_to_storage x (pr_policy r)) = Inr (pr_policy r)" .
  obtain mm where mm: "get_meta st m = Some mm" "mt_namespace mm = ns"
    using policy_select_found [OF cur] by (auto simp: policy_select_def split: option.splits if_splits)
  define row where "row = \<lparr>pl_memory_id = m, pl_stored = policy_to_storage x (pr_policy r),
       pl_updated_by = Some (pr_actor prin), pl_updated_at = now\<rparr>"
  have "policy_row_of (put_policy_row now row st) m = Some row"
    using put_policy_row_simps(4) [of now row st] by (simp add: row_def)
  moreover have "mt_memory_id mm = m" using mm t_get_SomeD by (fastforce simp: get_meta_def)
  ultimately have sel: "policy_select st' m ns = Some (mm, Some row)"
    using mm unfolding st' row_def [symmetric]
    by (simp add: policy_select_def get_meta_def policy_row_of_def put_policy_row_def)
  have "influence_policy_record_on_connection x m ns st'
      = Inr \<lparr>pr_memory_id = m, pr_namespace = ns, pr_policy = pr_policy r, pr_explicit = True,
       pr_updated_by = Some (pr_actor prin), pr_updated_at = Some now\<rparr>"
    using \<open>mt_memory_id mm = m\<close> mm
    by (simp add: influence_policy_record_on_connection_def sel policy_record_from_row_def row_def rt)
  with r show ?thesis by simp
qed

lemma update_memory_policy_Inr:
  assumes "update_memory_policy x now prin m ns request st = (st', Inr r)"
  shows "authorize prin POLICY_WRITE_CAPABILITY ns = Inr ()"
    and "validate_policy_mutation request = Inr ()"
    and "\<exists>st1. update_policy_on_connection x now m (normalize_namespace ns) prin request st = Inr (st1, r)
      \<and> st' = invalidate_generated_files x st1"
  using assms
  by (auto simp: update_memory_policy_def update_memory_influence_policy_def then_invalidate_def commit_Inr
      split: sum.splits prod.splits)

lemma update_memory_policy_Inl:
  assumes "update_memory_policy x now prin m ns request st = (st', Inl e)"
  shows "st' = st \<or> st' = invalidate_generated_files x st"
  using assms
  by (auto simp: update_memory_policy_def update_memory_influence_policy_def then_invalidate_def commit_Inl
      split: sum.splits prod.splits)

section \<open>A concrete store\<close>

text \<open>An environment that prints lists of strings so that they read back, and a store with one
  memory.\<close>

definition demo_sql :: externals where
  "demo_sql = \<lparr>sha256 = (\<lambda>bs. bs),
     json_text = (\<lambda>j. case j of
         JArr xs \<Rightarrow> concat (map (\<lambda>v. case v of JStr s \<Rightarrow> map Suc s @ [0] | _ \<Rightarrow> []) xs)
       | JObj kvs \<Rightarrow> concat (map (\<lambda>(k, v). case v of JInt i \<Rightarrow> dec_int i | _ \<Rightarrow> []) kvs)
       | _ \<Rightarrow> []),
     parse_str_list = (\<lambda>s. Inr (map (map (\<lambda>c. c - 1)) (butlast (split_on (\<lambda>c. c = 0) s))))\<rparr>"

lemma demo_sql_round_trip: "json_list_roundtrip demo_sql"
proof -
  have "map (map (\<lambda>c. c - 1)) (butlast (split_on (\<lambda>c. c = 0)
      (concat (map (\<lambda>v. case v of JStr s \<Rightarrow> map Suc s @ [0] | _ \<Rightarrow> []) (map JStr xs))))) = xs" for xs
    by (induction xs) (simp_all add: split_on_append map_idI)
  then show ?thesis by (simp add: json_list_roundtrip_def demo_sql_def)
qed

definition demo_policy_store :: store where
  "demo_policy_store = empty_store\<lparr>s_meta := [new_meta_row 1 3],
     s_context_files := [\<lparr>cf_project = lit ''/p'', cf_content_hash = hex [7], cf_dirty = 0\<rparr>],
     s_disk := [lit ''/p'' \<mapsto> [7]]\<rparr>"

definition demo_policy_request :: policy_mutation_request where
  "demo_policy_request = \<lparr>pm_expected_version = 1,
     pm_patch = \<lparr>pp_state = Some Quarantined, pp_allowed = None, pp_denied = None, pp_max_risk = None,
       pp_requires_source = None, pp_requires_confirmation = None, pp_max_depth = None\<rparr>,
     pm_reason = lit ''audit'', pm_request_id = lit ''r1''\<rparr>"

lemma demo_local: "normalize_namespace (lit ''local'') = lit ''local''"
  by (simp add: normalize_namespace_def rust_str)

lemma demo_policy_valid: "validate_policy_mutation demo_policy_request = Inr ()"
  by (simp add: validate_policy_mutation_def demo_policy_request_def validate_bounded_text_def
      patch_is_empty_def rust_str char_len_def MAX_REASON_BYTES_def MAX_REQUEST_ID_BYTES_def)

lemma demo_policy_authorized:
  "authorize (local_operator (lit ''op'')) POLICY_WRITE_CAPABILITY (lit ''local'') = Inr ()"
  by (simp add: authorize_ok local_operator_def)

lemma demo_policy_update:
  "is_ok (update_policy_on_connection demo_sql 9 1 (lit ''local'') (local_operator (lit ''op''))
     demo_policy_request demo_policy_store)"
  by (simp add: update_policy_on_connection_def influence_policy_record_on_connection_def policy_select_def
      get_meta_def demo_policy_store_def empty_store_def t_get_Cons new_meta_row_def DEFAULT_NAMESPACE_def
      policy_row_of_def policy_record_from_row_def default_policy_def demo_policy_request_def patch_apply_def
      patch_is_empty_def checked_add_u64_def i64_of_u64_def int_limits append_ledger_on_connection_def Let_def)

lemma demo_policy_updated:
  "\<exists>st1 r. update_policy_on_connection demo_sql 9 1 (lit ''local'') (local_operator (lit ''op''))
     demo_policy_request demo_policy_store = Inr (st1, r)"
  using demo_policy_update
  by (cases "update_policy_on_connection demo_sql 9 1 (lit ''local'') (local_operator (lit ''op''))
     demo_policy_request demo_policy_store") auto

lemma demo_policy_committed:
  "\<exists>st1 r. update_memory_policy demo_sql 9 (local_operator (lit ''op'')) 1 (lit ''local'') demo_policy_request
     demo_policy_store = (st1, Inr r)"
  using demo_policy_updated
  by (auto simp: update_memory_policy_def demo_policy_authorized demo_policy_valid
      update_memory_influence_policy_def demo_local then_invalidate_def commit_def)

section \<open>Properties\<close>

text \<open>C12: No policy update is lost. Take any queue of update requests for one memory, each made by
  some principal who saw some version, run in the order in which they got the write lock:
  the accepted ones were made against consecutive versions starting at the stored one, so at
  most one request against any version is accepted, and the stored version counts them.\<close>

theorem policy_updates_serialize:
  assumes "stored_version m ns st = Some v"
    and "versioned_store.run (update_policy_cas x m ns) queue st = (st', accepted)"
  shows "stored_version m ns st' = Some (v + length accepted) \<and> accepted = [v..<v + length accepted]
    \<and> distinct accepted"
proof -
  obtain v' where "stored_version m ns st' = Some v'" "accepted = [v..<v']" "v \<le> v'"
    using policy_cas.run_versions [OF assms] by blast
  then show ?thesis by simp
qed

theorem policy_updates_serialize_witness:
  "let q = (9, local_operator (lit ''op''), demo_policy_request) in
   snd (versioned_store.run (update_policy_cas demo_sql 1 (lit ''local'')) [(1, q), (1, q)] demo_policy_store) = [1]"
proof -
  let ?q = "(9, local_operator (lit ''op''), demo_policy_request)"
  obtain st' acc where run: "versioned_store.run (update_policy_cas demo_sql 1 (lit ''local'')) [(1, ?q), (1, ?q)]
      demo_policy_store = (st', acc)" by (cases "versioned_store.run (update_policy_cas demo_sql 1 (lit ''local''))
        [(1, ?q), (1, ?q)] demo_policy_store")
  have e: "demo_policy_request\<lparr>pm_expected_version := 1\<rparr> = demo_policy_request"
    by (simp add: demo_policy_request_def)
  obtain st1 r where u: "update_policy_cas demo_sql 1 (lit ''local'') 1 ?q demo_policy_store = Inr (st1, r)"
    using demo_policy_updated e by (auto simp: update_policy_cas_def)
  then obtain er where "update_policy_cas demo_sql 1 (lit ''local'') 1 ?q st1 = Inl er"
    using policy_cas.update_repeated by blast
  with u run have "acc \<noteq> []" by (auto split: prod.splits)
  moreover have "stored_version 1 (lit ''local'') demo_policy_store = Some 1"
    using u policy_cas.update_expected by blast
  from policy_updates_serialize [OF this run] have "acc = [1..<1 + length acc]" by blast
  moreover have "length acc \<le> 1"
    using u \<open>update_policy_cas demo_sql 1 (lit ''local'') 1 ?q st1 = Inl er\<close> run by (auto split: prod.splits)
  ultimately show ?thesis unfolding Let_def run by (cases acc) (auto simp: upt_conv_Cons)
qed





end
