(* ===== verification/Egress.thy ===== *)
theory Egress
  imports Policy_Store "HOL-Library.Multiset"
begin

text \<open>
  \<open>src/src/egress.rs\<close>: the deterministic evaluator of an influence policy against a purpose, and the
  gate that every content-bearing surface passes its memories through; with the parts of
  \<open>db.rs\<close> it uses (the policy contexts, the replay nonces, the decision log) and the
  configuration it reads (\<open>config.rs\<close>). Timing metrics are not modelled.
\<close>

section \<open>Configuration\<close>

datatype influence_mode = Advisory | Strict

datatype contradiction_mode = Annotate | RequireSource | RequireConfirmation | DenyContradicted

record influence_config =
  ic_enabled :: bool
  ic_mode :: influence_mode
  ic_require_purpose :: bool
  ic_require_trusted_attestation :: bool
  ic_record_denials :: bool
  ic_fail_closed_on_policy_error :: bool
  ic_confirmation_replay_protection :: bool
  ic_high_risk_requires_source :: bool
  ic_critical_risk_requires_confirmation :: bool
  ic_contradiction_high_risk_mode :: contradiction_mode
  ic_attestation_key_file :: "str option"
  ic_confirmation_key_file :: "str option"

definition default_influence_config :: influence_config where
  "default_influence_config = \<lparr>
     ic_enabled = False, ic_mode = Advisory, ic_require_purpose = False,
     ic_require_trusted_attestation = False, ic_record_denials = True,
     ic_fail_closed_on_policy_error = True, ic_confirmation_replay_protection = True,
     ic_high_risk_requires_source = False, ic_critical_risk_requires_confirmation = False,
     ic_contradiction_high_risk_mode = Annotate, ic_attestation_key_file = None,
     ic_confirmation_key_file = None\<rparr>"

section \<open>Contexts and decisions\<close>

definition EVALUATOR_VERSION :: str where "EVALUATOR_VERSION = lit ''influence-v1''"

record candidate_context =
  cx_record :: memory_policy_record
  cx_derivation_depth :: nat
  cx_evidence_root_count :: nat
  cx_record_hash :: "str option"
  cx_unresolved_sets :: "str list"

datatype decision_kind =
  Allow | AllowReasoningOnly | RequireOriginalSource | RequireHumanConfirmation | Deny

record consumer_capabilities =
  cc_reasoning_only_channel :: bool
  cc_exact_source_expansion :: bool
  cc_denial_diagnostics :: bool

record influence_decision =
  id_decision_id :: str
  id_request_id :: str
  id_memory_id :: int
  id_decision :: decision_kind
  id_reason_codes :: "str list"
  id_policy :: memory_influence_policy
  id_purpose :: verified_purpose
  id_policy_version :: nat
  id_evaluator_version :: str
  id_config_hash :: str
  id_evidence_root_count :: nat
  id_derivation_depth :: nat
  id_contradiction_set_ids :: "str list"

datatype purpose_channel = ChannelLocal str | ChannelRemote "str option"

record gate_result =
  gr_authorized :: "memory list"
  gr_advisory :: "memory list"
  gr_source_required :: "memory list"
  gr_denied_memory_ids :: "int list"
  gr_decisions :: "influence_decision list"

section \<open>Evaluation\<close>

text \<open>\<open>evaluate\<close> threads the decision and the reasons through its stages; each is one function on
  the pair.\<close>

type_synonym verdict = "decision_kind \<times> str list"

definition action_use :: "verified_purpose \<Rightarrow> bool" where
  "action_use purpose \<longleftrightarrow> vp_intended_action purpose \<noteq> None \<or> vp_action_risk purpose \<noteq> RiskNone"

definition state_reason :: "influence_state \<Rightarrow> str" where
  "state_reason s = (case s of
      Blocked \<Rightarrow> lit ''state_blocked''
    | Quarantined \<Rightarrow> lit ''state_quarantined''
    | Superseded \<Rightarrow> lit ''state_superseded''
    | ReasoningOnly \<Rightarrow> lit ''state_reasoning_only_for_action''
    | ActionRestricted \<Rightarrow> lit ''action_risk_exceeded''
    | Eligible \<Rightarrow> lit ''policy_denied'')"

definition stage_state ::
  "memory_influence_policy \<Rightarrow> verified_purpose \<Rightarrow> consumer_capabilities \<Rightarrow> verdict" where
  "stage_state policy purpose consumer =
     (case state_disposition policy (if action_use purpose then UseAction else UseReasoning)
        (vp_action_risk purpose) of
        DispAllow \<Rightarrow> (Allow, [])
      | DispAllowReasoningOnly \<Rightarrow>
          (if cc_reasoning_only_channel consumer then (AllowReasoningOnly, [])
           else (Deny, [lit ''consumer_cannot_enforce_reasoning_only'']))
      | DispDeny \<Rightarrow> (Deny, [state_reason (p_state policy)]))"

definition stage_task :: "memory_influence_policy \<Rightarrow> verified_purpose \<Rightarrow> verdict \<Rightarrow> verdict" where
  "stage_task policy purpose v = (case v of (decision, reasons) \<Rightarrow>
     if decision \<noteq> Deny
     then
       (if vp_task_type purpose \<in> set (p_denied policy)
        then (Deny, reasons @ [lit ''task_explicitly_denied''])
        else if p_allowed policy \<noteq> [] \<and> vp_task_type purpose \<notin> set (p_allowed policy)
        then (Deny, reasons @ [lit ''task_not_allowed''])
        else (decision, reasons))
     else (decision, reasons))"

definition stage_deny :: "bool \<Rightarrow> str \<Rightarrow> verdict \<Rightarrow> verdict" where
  "stage_deny guard reason v = (case v of (decision, reasons) \<Rightarrow>
     if decision \<noteq> Deny \<and> guard then (Deny, reasons @ [reason]) else (decision, reasons))"

definition stage_source :: "bool \<Rightarrow> consumer_capabilities \<Rightarrow> verdict \<Rightarrow> verdict" where
  "stage_source source_required consumer v = (case v of (decision, reasons) \<Rightarrow>
     if decision \<noteq> Deny \<and> source_required
     then (if cc_exact_source_expansion consumer then RequireOriginalSource else Deny,
           reasons @ [lit ''source_expansion_required''])
     else (decision, reasons))"

definition stage_confirmation :: "bool \<Rightarrow> bool \<Rightarrow> verdict \<Rightarrow> verdict" where
  "stage_confirmation confirmation_required confirmation_valid v = (case v of (decision, reasons) \<Rightarrow>
     if decision \<noteq> Deny \<and> confirmation_required \<and> \<not> confirmation_valid
     then (RequireHumanConfirmation, reasons @ [lit ''human_confirmation_required''])
     else (decision, reasons))"

definition has_high_risk_contradiction :: "candidate_context \<Rightarrow> verified_purpose \<Rightarrow> bool" where
  "has_high_risk_contradiction candidate purpose \<longleftrightarrow>
     cx_unresolved_sets candidate \<noteq> [] \<and> vp_action_risk purpose \<ge> RiskHigh"

definition source_required ::
  "candidate_context \<Rightarrow> verified_purpose \<Rightarrow> influence_config \<Rightarrow> bool" where
  "source_required candidate purpose config \<longleftrightarrow>
     p_requires_source (pr_policy (cx_record candidate))
     \<or> vp_require_source_backing purpose
     \<or> (ic_high_risk_requires_source config \<and> vp_action_risk purpose \<ge> RiskHigh)
     \<or> (has_high_risk_contradiction candidate purpose
        \<and> ic_contradiction_high_risk_mode config = RequireSource)"

definition confirmation_required ::
  "candidate_context \<Rightarrow> verified_purpose \<Rightarrow> influence_config \<Rightarrow> bool" where
  "confirmation_required candidate purpose config \<longleftrightarrow>
     p_requires_confirmation (pr_policy (cx_record candidate))
     \<or> (ic_critical_risk_requires_confirmation config \<and> vp_action_risk purpose = RiskCritical)
     \<or> (has_high_risk_contradiction candidate purpose
        \<and> ic_contradiction_high_risk_mode config = RequireConfirmation)"

definition evaluate_verdict ::
  "candidate_context \<Rightarrow> verified_purpose \<Rightarrow> consumer_capabilities \<Rightarrow> bool \<Rightarrow> influence_config \<Rightarrow> verdict"
where
  "evaluate_verdict candidate purpose consumer confirmation_valid config =
     (let policy = pr_policy (cx_record candidate) in
      stage_confirmation (confirmation_required candidate purpose config) confirmation_valid
      (stage_source (source_required candidate purpose config) consumer
      (stage_deny (has_high_risk_contradiction candidate purpose
          \<and> ic_contradiction_high_risk_mode config = DenyContradicted) (lit ''unresolved_contradiction'')
      (stage_deny (case p_max_depth policy of
            Some maximum \<Rightarrow> cx_derivation_depth candidate > maximum | None \<Rightarrow> False)
          (lit ''derivation_depth_exceeded'')
      (stage_deny (vp_action_risk purpose > p_max_risk policy) (lit ''action_risk_exceeded'')
      (stage_task policy purpose
      (stage_state policy purpose consumer)))))))"

fun mode_str :: "influence_mode \<Rightarrow> str" where
  "mode_str Advisory = lit ''advisory''"
| "mode_str Strict = lit ''strict''"

fun contradiction_mode_str :: "contradiction_mode \<Rightarrow> str" where
  "contradiction_mode_str Annotate = lit ''annotate''"
| "contradiction_mode_str RequireSource = lit ''require_source''"
| "contradiction_mode_str RequireConfirmation = lit ''require_confirmation''"
| "contradiction_mode_str DenyContradicted = lit ''deny''"

definition config_json :: "influence_config \<Rightarrow> json" where
  "config_json c = JObj [
     (lit ''enabled'', JBool (ic_enabled c)),
     (lit ''mode'', JStr (mode_str (ic_mode c))),
     (lit ''require_purpose'', JBool (ic_require_purpose c)),
     (lit ''require_trusted_attestation'', JBool (ic_require_trusted_attestation c)),
     (lit ''record_denials'', JBool (ic_record_denials c)),
     (lit ''fail_closed_on_policy_error'', JBool (ic_fail_closed_on_policy_error c)),
     (lit ''confirmation_replay_protection'', JBool (ic_confirmation_replay_protection c)),
     (lit ''high_risk_requires_source'', JBool (ic_high_risk_requires_source c)),
     (lit ''critical_risk_requires_confirmation'', JBool (ic_critical_risk_requires_confirmation c)),
     (lit ''contradiction_high_risk_mode'', JStr (contradiction_mode_str (ic_contradiction_high_risk_mode c))),
     (lit ''attestation_key_file'', j_opt_str (ic_attestation_key_file c)),
     (lit ''confirmation_key_file'', j_opt_str (ic_confirmation_key_file c))]"

definition config_hash :: "externals \<Rightarrow> influence_config \<Rightarrow> str" where
  "config_hash x config = sha256_hex x (as_bytes (json_text x (config_json config)))"

definition hash_sensitive_value :: "externals \<Rightarrow> str \<Rightarrow> str" where
  "hash_sensitive_value x value = sha256_hex x (as_bytes value)"

definition evaluate ::
  "externals \<Rightarrow> str \<Rightarrow> candidate_context \<Rightarrow> verified_purpose \<Rightarrow> consumer_capabilities \<Rightarrow> bool
     \<Rightarrow> influence_config \<Rightarrow> influence_decision"
where
  "evaluate x decision_uuid candidate purpose consumer confirmation_valid config =
     (case evaluate_verdict candidate purpose consumer confirmation_valid config of
        (decision, reasons) \<Rightarrow> \<lparr>
          id_decision_id = decision_uuid,
          id_request_id = vp_request_id purpose,
          id_memory_id = pr_memory_id (cx_record candidate),
          id_decision = decision,
          id_reason_codes = reasons,
          id_policy = pr_policy (cx_record candidate),
          id_purpose = purpose,
          id_policy_version = p_version (pr_policy (cx_record candidate)),
          id_evaluator_version = EVALUATOR_VERSION,
          id_config_hash = config_hash x config,
          id_evidence_root_count = cx_evidence_root_count candidate,
          id_derivation_depth = cx_derivation_depth candidate,
          id_contradiction_set_ids = cx_unresolved_sets candidate\<rparr>)"

section \<open>What the gate reads and writes\<close>

text \<open>\<open>influence_contexts_for\<close>: the rows of the namespace whose id is asked for, each with its
  policy; the unresolved contradiction sets are attached in a second query, ordered by id.\<close>

definition context_of_row :: "externals \<Rightarrow> store \<Rightarrow> meta_row \<Rightarrow> app_error + candidate_context" where
  "context_of_row x st mm =
     try_then (policy_record_from_row x mm (policy_row_of st (mt_memory_id mm))) (\<lambda>record.
     Inr \<lparr>cx_record = record,
       cx_derivation_depth = (case u32_of_i64 (mt_derivation_depth mm) of Some d \<Rightarrow> d | None \<Rightarrow> u32_max),
       cx_evidence_root_count = length (remdups (map er_root_id
          (filter (\<lambda>r. er_memory_id r = mt_memory_id mm) (s_roots st)))),
       cx_record_hash = mt_record_hash mm,
       cx_unresolved_sets = []\<rparr>)"

definition unresolved_sets_of :: "store \<Rightarrow> str \<Rightarrow> int \<Rightarrow> str list" where
  "unresolved_sets_of st namespace memory_id = sort (map cm_set_id (filter (\<lambda>m.
     cm_memory_id m = memory_id \<and> (\<exists>cs \<in> set (s_sets st). cs_id cs = cm_set_id m
       \<and> cs_namespace cs = namespace \<and> cs_status cs = lit ''unresolved'')) (s_members st)))"

definition influence_contexts_for ::
  "externals \<Rightarrow> store \<Rightarrow> int list \<Rightarrow> str \<Rightarrow> app_error + (int \<Rightarrow> candidate_context option)" where
  "influence_contexts_for x st memory_ids namespace =
     (if memory_ids = [] then Inr (\<lambda>_. None)
      else
        let namespace = normalize_namespace namespace;
            rows = filter (\<lambda>mm. mt_namespace mm = namespace \<and> mt_memory_id mm \<in> set memory_ids) (s_meta st)
        in try_then (try_map (context_of_row x st) rows) (\<lambda>contexts.
           Inr (\<lambda>memory_id. map_option
             (\<lambda>c. c\<lparr>cx_unresolved_sets := unresolved_sets_of st namespace memory_id\<rparr>)
             (t_get (\<lambda>c. pr_memory_id (cx_record c)) memory_id contexts))))"

definition nonce_key :: "nonce_row \<Rightarrow> str \<times> str \<times> str" where
  "nonce_key r = (nn_token_kind r, nn_issuer r, nn_nonce r)"

text \<open>\<open>claim_influence_nonce\<close>: two statements, each committed on its own; the expired rows go
  even when the claim is then refused.\<close>

definition claim_influence_nonce ::
  "int \<Rightarrow> str \<Rightarrow> str \<Rightarrow> str \<Rightarrow> str \<Rightarrow> int \<Rightarrow> store \<Rightarrow> store \<times> (app_error + unit)" where
  "claim_influence_nonce now token_kind issuer nonce request_id expires_at st =
     (let live = t_delete (\<lambda>r. nn_expires_at r < now) (s_nonces st) in
      case t_get nonce_key (token_kind, issuer, nonce) live of
        Some _ \<Rightarrow> (st\<lparr>s_nonces := live\<rparr>, Inl (Msg (token_kind @ lit ''_replayed'')))
      | None \<Rightarrow> (st\<lparr>s_nonces := live @ [\<lparr>nn_token_kind = token_kind, nn_issuer = issuer,
          nn_nonce = nonce, nn_request_id = request_id, nn_expires_at = expires_at,
          nn_consumed_at = now\<rparr>]\<rparr>, Inr ()))"

fun authority_str :: "purpose_authority \<Rightarrow> str" where
  "authority_str SelfDeclared = lit ''self_declared''"
| "authority_str AuthenticatedAgent = lit ''authenticated_agent''"
| "authority_str TrustedRuntime = lit ''trusted_runtime''"
| "authority_str LocalOperator = lit ''local_operator''"

fun decision_str :: "decision_kind \<Rightarrow> str" where
  "decision_str Allow = lit ''allow''"
| "decision_str AllowReasoningOnly = lit ''allow_reasoning_only''"
| "decision_str RequireOriginalSource = lit ''require_original_source''"
| "decision_str RequireHumanConfirmation = lit ''require_human_confirmation''"
| "decision_str Deny = lit ''deny''"

definition decision_event ::
  "externals \<Rightarrow> int \<Rightarrow> str \<Rightarrow> (int \<Rightarrow> candidate_context option) \<Rightarrow> str option \<Rightarrow> influence_decision
     \<Rightarrow> int \<Rightarrow> event_row"
where
  "decision_event x now event_uuid contexts query_hash d policy_version = \<lparr>
     ev_id = event_uuid, ev_decision_id = id_decision_id d, ev_request_id = id_request_id d,
     ev_memory_id = id_memory_id d, ev_project = vp_project (id_purpose d),
     ev_namespace = vp_namespace (id_purpose d), ev_agent_id = vp_subject_agent_id (id_purpose d),
     ev_purpose_authority = authority_str (vp_authority (id_purpose d)),
     ev_attestation_id = vp_attestation_id (id_purpose d),
     ev_confirmation_receipt_id = vp_confirmation_receipt_id (id_purpose d),
     ev_task_type = vp_task_type (id_purpose d),
     ev_intended_action_hash = map_option (\<lambda>v. sha256_hex x (as_bytes v)) (vp_intended_action (id_purpose d)),
     ev_action_risk = action_risk_str (vp_action_risk (id_purpose d)),
     ev_decision = decision_str (id_decision d),
     ev_reason_codes = json_text x (JArr (map JStr (id_reason_codes d))),
     ev_policy_version = policy_version, ev_evaluator_version = id_evaluator_version d,
     ev_config_hash = id_config_hash d, ev_purpose_hash = purpose_hash x (id_purpose d),
     ev_query_hash = query_hash,
     ev_memory_record_hash = (case contexts (id_memory_id d) of
         None \<Rightarrow> None | Some c \<Rightarrow> cx_record_hash c),
     ev_created_at = now\<rparr>"

text \<open>The loop of \<open>record_influence_decisions\<close>; the UUID of each event comes with its decision.\<close>

fun record_influence_decisions ::
  "externals \<Rightarrow> int \<Rightarrow> (str \<times> influence_decision) list \<Rightarrow> (int \<Rightarrow> candidate_context option) \<Rightarrow> bool
     \<Rightarrow> str option \<Rightarrow> store \<Rightarrow> store \<times> (app_error + unit)"
where
  "record_influence_decisions x now [] contexts record_denials query_hash st = (st, Inr ())"
| "record_influence_decisions x now ((event_uuid, d) # ds) contexts record_denials query_hash st =
     (if \<not> record_denials \<and> id_decision d \<in> {Deny, RequireHumanConfirmation}
      then record_influence_decisions x now ds contexts record_denials query_hash st
      else case i64_of_u64 (id_policy_version d) of
          None \<Rightarrow> (st, Inl (Msg (lit ''out of range integral type conversion attempted'')))
        | Some version \<Rightarrow>
            (if \<exists>e \<in> set (s_events st). ev_decision_id e = id_decision_id d
             then record_influence_decisions x now ds contexts record_denials query_hash st
             else if \<exists>e \<in> set (s_events st). ev_id e = event_uuid
             then (st, Inl (DbConstraint (lit ''memory_influence_events.id'')))
             else record_influence_decisions x now ds contexts record_denials query_hash
               (st\<lparr>s_events := s_events st @ [decision_event x now event_uuid contexts query_hash d version]\<rparr>)))"

section \<open>The gate\<close>

text \<open>What the gate asks of its surroundings: the clock, fresh UUIDs (one for a legacy purpose and
  two for each memory) and the contents of the key files.\<close>

record gate_env =
  ge_now :: int
  ge_legacy_uuid :: str
  ge_decision_uuid :: "nat \<Rightarrow> str"
  ge_event_uuid :: "nat \<Rightarrow> str"
  ge_read_file :: "str \<Rightarrow> byte list option"

definition legacy_purpose :: "str \<Rightarrow> str \<Rightarrow> str \<Rightarrow> recall_purpose" where
  "legacy_purpose uuid namespace project = \<lparr>
     rp_request_id = uuid, rp_namespace = namespace, rp_project = project,
     rp_task_type = lit ''legacy_recall'', rp_intended_action = None, rp_action_risk = RiskNone,
     rp_require_source_backing = False, rp_purpose_attestation = None,
     rp_confirmation_receipt = None\<rparr>"

definition gate_wire_purpose ::
  "gate_env \<Rightarrow> influence_config \<Rightarrow> str \<Rightarrow> str \<Rightarrow> recall_purpose option \<Rightarrow> app_error + recall_purpose" where
  "gate_wire_purpose env config namespace project supplied =
     (case supplied of
        Some purpose \<Rightarrow> Inr purpose
      | None \<Rightarrow>
          if ic_require_purpose config \<or> ic_mode config = Strict
          then Inl (Msg (lit ''purpose_required''))
          else Inr (legacy_purpose (ge_legacy_uuid env) namespace project))"

definition read_key :: "gate_env \<Rightarrow> str \<Rightarrow> str option \<Rightarrow> app_error + byte list" where
  "read_key env missing path =
     try_then (ok_or (Msg missing) path) (\<lambda>path.
     ok_or (Msg (lit ''No such file or directory'')) (ge_read_file env path))"

definition gate_verify_purpose ::
  "token_env \<Rightarrow> gate_env \<Rightarrow> influence_config \<Rightarrow> purpose_channel \<Rightarrow> recall_purpose
     \<Rightarrow> app_error + verified_purpose \<times> attestation_claims option"
where
  "gate_verify_purpose e env config channel wire =
     (case channel of
        ChannelLocal actor \<Rightarrow>
          try_then (map_err Purpose (local_operator_purpose wire actor (ge_now env))) (\<lambda>v. Inr (v, None))
      | ChannelRemote agent \<Rightarrow>
          if ic_mode config = Strict \<or> ic_require_trusted_attestation config
          then try_then (read_key env (lit ''trusted attestation key file is not configured'')
                 (ic_attestation_key_file config)) (\<lambda>key.
               try_then (map_err Purpose (trusted_runtime_new key)) (\<lambda>key.
               map_err Purpose (trusted_verify e key wire agent (ge_now env))))
          else map_err Purpose (advisory_verify wire agent (ge_now env)))"

definition gate_confirmation ::
  "externals \<Rightarrow> token_env \<Rightarrow> gate_env \<Rightarrow> influence_config \<Rightarrow> recall_purpose \<Rightarrow> verified_purpose
     \<Rightarrow> app_error + confirmation_claims option"
where
  "gate_confirmation x e env config wire verified =
     (case rp_confirmation_receipt wire of
        None \<Rightarrow> Inr None
      | Some token \<Rightarrow>
          try_then (read_key env (lit ''confirmation key file is not configured'')
            (ic_confirmation_key_file config)) (\<lambda>key.
          try_then (map_err Purpose (verify_confirmation x e token key verified (ge_now env))) (\<lambda>claims.
          Inr (Some claims))))"

text \<open>Everything that is checked before the first write.\<close>

definition gate_admit ::
  "externals \<Rightarrow> token_env \<Rightarrow> gate_env \<Rightarrow> influence_config \<Rightarrow> str \<Rightarrow> str \<Rightarrow> recall_purpose option
     \<Rightarrow> purpose_channel
     \<Rightarrow> app_error + verified_purpose \<times> attestation_claims option \<times> confirmation_claims option"
where
  "gate_admit x e env config namespace project supplied channel =
     try_then (gate_wire_purpose env config namespace project supplied) (\<lambda>wire.
     try_then (gate_verify_purpose e env config channel wire) (\<lambda>(verified, attestation).
     if vp_namespace verified \<noteq> normalize_namespace namespace \<or> vp_project verified \<noteq> project
     then Inl (Msg (lit ''purpose_scope_mismatch''))
     else if ic_mode config = Strict \<and> \<not> is_trusted (vp_authority verified)
     then Inl (Msg (lit ''purpose_unattested''))
     else try_then (gate_confirmation x e env config wire verified) (\<lambda>confirmation.
     Inr (case confirmation of
         None \<Rightarrow> verified
       | Some claims \<Rightarrow> verified\<lparr>vp_confirmation_receipt_id := Some (cc_receipt_id claims)\<rparr>,
       attestation, confirmation))))"

definition claim_attestation ::
  "int \<Rightarrow> attestation_claims option \<Rightarrow> store \<Rightarrow> store \<times> (app_error + unit)" where
  "claim_attestation now attestation st =
     (case attestation of
        None \<Rightarrow> (st, Inr ())
      | Some c \<Rightarrow> claim_influence_nonce now (lit ''purpose_attestation'') (ac_issuer c) (ac_nonce c)
          (ac_request_id c) (ac_expires_at c) st)"

definition claim_confirmation ::
  "int \<Rightarrow> influence_config \<Rightarrow> confirmation_claims option \<Rightarrow> store \<Rightarrow> store \<times> (app_error + unit)" where
  "claim_confirmation now config confirmation st =
     (case confirmation of
        None \<Rightarrow> (st, Inr ())
      | Some c \<Rightarrow>
          if cc_single_use c \<or> ic_confirmation_replay_protection config
          then claim_influence_nonce now (lit ''confirmation_receipt'') (cc_issuer c) (cc_nonce c)
            (cc_request_id c) (cc_expires_at c) st
          else (st, Inr ()))"

text \<open>The loop over the memories; \<open>i\<close> numbers them for their UUIDs.\<close>

fun gate_loop ::
  "externals \<Rightarrow> gate_env \<Rightarrow> influence_config \<Rightarrow> (int \<Rightarrow> candidate_context option) \<Rightarrow> verified_purpose
     \<Rightarrow> consumer_capabilities \<Rightarrow> bool \<Rightarrow> nat \<Rightarrow> memory list \<Rightarrow> gate_result \<Rightarrow> gate_result"
where
  "gate_loop x env config contexts verified consumer confirmed i [] result = result"
| "gate_loop x env config contexts verified consumer confirmed i (m # ms) result =
     gate_loop x env config contexts verified consumer confirmed (Suc i) ms
       (case contexts (mem_id m) of
          None \<Rightarrow>
            if ic_fail_closed_on_policy_error config
            then result\<lparr>gr_denied_memory_ids := gr_denied_memory_ids result @ [mem_id m]\<rparr>
            else result\<lparr>gr_authorized := gr_authorized result @ [m]\<rparr>
        | Some context \<Rightarrow>
            let d = evaluate x (ge_decision_uuid env i) context verified consumer confirmed config;
                result = (case id_decision d of
                    Allow \<Rightarrow> result\<lparr>gr_authorized := gr_authorized result @ [m]\<rparr>
                  | AllowReasoningOnly \<Rightarrow> result\<lparr>gr_advisory := gr_advisory result @ [m]\<rparr>
                  | RequireOriginalSource \<Rightarrow> result\<lparr>gr_source_required := gr_source_required result @ [m]\<rparr>
                  | RequireHumanConfirmation \<Rightarrow>
                      result\<lparr>gr_denied_memory_ids := gr_denied_memory_ids result @ [mem_id m]\<rparr>
                  | Deny \<Rightarrow> result\<lparr>gr_denied_memory_ids := gr_denied_memory_ids result @ [mem_id m]\<rparr>)
            in result\<lparr>gr_decisions := gr_decisions result @ [d]\<rparr>)"

definition empty_gate_result :: gate_result where
  "empty_gate_result = \<lparr>gr_authorized = [], gr_advisory = [], gr_source_required = [],
     gr_denied_memory_ids = [], gr_decisions = []\<rparr>"

definition gate_memories_with_query ::
  "externals \<Rightarrow> token_env \<Rightarrow> gate_env \<Rightarrow> memory list \<Rightarrow> str \<Rightarrow> str \<Rightarrow> recall_purpose option
     \<Rightarrow> purpose_channel \<Rightarrow> consumer_capabilities \<Rightarrow> influence_config \<Rightarrow> str option \<Rightarrow> store
     \<Rightarrow> store \<times> (app_error + gate_result)"
where
  "gate_memories_with_query x e env memories namespace project supplied channel consumer config query st =
     (if \<not> ic_enabled config
      then (st, Inr (empty_gate_result\<lparr>gr_authorized := memories\<rparr>))
      else case gate_admit x e env config namespace project supplied channel of
          Inl err \<Rightarrow> (st, Inl err)
        | Inr (verified, attestation, confirmation) \<Rightarrow>
            and_then (claim_attestation (ge_now env) attestation st) (\<lambda>_ st.
            and_then (claim_confirmation (ge_now env) config confirmation st) (\<lambda>_ st.
            and_then (st, influence_contexts_for x st (map mem_id memories) namespace) (\<lambda>contexts st.
            let result = gate_loop x env config contexts verified consumer (confirmation \<noteq> None) 0
                  memories empty_gate_result
            in and_then (record_influence_decisions x (ge_now env)
                 (map (\<lambda>(i, d). (ge_event_uuid env i, d)) (enumerate 0 (gr_decisions result)))
                 contexts (ic_record_denials config) (map_option (hash_sensitive_value x) query) st)
               (\<lambda>_ st. (st, Inr result))))))"

definition gate_memories ::
  "externals \<Rightarrow> token_env \<Rightarrow> gate_env \<Rightarrow> memory list \<Rightarrow> str \<Rightarrow> str \<Rightarrow> recall_purpose option
     \<Rightarrow> purpose_channel \<Rightarrow> consumer_capabilities \<Rightarrow> influence_config \<Rightarrow> store
     \<Rightarrow> store \<times> (app_error + gate_result)"
where
  "gate_memories x e env memories namespace project supplied channel consumer config =
     gate_memories_with_query x e env memories namespace project supplied channel consumer config None"

section \<open>Lemmas\<close>

subsection \<open>The evaluator\<close>

lemma risk_le_none [simp]: "r \<le> RiskNone \<longleftrightarrow> r = RiskNone"
  by (cases r) (simp_all add: risk_order)

lemmas stage_defs = stage_state_def stage_task_def stage_deny_def stage_source_def stage_confirmation_def

text \<open>Every stage keeps a denial.\<close>

lemma stages_keep_deny [simp]:
  "fst (stage_task p q (Deny, rs)) = Deny" "stage_deny b r (Deny, rs) = (Deny, rs)"
  "stage_task p q (Deny, rs) = (Deny, rs)"
  "stage_source b c (Deny, rs) = (Deny, rs)" "stage_confirmation b v (Deny, rs) = (Deny, rs)"
  by (simp_all add: stage_defs)

text \<open>What the state matrix, the task lists, the risk, the derivation depth and the contradiction mode
  let through.\<close>

definition candidate_passes ::
  "candidate_context \<Rightarrow> verified_purpose \<Rightarrow> influence_config \<Rightarrow> bool" where
  "candidate_passes candidate purpose config \<longleftrightarrow>
     (let policy = pr_policy (cx_record candidate) in
      vp_task_type purpose \<notin> set (p_denied policy)
      \<and> (p_allowed policy = [] \<or> vp_task_type purpose \<in> set (p_allowed policy))
      \<and> vp_action_risk purpose \<le> p_max_risk policy
      \<and> (\<forall>maximum. p_max_depth policy = Some maximum \<longrightarrow> cx_derivation_depth candidate \<le> maximum)
      \<and> \<not> (has_high_risk_contradiction candidate purpose
           \<and> ic_contradiction_high_risk_mode config = DenyContradicted))"

definition middle_stages ::
  "candidate_context \<Rightarrow> verified_purpose \<Rightarrow> influence_config \<Rightarrow> verdict \<Rightarrow> verdict" where
  "middle_stages candidate purpose config v =
     (let policy = pr_policy (cx_record candidate) in
      stage_deny (has_high_risk_contradiction candidate purpose
          \<and> ic_contradiction_high_risk_mode config = DenyContradicted) (lit ''unresolved_contradiction'')
      (stage_deny (case p_max_depth policy of
            Some maximum \<Rightarrow> cx_derivation_depth candidate > maximum | None \<Rightarrow> False)
          (lit ''derivation_depth_exceeded'')
      (stage_deny (vp_action_risk purpose > p_max_risk policy) (lit ''action_risk_exceeded'')
      (stage_task policy purpose v))))"

lemma middle_stages_pass:
  "candidate_passes c p g \<Longrightarrow> middle_stages c p g v = v"
  by (cases v) (auto simp: candidate_passes_def middle_stages_def stage_defs Let_def split: option.split)

lemma middle_stages_block:
  "\<not> candidate_passes c p g \<Longrightarrow> d \<noteq> Deny \<Longrightarrow> \<exists>r. middle_stages c p g (d, rs) = (Deny, rs @ [r])"
  by (auto simp: candidate_passes_def middle_stages_def stage_defs Let_def not_le split: option.splits)

lemma middle_stages_deny [simp]: "middle_stages c p g (Deny, rs) = (Deny, rs)"
  by (simp add: middle_stages_def Let_def)

lemma evaluate_verdict_stages:
  "evaluate_verdict c p k ok g =
     stage_confirmation (confirmation_required c p g) ok
       (stage_source (source_required c p g) k
         (middle_stages c p g (stage_state (pr_policy (cx_record c)) p k)))"
  by (simp add: evaluate_verdict_def middle_stages_def Let_def)

text \<open>The disposition of the state matrix for the purpose, and the verdict in closed form.\<close>

definition purpose_disposition :: "candidate_context \<Rightarrow> verified_purpose \<Rightarrow> state_disposition" where
  "purpose_disposition c p = state_disposition (pr_policy (cx_record c))
     (if action_use p then UseAction else UseReasoning) (vp_action_risk p)"

lemma stage_state_cases:
  "stage_state (pr_policy (cx_record c)) p k =
    (case purpose_disposition c p of
       DispAllow \<Rightarrow> (Allow, [])
     | DispAllowReasoningOnly \<Rightarrow>
         (if cc_reasoning_only_channel k then (AllowReasoningOnly, [])
          else (Deny, [lit ''consumer_cannot_enforce_reasoning_only'']))
     | DispDeny \<Rightarrow> (Deny, [state_reason (p_state (pr_policy (cx_record c)))]))"
  by (simp add: stage_state_def purpose_disposition_def)

lemma evaluate_verdict_closed:
  "fst (evaluate_verdict c p k ok g) =
    (if purpose_disposition c p = DispDeny
        \<or> (purpose_disposition c p = DispAllowReasoningOnly \<and> \<not> cc_reasoning_only_channel k)
        \<or> \<not> candidate_passes c p g
        \<or> (source_required c p g \<and> \<not> cc_exact_source_expansion k)
     then Deny
     else if confirmation_required c p g \<and> \<not> ok then RequireHumanConfirmation
     else if source_required c p g then RequireOriginalSource
     else if purpose_disposition c p = DispAllow then Allow else AllowReasoningOnly)"
proof (cases "candidate_passes c p g")
  case True
  show ?thesis
    unfolding evaluate_verdict_stages middle_stages_pass [OF True] stage_state_cases
    using True by (cases "purpose_disposition c p") (auto simp: stage_source_def stage_confirmation_def)
next
  case False
  then show ?thesis
    unfolding evaluate_verdict_stages stage_state_cases
    using middle_stages_block [OF False, of Allow "[]"] middle_stages_block [OF False, of AllowReasoningOnly "[]"]
    by (cases "purpose_disposition c p") auto
qed

lemma evaluate_reasons:
  "snd (evaluate_verdict c p k ok g) = [] \<longleftrightarrow>
     fst (evaluate_verdict c p k ok g) \<in> {Allow, AllowReasoningOnly}"
proof (cases "candidate_passes c p g")
  case True
  show ?thesis
    unfolding evaluate_verdict_stages middle_stages_pass [OF True] stage_state_cases
    by (cases "purpose_disposition c p") (auto simp: stage_source_def stage_confirmation_def)
next
  case False
  then show ?thesis
    unfolding evaluate_verdict_stages stage_state_cases
    using middle_stages_block [OF False, of Allow "[]"] middle_stages_block [OF False, of AllowReasoningOnly "[]"]
    by (cases "purpose_disposition c p") auto
qed

lemma evaluate_fields:
  "id_decision (evaluate x u c p k ok g) = fst (evaluate_verdict c p k ok g)"
  "id_reason_codes (evaluate x u c p k ok g) = snd (evaluate_verdict c p k ok g)"
  "id_memory_id (evaluate x u c p k ok g) = pr_memory_id (cx_record c)"
  "id_purpose (evaluate x u c p k ok g) = p" "id_decision_id (evaluate x u c p k ok g) = u"
  by (simp_all add: evaluate_def split: prod.split)

subsection \<open>Replay nonces\<close>

text \<open>A claim: the instant, the token kind, the issuer, the nonce, the request and the expiry.\<close>

type_synonym nonce_claim = "int \<times> str \<times> str \<times> str \<times> str \<times> int"

definition nonce_claim_key :: "nonce_claim \<Rightarrow> str \<times> str \<times> str" where
  "nonce_claim_key c = (case c of (now, kind, issuer, nonce, request, expires) \<Rightarrow> (kind, issuer, nonce))"

definition make_nonce_claim :: "nonce_claim \<Rightarrow> store \<Rightarrow> store \<times> (app_error + unit)" where
  "make_nonce_claim c = (case c of (now, kind, issuer, nonce, request, expires) \<Rightarrow>
     claim_influence_nonce now kind issuer nonce request expires)"

text \<open>Claims made no later than \<open>h\<close> for tokens that expire no earlier.\<close>

definition nonce_claim_within :: "int \<Rightarrow> nonce_claim \<Rightarrow> bool" where
  "nonce_claim_within h c = (case c of (now, kind, issuer, nonce, request, expires) \<Rightarrow> now \<le> h \<and> h \<le> expires)"

definition nonce_held :: "int \<Rightarrow> store \<Rightarrow> str \<times> str \<times> str \<Rightarrow> bool" where
  "nonce_held h st k \<longleftrightarrow> (\<exists>r \<in> set (s_nonces st). nonce_key r = k \<and> h \<le> nn_expires_at r)"

lemma claim_nonce_Inr:
  "claim_influence_nonce now kind issuer nonce request expires st = (st', Inr u) \<longleftrightarrow>
     (\<forall>r \<in> set (s_nonces st). nonce_key r = (kind, issuer, nonce) \<longrightarrow> nn_expires_at r < now)
     \<and> st' = st\<lparr>s_nonces := t_delete (\<lambda>r. nn_expires_at r < now) (s_nonces st) @ [\<lparr>nn_token_kind = kind,
         nn_issuer = issuer, nn_nonce = nonce, nn_request_id = request, nn_expires_at = expires,
         nn_consumed_at = now\<rparr>]\<rparr>"
proof -
  have "t_get nonce_key (kind, issuer, nonce) (t_delete (\<lambda>r. nn_expires_at r < now) (s_nonces st)) = None
    \<longleftrightarrow> (\<forall>r \<in> set (s_nonces st). nonce_key r = (kind, issuer, nonce) \<longrightarrow> nn_expires_at r < now)"
    unfolding t_get_None t_delete_def by (auto simp: image_iff)
  then show ?thesis
    unfolding claim_influence_nonce_def Let_def by (auto split: option.split)
qed

lemma claim_nonce_held:
  assumes "nonce_held h st (kind, issuer, nonce)" and "now \<le> h"
  shows "\<exists>st' e. claim_influence_nonce now kind issuer nonce request expires st = (st', Inl e)"
proof (cases "claim_influence_nonce now kind issuer nonce request expires st")
  case (Pair st' r)
  with assms show ?thesis
    by (cases r) (fastforce simp: claim_nonce_Inr nonce_held_def)+
qed

lemma claim_nonce_keeps:
  assumes "claim_influence_nonce now kind issuer nonce request expires st = (st', r)"
    and "nonce_held h st j" and "now \<le> h"
  shows "nonce_held h st' j"
  using assms
  unfolding claim_influence_nonce_def Let_def nonce_held_def t_delete_def
  by (auto split: option.splits)

interpretation nonce_table:
  claim_once "nonce_held h" nonce_claim_key "nonce_claim_within h" make_nonce_claim for h
proof
  fix c :: nonce_claim and st :: store
  assume "nonce_claim_within h c" "nonce_held h st (nonce_claim_key c)"
  then show "\<exists>s' e. make_nonce_claim c st = (s', Inl e)"
    using claim_nonce_held by (auto simp: make_nonce_claim_def nonce_claim_within_def nonce_claim_key_def split: prod.splits)
next
  fix c :: nonce_claim and st st' :: store and u :: unit
  assume "nonce_claim_within h c" "make_nonce_claim c st = (st', Inr u)"
  then show "nonce_held h st' (nonce_claim_key c)"
    by (auto simp: make_nonce_claim_def nonce_claim_within_def nonce_claim_key_def claim_nonce_Inr
        nonce_held_def nonce_key_def split: prod.splits)
next
  fix c :: nonce_claim and st st' :: store and r :: "app_error + unit" and j
  assume "nonce_claim_within h c" "make_nonce_claim c st = (st', r)" "nonce_held h st j"
  then show "nonce_held h st' j"
    using claim_nonce_keeps by (auto simp: make_nonce_claim_def nonce_claim_within_def split: prod.splits)
qed

subsection \<open>The gate\<close>

definition gate_bucket_ids :: "gate_result \<Rightarrow> int multiset" where
  "gate_bucket_ids r = mset (map mem_id (gr_authorized r @ gr_advisory r @ gr_source_required r))
     + mset (gr_denied_memory_ids r)"

lemma gate_loop_partition:
  "gate_bucket_ids (gate_loop x env g ctx v k ok i ms r) = gate_bucket_ids r + mset (map mem_id ms)"
  by (induction x env g ctx v k ok i ms r rule: gate_loop.induct)
     (auto simp: gate_bucket_ids_def Let_def split: option.split decision_kind.split)

text \<open>How a memory can come to be released.\<close>

definition released_as ::
  "influence_config \<Rightarrow> (int \<Rightarrow> candidate_context option) \<Rightarrow> verified_purpose \<Rightarrow> consumer_capabilities \<Rightarrow> bool
     \<Rightarrow> decision_kind \<Rightarrow> memory \<Rightarrow> bool" where
  "released_as g ctx v k ok d m \<longleftrightarrow>
     (case ctx (mem_id m) of
        None \<Rightarrow> d = Allow \<and> \<not> ic_fail_closed_on_policy_error g
      | Some c \<Rightarrow> fst (evaluate_verdict c v k ok g) = d)"

lemma gate_loop_released:
  "(m \<in> set (gr_authorized (gate_loop x env g ctx v k ok i ms r)) \<longrightarrow>
      m \<in> set (gr_authorized r) \<or> m \<in> set ms \<and> released_as g ctx v k ok Allow m)
   \<and> (m \<in> set (gr_advisory (gate_loop x env g ctx v k ok i ms r)) \<longrightarrow>
      m \<in> set (gr_advisory r) \<or> m \<in> set ms \<and> released_as g ctx v k ok AllowReasoningOnly m)
   \<and> (m \<in> set (gr_source_required (gate_loop x env g ctx v k ok i ms r)) \<longrightarrow>
      m \<in> set (gr_source_required r) \<or> m \<in> set ms \<and> released_as g ctx v k ok RequireOriginalSource m)"
proof (induction ms arbitrary: i r)
  case (Cons n ms)
  define r' where "r' = (case ctx (mem_id n) of
          None \<Rightarrow>
            if ic_fail_closed_on_policy_error g
            then r\<lparr>gr_denied_memory_ids := gr_denied_memory_ids r @ [mem_id n]\<rparr>
            else r\<lparr>gr_authorized := gr_authorized r @ [n]\<rparr>
        | Some context \<Rightarrow>
            let d = evaluate x (ge_decision_uuid env i) context v k ok g;
                r = (case id_decision d of
                    Allow \<Rightarrow> r\<lparr>gr_authorized := gr_authorized r @ [n]\<rparr>
                  | AllowReasoningOnly \<Rightarrow> r\<lparr>gr_advisory := gr_advisory r @ [n]\<rparr>
                  | RequireOriginalSource \<Rightarrow> r\<lparr>gr_source_required := gr_source_required r @ [n]\<rparr>
                  | RequireHumanConfirmation \<Rightarrow>
                      r\<lparr>gr_denied_memory_ids := gr_denied_memory_ids r @ [mem_id n]\<rparr>
                  | Deny \<Rightarrow> r\<lparr>gr_denied_memory_ids := gr_denied_memory_ids r @ [mem_id n]\<rparr>)
            in r\<lparr>gr_decisions := gr_decisions r @ [d]\<rparr>)"
  have "(m \<in> set (gr_authorized r') \<longrightarrow> m \<in> set (gr_authorized r) \<or> m = n \<and> released_as g ctx v k ok Allow m)
    \<and> (m \<in> set (gr_advisory r') \<longrightarrow> m \<in> set (gr_advisory r) \<or> m = n \<and> released_as g ctx v k ok AllowReasoningOnly m)
    \<and> (m \<in> set (gr_source_required r') \<longrightarrow>
        m \<in> set (gr_source_required r) \<or> m = n \<and> released_as g ctx v k ok RequireOriginalSource m)"
  proof (cases "ctx (mem_id n)")
    case None
    then show ?thesis by (auto simp: r'_def released_as_def)
  next
    case (Some c)
    show ?thesis
      by (cases "fst (evaluate_verdict c v k ok g)")
         (auto simp: r'_def released_as_def Some Let_def evaluate_fields)
  qed
  with Cons.IH [of "Suc i" r'] show ?case
    unfolding gate_loop.simps r'_def [symmetric] by auto
qed simp

lemma claim_nonce_only_nonces:
  "claim_influence_nonce now kind issuer nonce request expires st = (st', r) \<Longrightarrow> \<exists>ns. st' = st\<lparr>s_nonces := ns\<rparr>"
  by (auto simp: claim_influence_nonce_def Let_def split: option.splits)

lemma claims_only_nonces:
  assumes "claim_attestation now a st = (st1, r1)" and "claim_confirmation now g c st1 = (st2, r2)"
  shows "\<exists>ns. st2 = st\<lparr>s_nonces := ns\<rparr>"
proof -
  have "\<exists>ns. st1 = st\<lparr>s_nonces := ns\<rparr>"
    using assms(1) claim_nonce_only_nonces
    by (cases a) (auto simp: claim_attestation_def intro: exI [of _ "s_nonces st"])
  moreover have "\<exists>ns. st2 = st1\<lparr>s_nonces := ns\<rparr>"
    using assms(2) claim_nonce_only_nonces
    by (cases c) (auto simp: claim_confirmation_def intro: exI [of _ "s_nonces st1"] split: if_splits)
  ultimately show ?thesis by auto
qed

lemma contexts_nonces [simp]:
  "influence_contexts_for x (st\<lparr>s_nonces := ns\<rparr>) ids namespace = influence_contexts_for x st ids namespace"
proof -
  have "context_of_row x (st\<lparr>s_nonces := ns\<rparr>) = context_of_row x st"
    by (simp add: fun_eq_iff context_of_row_def policy_row_of_def)
  moreover have "unresolved_sets_of (st\<lparr>s_nonces := ns\<rparr>) = unresolved_sets_of st"
    by (simp add: fun_eq_iff unresolved_sets_of_def)
  ultimately show ?thesis by (simp add: influence_contexts_for_def)
qed

text \<open>What an accepted gate call did before it looked at the memories.\<close>

lemma gate_Inr:
  assumes "ic_enabled g"
    and "gate_memories_with_query x e env ms namespace project supplied channel k g query st = (st', Inr r)"
  obtains v a cf ctx st1 st2 where
    "gate_admit x e env g namespace project supplied channel = Inr (v, a, cf)"
    "claim_attestation (ge_now env) a st = (st1, Inr ())"
    "claim_confirmation (ge_now env) g cf st1 = (st2, Inr ())"
    "influence_contexts_for x st (map mem_id ms) namespace = Inr ctx"
    "r = gate_loop x env g ctx v k (cf \<noteq> None) 0 ms empty_gate_result"
    "record_influence_decisions x (ge_now env)
       (map (\<lambda>(i, d). (ge_event_uuid env i, d)) (enumerate 0 (gr_decisions r)))
       ctx (ic_record_denials g) (map_option (hash_sensitive_value x) query) st2 = (st', Inr ())"
proof -
  from assms obtain v a cf where adm: "gate_admit x e env g namespace project supplied channel = Inr (v, a, cf)"
    by (auto simp: gate_memories_with_query_def split: sum.splits)
  with assms obtain st1 st2 ctx where
    c: "claim_attestation (ge_now env) a st = (st1, Inr ())" "claim_confirmation (ge_now env) g cf st1 = (st2, Inr ())"
    and ctx: "influence_contexts_for x st2 (map mem_id ms) namespace = Inr ctx"
    and r: "r = gate_loop x env g ctx v k (cf \<noteq> None) 0 ms empty_gate_result"
    and rec: "record_influence_decisions x (ge_now env)
       (map (\<lambda>(i, d). (ge_event_uuid env i, d)) (enumerate 0 (gr_decisions r)))
       ctx (ic_record_denials g) (map_option (hash_sensitive_value x) query) st2 = (st', Inr ())"
    by (auto simp: gate_memories_with_query_def and_then_Inr Let_def)
  from claims_only_nonces [OF c] ctx have "influence_contexts_for x st (map mem_id ms) namespace = Inr ctx"
    by auto
  with that adm c r rec show thesis by blast
qed

lemma policy_record_memory: "policy_record_from_row x mm row = Inr r \<Longrightarrow> pr_memory_id r = mt_memory_id mm"
  unfolding policy_record_from_row_def
  by (cases row) (auto simp: try_conv dest: arg_cong [where f = pr_memory_id])

lemma contexts_sound:
  assumes "influence_contexts_for x st ids namespace = Inr ctx" and "ctx i = Some c"
  shows "\<exists>mm \<in> set (s_meta st). mt_memory_id mm = i \<and> mt_namespace mm = normalize_namespace namespace
    \<and> policy_record_from_row x mm (policy_row_of st i) = Inr (cx_record c)"
proof -
  from assms obtain cs c0 where
    cs: "try_map (context_of_row x st) (filter (\<lambda>mm. mt_namespace mm = normalize_namespace namespace
        \<and> mt_memory_id mm \<in> set ids) (s_meta st)) = Inr cs"
    and c0: "t_get (\<lambda>c. pr_memory_id (cx_record c)) i cs = Some c0" "cx_record c = cx_record c0"
    by (auto simp: influence_contexts_for_def try_conv Let_def split: if_splits)
  from t_get_SomeD [OF c0(1)] try_map_ok_set [OF cs] obtain mm where
    mm: "mm \<in> set (s_meta st)" "mt_namespace mm = normalize_namespace namespace" "context_of_row x st mm = Inr c0"
    and i: "pr_memory_id (cx_record c0) = i" by auto
  then have pol: "policy_record_from_row x mm (policy_row_of st (mt_memory_id mm)) = Inr (cx_record c0)"
    by (auto simp: context_of_row_def try_conv)
  then have "pr_memory_id (cx_record c0) = mt_memory_id mm" by (rule policy_record_memory)
  with mm pol i c0 show ?thesis by auto
qed

lemma contexts_policy:
  assumes "t_keyed mt_memory_id (s_meta st)"
    and "influence_contexts_for x st ids namespace = Inr ctx" and "ctx i = Some c"
  shows "get_memory_influence_policy x st i namespace = Inr (cx_record c)"
proof -
  from contexts_sound [OF assms(2,3)] obtain mm where
    mm: "mm \<in> set (s_meta st)" "mt_memory_id mm = i" "mt_namespace mm = normalize_namespace namespace"
    "policy_record_from_row x mm (policy_row_of st i) = Inr (cx_record c)" by blast
  then have "get_meta st i = Some mm" using t_get_in [OF assms(1)] by (auto simp: get_meta_def)
  with mm show ?thesis by (simp add: get_memory_influence_policy_def Let_def policy_select_def)
qed

lemma claim_confirmation_single_use:
  assumes "claim_confirmation now g (Some c) st = (st', Inr ())" and "cc_single_use c"
    and "h \<le> cc_expires_at c"
  shows "nonce_held h st' (lit ''confirmation_receipt'', cc_issuer c, cc_nonce c)"
  using assms by (auto simp: claim_confirmation_def claim_nonce_Inr nonce_held_def nonce_key_def)

lemma decisions_keep_nonces:
  "s_nonces (fst (record_influence_decisions x now ds ctx rd qh st)) = s_nonces st"
proof (induction ds arbitrary: st rd)
  case (Cons a ds)
  obtain u d where a: "a = (u, d)" by (cases a)
  show ?case by (cases "i64_of_u64 (id_policy_version d)") (simp_all add: a Cons.IH)
qed simp

lemma claim_attestation_keeps:
  assumes "claim_attestation now a st = (st', r)" and "nonce_held h st j" and "now \<le> h"
  shows "nonce_held h st' j"
  using assms claim_nonce_keeps by (auto simp: claim_attestation_def split: option.splits)

lemma gate_refused_when_held:
  assumes "ic_enabled g"
    and "gate_admit x e env g namespace project supplied channel = Inr (v, a, Some c)" and "cc_single_use c"
    and "nonce_held h st (lit ''confirmation_receipt'', cc_issuer c, cc_nonce c)" and "ge_now env \<le> h"
  shows "\<exists>st' err. gate_memories_with_query x e env ms namespace project supplied channel k g query st = (st', Inl err)"
proof -
  obtain st1 r1 where c1: "claim_attestation (ge_now env) a st = (st1, r1)" by (cases "claim_attestation (ge_now env) a st")
  show ?thesis
  proof (cases r1)
    case (Inl e1)
    with assms c1 show ?thesis by (simp add: gate_memories_with_query_def)
  next
    case (Inr u)
    have "nonce_held h st1 (lit ''confirmation_receipt'', cc_issuer c, cc_nonce c)"
      using claim_attestation_keeps [OF c1 assms(4,5)] .
    with assms obtain st2 e2 where "claim_confirmation (ge_now env) g (Some c) st1 = (st2, Inl e2)"
      using claim_nonce_held [of h st1 "lit ''confirmation_receipt''" "cc_issuer c" "cc_nonce c" "ge_now env"]
      by (fastforce simp: claim_confirmation_def)
    with assms c1 Inr show ?thesis by (simp add: gate_memories_with_query_def)
  qed
qed

section \<open>Properties\<close>

text \<open>C15: The evaluator's decision in closed form: it denies when the state matrix denies the use,
  when a reasoning-only memory meets a consumer without that channel, when a task, risk, depth or
  contradiction rule blocks, or when source backing is required of a consumer that cannot expand
  sources; otherwise it asks for confirmation when that is required and missing, then for the
  source, and only then allows. Reason codes are present exactly when the decision is not a
  release.\<close>

theorem evaluate_decides:
  "id_decision (evaluate x u c p k ok g) =
    (if purpose_disposition c p = DispDeny
        \<or> (purpose_disposition c p = DispAllowReasoningOnly \<and> \<not> cc_reasoning_only_channel k)
        \<or> \<not> candidate_passes c p g
        \<or> (source_required c p g \<and> \<not> cc_exact_source_expansion k)
     then Deny
     else if confirmation_required c p g \<and> \<not> ok then RequireHumanConfirmation
     else if source_required c p g then RequireOriginalSource
     else if purpose_disposition c p = DispAllow then Allow else AllowReasoningOnly)
   \<and> (id_reason_codes (evaluate x u c p k ok g) = []
      \<longleftrightarrow> id_decision (evaluate x u c p k ok g) \<in> {Allow, AllowReasoningOnly})"
  unfolding evaluate_fields using evaluate_verdict_closed evaluate_reasons by blast

text \<open>C16: A purpose with less risk is never refused what a riskier one gets: when the evaluator
  allows a memory for a purpose, it allows it for the same purpose at any lower risk.\<close>

theorem evaluate_risk_monotone:
  assumes "id_decision (evaluate x u c p k ok g) = Allow" and "r \<le> vp_action_risk p"
  shows "id_decision (evaluate x u' c (p\<lparr>vp_action_risk := r\<rparr>) k ok g) = Allow"
proof -
  let ?q = "p\<lparr>vp_action_risk := r\<rparr>"
  from assms(1) have disp: "purpose_disposition c p = DispAllow" and pass: "candidate_passes c p g"
    and src: "\<not> source_required c p g" and conf: "confirmation_required c p g \<Longrightarrow> ok"
    by (auto simp: evaluate_fields evaluate_verdict_closed split: if_splits)
  have high: "RiskHigh \<le> r \<Longrightarrow> RiskHigh \<le> vp_action_risk p" using assms(2) by (rule order_trans [rotated])
  have crit: "r = RiskCritical \<Longrightarrow> vp_action_risk p = RiskCritical"
    using assms(2) antisym by fastforce
  have hrc: "has_high_risk_contradiction c ?q \<Longrightarrow> has_high_risk_contradiction c p"
    using high by (auto simp: has_high_risk_contradiction_def)
  have "purpose_disposition c ?q = DispAllow"
    using disp assms(2) by (auto dest: order_trans simp: purpose_disposition_def state_disposition_def action_use_def
        split: influence_state.splits if_splits)
  moreover have "candidate_passes c ?q g"
    using pass hrc assms(2) by (auto simp: candidate_passes_def Let_def)
  moreover have "\<not> source_required c ?q g" using src hrc high by (auto simp: source_required_def)
  moreover have "confirmation_required c ?q g \<Longrightarrow> ok"
    using conf hrc crit by (auto simp: confirmation_required_def)
  ultimately show ?thesis by (auto simp: evaluate_fields evaluate_verdict_closed)
qed

definition demo_candidate :: candidate_context where
  "demo_candidate = \<lparr>cx_record = \<lparr>pr_memory_id = 1, pr_namespace = lit ''local'', pr_policy = default_policy,
     pr_explicit = False, pr_updated_by = None, pr_updated_at = None\<rparr>, cx_derivation_depth = 0,
     cx_evidence_root_count = 1, cx_record_hash = None, cx_unresolved_sets = []\<rparr>"

definition demo_consumer :: consumer_capabilities where
  "demo_consumer = \<lparr>cc_reasoning_only_channel = False, cc_exact_source_expansion = False,
     cc_denial_diagnostics = False\<rparr>"

definition demo_scope :: verified_purpose where
  "demo_scope = \<lparr>vp_request_id = lit ''r1'', vp_subject_agent_id = None, vp_namespace = lit ''local'',
     vp_project = lit ''/p'', vp_task_type = lit ''review'', vp_intended_action = None,
     vp_action_risk = RiskHigh, vp_require_source_backing = False, vp_authority = SelfDeclared,
     vp_attestation_id = None, vp_confirmation_receipt_id = None, vp_issued_at = 5, vp_expires_at = None\<rparr>"

lemma demo_evaluate:
  "id_decision (evaluate demo_sql (lit ''d'') demo_candidate demo_scope demo_consumer False default_influence_config) = Allow"
  by (simp add: evaluate_fields evaluate_verdict_closed demo_candidate_def demo_scope_def demo_consumer_def
      purpose_disposition_def state_disposition_def default_policy_def candidate_passes_def source_required_def
      confirmation_required_def has_high_risk_contradiction_def default_influence_config_def)

theorem evaluate_decides_witness:
  "id_reason_codes (evaluate demo_sql (lit ''d'') demo_candidate demo_scope demo_consumer False default_influence_config)
     = []"
  using evaluate_decides [of demo_sql "lit ''d''" demo_candidate demo_scope demo_consumer False
      default_influence_config] demo_evaluate by (metis insertI1)

theorem evaluate_risk_monotone_witness:
  "id_decision (evaluate demo_sql (lit ''e'') demo_candidate (demo_scope\<lparr>vp_action_risk := RiskLow\<rparr>) demo_consumer False
     default_influence_config) = Allow"
  by (rule evaluate_risk_monotone [OF demo_evaluate]) (simp add: demo_scope_def risk_order)

text \<open>C17: An accepted gate call puts every candidate memory into exactly one bucket (released,
  advisory, source required, denied), as many times as it was passed in.\<close>

theorem gate_partitions:
  assumes "gate_memories_with_query x e env ms namespace project supplied channel k g query st = (st', Inr r)"
  shows "mset (map mem_id (gr_authorized r @ gr_advisory r @ gr_source_required r))
    + mset (gr_denied_memory_ids r) = mset (map mem_id ms)"
proof (cases "ic_enabled g")
  case False
  with assms show ?thesis by (auto simp: gate_memories_with_query_def empty_gate_result_def)
next
  case True
  obtain v ctx and cf :: "confirmation_claims option" where
    "r = gate_loop x env g ctx v k (cf \<noteq> None) 0 ms empty_gate_result"
    by (rule gate_Inr [OF True assms]) (erule that)
  then have "gate_bucket_ids r = gate_bucket_ids empty_gate_result + mset (map mem_id ms)"
    by (simp only: gate_loop_partition)
  then show ?thesis by (simp add: gate_bucket_ids_def empty_gate_result_def)
qed

definition demo_memory :: memory where
  "demo_memory = \<lparr>mem_id = 1, mem_project = lit ''/p'', mem_session_id = lit ''s'', mem_summary = lit ''x'',
     mem_tags = None, mem_created_at = 3\<rparr>"

definition demo_gate_env :: gate_env where
  "demo_gate_env = \<lparr>ge_now = 9, ge_legacy_uuid = lit ''u'', ge_decision_uuid = (\<lambda>i. lit ''d'' @ dec_nat i),
     ge_event_uuid = (\<lambda>i. lit ''e'' @ dec_nat i), ge_read_file = (\<lambda>_. Some (replicate 32 7))\<rparr>"

definition demo_gate_config :: influence_config where
  "demo_gate_config = default_influence_config\<lparr>ic_enabled := True\<rparr>"

definition demo_raw_purpose :: recall_purpose where
  "demo_raw_purpose = \<lparr>rp_request_id = lit ''r1'', rp_namespace = lit ''local'', rp_project = lit ''/p'',
     rp_task_type = lit ''review'', rp_intended_action = None, rp_action_risk = RiskHigh,
     rp_require_source_backing = False, rp_purpose_attestation = None, rp_confirmation_receipt = None\<rparr>"

lemma demo_raw_normalized: "normalized_purpose demo_raw_purpose = Inr demo_raw_purpose"
proof -
  have "normalize_task_type (lit ''review'') = Inr (lit ''review'')"
    by (simp add: normalize_task_type_def rust_str MAX_TASK_TYPE_BYTES_def char_len_def pop_trailing_def)
  then show ?thesis
    by (simp add: normalized_purpose_def demo_raw_purpose_def demo_local)
       (simp add: validate_field_def rust_str char_len_def MAX_FIELD_BYTES_def)
qed

lemma demo_gate_admitted:
  "gate_admit demo_sql demo_env demo_gate_env demo_gate_config (lit ''local'') (lit ''/p'') (Some demo_raw_purpose)
     (ChannelRemote None) = Inr (demo_scope\<lparr>vp_issued_at := 9\<rparr>, None, None)"
  by (simp add: gate_admit_def gate_wire_purpose_def gate_verify_purpose_def advisory_verify_def demo_raw_normalized
      demo_gate_config_def default_influence_config_def demo_gate_env_def gate_confirmation_def demo_local)
     (simp add: demo_raw_purpose_def demo_scope_def)

lemma demo_contexts:
  "\<exists>ctx c. influence_contexts_for demo_sql demo_policy_store [1] (lit ''local'') = Inr ctx \<and> ctx 1 = Some c
     \<and> pr_policy (cx_record c) = default_policy \<and> cx_unresolved_sets c = []"
  by (simp add: influence_contexts_for_def demo_policy_store_def empty_store_def new_meta_row_def demo_local
      DEFAULT_NAMESPACE_def context_of_row_def policy_record_from_row_def policy_row_of_def t_get_Cons
      unresolved_sets_of_def Let_def)

lemma demo_gate:
  "\<exists>st' r. gate_memories_with_query demo_sql demo_env demo_gate_env [demo_memory] (lit ''local'') (lit ''/p'')
     (Some demo_raw_purpose) (ChannelRemote None) demo_consumer demo_gate_config None demo_policy_store = (st', Inr r)
     \<and> gr_authorized r = [demo_memory]"
proof -
  obtain ctx c where ctx: "influence_contexts_for demo_sql demo_policy_store [1] (lit ''local'') = Inr ctx"
    "ctx 1 = Some c" "pr_policy (cx_record c) = default_policy" "cx_unresolved_sets c = []"
    using demo_contexts by blast
  have v: "fst (evaluate_verdict c (demo_scope\<lparr>vp_issued_at := 9\<rparr>) demo_consumer False demo_gate_config) = Allow"
    by (simp add: evaluate_verdict_closed ctx demo_scope_def demo_consumer_def
      purpose_disposition_def state_disposition_def default_policy_def candidate_passes_def source_required_def
      confirmation_required_def has_high_risk_contradiction_def demo_gate_config_def default_influence_config_def)
  have "1 = p_version (pr_policy (cx_record c))" by (simp add: ctx default_policy_def)
  then show ?thesis
    using v ctx
    by (simp add: gate_memories_with_query_def demo_gate_admitted claim_attestation_def claim_confirmation_def
        demo_memory_def evaluate_fields Let_def empty_gate_result_def)
       (simp add: demo_gate_config_def default_influence_config_def demo_policy_store_def empty_store_def
        evaluate_def i64_of_u64_def int_limits split: prod.split)
qed

theorem gate_partitions_witness:
  "\<exists>st' r. gate_memories_with_query demo_sql demo_env demo_gate_env [demo_memory] (lit ''local'') (lit ''/p'')
     (Some demo_raw_purpose) (ChannelRemote None) demo_consumer demo_gate_config None demo_policy_store = (st', Inr r)
     \<and> mset (map mem_id (gr_authorized r @ gr_advisory r @ gr_source_required r))
       + mset (gr_denied_memory_ids r) = {#1#}"
  using demo_gate gate_partitions [of demo_sql demo_env demo_gate_env "[demo_memory]"]
  by (fastforce simp: demo_memory_def)




lemma normalized_receipt:
  "normalized_purpose p = Inr q \<Longrightarrow>
     normalized_purpose (p\<lparr>rp_confirmation_receipt := r\<rparr>) = Inr (q\<lparr>rp_confirmation_receipt := r\<rparr>)"
  by (cases "rp_intended_action p") (auto simp: normalized_purpose_def try_conv)

definition demo_wire :: recall_purpose where
  "demo_wire = demo_purpose\<lparr>rp_confirmation_receipt := Some demo_token\<rparr>"

definition demo_key_config :: influence_config where
  "demo_key_config = demo_gate_config\<lparr>ic_confirmation_key_file := Some (lit ''key'')\<rparr>"

definition demo_key_env :: gate_env where
  "demo_key_env = demo_gate_env\<lparr>ge_now := 150\<rparr>"

lemma demo_wire_normalized:
  "normalized_purpose demo_wire = Inr (demo_purpose\<lparr>rp_namespace := lit ''team_a'',
     rp_task_type := lit ''code_review'', rp_confirmation_receipt := Some demo_token\<rparr>)"
  unfolding demo_wire_def using normalized_receipt [OF demo_normalized_plain] .

lemma demo_wire_mint:
  "mint_confirmation_token demo_ext demo_env (lit ''u1'') (lit ''u2'') demo_wire
     demo_key (lit ''op'') (lit ''alice'') RiskMedium 100 200 = Inr demo_token"
proof -
  have "local_operator_purpose demo_wire (lit ''alice'') 100 = local_operator_purpose demo_purpose (lit ''alice'') 100"
    by (simp add: local_operator_purpose_def demo_wire_normalized demo_normalized_plain)
  then show ?thesis using demo_mint by (simp only: mint_confirmation_token_def)
qed

lemma demo_wire_admitted:
  "\<exists>v c. gate_admit demo_ext demo_env demo_key_env demo_key_config (lit '' team a'') (lit ''/p'') (Some demo_wire)
     (ChannelRemote None) = Inr (v, None, Some c) \<and> cc_single_use c \<and> 150 \<le> cc_expires_at c"
proof -
  obtain v where v: "advisory_verify demo_wire None 150 = Inr (v, None)"
    "vp_namespace v = lit ''team_a''" "vp_project v = lit ''/p''"
    by (simp add: advisory_verify_def demo_wire_normalized demo_purpose_def)
  have risk: "rp_action_risk demo_wire \<le> RiskMedium" by (simp add: demo_wire_def demo_purpose_def risk_order)
  have t: "(100::int) \<le> i64 (150 + 30)" "i64 (150 - 30) \<le> 200" by (simp_all add: i64_def)
  obtain c where c: "verify_confirmation demo_ext demo_env demo_token demo_key v 150 = Inr c" "cc_single_use c"
    using mint_verifies [OF demo_env_ok demo_wire_mint disjI1 [OF v(1)] t] risk by auto
  have "i64 (150 - 30) \<le> cc_expires_at c" "cc_issued_at c < cc_expires_at c"
    using verify_confirmation_decode(2) [OF c(1)] by (simp_all add: validate_window_ok CLOCK_SKEW_SECONDS_def)
  have "decode_signed demo_env (confirmation_parse demo_env) demo_token demo_key = Inr c"
    by (rule verify_confirmation_decode(1) [OF c(1)])
  obtain w where tok: "demo_token = encode_signed demo_env (confirmation_bytes demo_env \<lparr>cc_receipt_id = lit ''u1'',
      cc_issuer = lit ''op'', cc_confirming_actor = lit ''alice'', cc_request_id = vp_request_id w,
      cc_purpose_hash = purpose_hash demo_ext w, cc_namespace = vp_namespace w, cc_project = vp_project w,
      cc_task_type = vp_task_type w, cc_intended_action = vp_intended_action w,
      cc_maximum_authorized_risk = RiskMedium, cc_issued_at = 100, cc_expires_at = 200, cc_nonce = lit ''u2'',
      cc_single_use = True\<rparr>) demo_key" (is "_ = encode_signed _ (confirmation_bytes _ ?c) _")
    by (rule mint_confirmation_ok [OF demo_wire_mint])
  have parse: "confirmation_parse demo_env (confirmation_bytes demo_env ?c) = Some ?c"
    using demo_env_ok by (simp add: token_env_ok_def)
  have "decode_signed demo_env (confirmation_parse demo_env) demo_token demo_key = Inr ?c"
    by (subst tok) (rule decode_signed_encode [where from_slice = "confirmation_parse demo_env", OF demo_env_ok parse])
  with \<open>decode_signed demo_env (confirmation_parse demo_env) demo_token demo_key = Inr c\<close>
  have "cc_expires_at c = 200" by auto
  with v c show ?thesis
    by (simp add: gate_admit_def gate_wire_purpose_def gate_verify_purpose_def demo_key_config_def demo_gate_config_def
        default_influence_config_def demo_key_env_def demo_gate_env_def demo_namespace gate_confirmation_def read_key_def
        demo_wire_def demo_key_def)
qed




text \<open>C21: The replay window. A token stays acceptable for the clock skew after its expiry, but its
  nonce is deleted by the first claim after the expiry: at an instant later than the expiry and
  within the skew the window check passes and the same nonce can be claimed again and again.\<close>

theorem expired_nonce_replays:
  assumes "i64_min + 30 \<le> now" and "now \<le> i64_max - 30"
    and "issued < expires" and "expires < now" and "now \<le> expires + 30"
    and "claim_influence_nonce now kind issuer nonce request expires st = (st1, Inr ())"
    and "now \<le> later" and "later \<le> i64_max - 30" and "later \<le> expires + 30"
  shows "validate_window issued expires now = Inr () \<and> validate_window issued expires later = Inr ()
    \<and> (\<exists>st2. claim_influence_nonce later kind issuer nonce request' expires st1 = (st2, Inr ()))"
proof -
  have "i64 (t + 30) = t + 30" "i64 (t - 30) = t - 30" if "now \<le> t" "t \<le> i64_max - 30" for t
    using that assms(1) by (auto intro!: i64_id simp: is_i64_def int_limits)
  then have "validate_window issued expires now = Inr ()" "validate_window issued expires later = Inr ()"
    unfolding validate_window_ok CLOCK_SKEW_SECONDS_def using assms by simp_all
  moreover have "\<forall>r \<in> set (s_nonces st1). nonce_key r = (kind, issuer, nonce) \<longrightarrow> nn_expires_at r < later"
    using assms(6) unfolding claim_nonce_Inr
    using assms(4,7) by (fastforce simp: t_delete_def)
  ultimately show ?thesis unfolding claim_nonce_Inr by blast
qed

theorem expired_nonce_replays_witness:
  "\<exists>st1 st2. claim_influence_nonce 1010 (lit ''confirmation_receipt'') (lit ''op'') (lit ''n'') (lit ''r'') 1000 empty_store = (st1, Inr ())
     \<and> claim_influence_nonce 1011 (lit ''confirmation_receipt'') (lit ''op'') (lit ''n'') (lit ''r'') 1000 st1 = (st2, Inr ())"
proof -
  obtain st1 where c: "claim_influence_nonce 1010 (lit ''confirmation_receipt'') (lit ''op'') (lit ''n'') (lit ''r'') 1000 empty_store
      = (st1, Inr ())"
    by (simp add: claim_influence_nonce_def empty_store_def t_delete_def)
  from expired_nonce_replays [OF _ _ _ _ _ c, of 900 1011 "lit ''r''"] c show ?thesis
    by (simp add: int_limits)
qed

end
