(* ===== verification/Contradiction.thy ===== *)
theory Contradiction
  imports Policy_Store
begin

text \<open>
  Contradiction sets: the claims, requests and checks of \<open>src/src/contradiction.rs\<close>, and their storage
  in \<open>db.rs\<close> (creation, compare-and-swap update, the set a graph reconciliation maintains). The
  unique index on the claim and the foreign keys are checks of the inserts.
\<close>

section \<open>Enums\<close>

datatype claim_cardinality = CardSingle | CardSet | CardOrdered | CardCustom

datatype contradiction_status = Unresolved | Preferred | Resolved | Obsolete

datatype member_stance = Supports | Contradicts | Competing

fun cardinality_str :: "claim_cardinality \<Rightarrow> str" where
  "cardinality_str CardSingle = lit ''single''"
| "cardinality_str CardSet = lit ''set''"
| "cardinality_str CardOrdered = lit ''ordered''"
| "cardinality_str CardCustom = lit ''custom''"

fun status_str :: "contradiction_status \<Rightarrow> str" where
  "status_str Unresolved = lit ''unresolved''"
| "status_str Preferred = lit ''preferred''"
| "status_str Resolved = lit ''resolved''"
| "status_str Obsolete = lit ''obsolete''"

fun stance_str :: "member_stance \<Rightarrow> str" where
  "stance_str Supports = lit ''supports''"
| "stance_str Contradicts = lit ''contradicts''"
| "stance_str Competing = lit ''competing''"

definition parse_cardinality :: "str \<Rightarrow> app_error + claim_cardinality" where
  "parse_cardinality value =
     (let v = fold_label value in
      if v = lit ''single'' then Inr CardSingle
      else if v = lit ''set'' then Inr CardSet
      else if v = lit ''ordered'' then Inr CardOrdered
      else if v = lit ''custom'' then Inr CardCustom
      else Inl (Msg (lit ''unknown claim cardinality '' @ [39] @ value @ [39])))"

definition parse_status :: "str \<Rightarrow> app_error + contradiction_status" where
  "parse_status value =
     (let v = fold_label value in
      if v = lit ''unresolved'' then Inr Unresolved
      else if v = lit ''preferred'' then Inr Preferred
      else if v = lit ''resolved'' then Inr Resolved
      else if v = lit ''obsolete'' then Inr Obsolete
      else Inl (Msg (lit ''unknown contradiction status '' @ [39] @ value @ [39])))"

definition parse_stance :: "str \<Rightarrow> app_error + member_stance" where
  "parse_stance value =
     (let v = fold_label value in
      if v = lit ''supports'' then Inr Supports
      else if v = lit ''contradicts'' then Inr Contradicts
      else if v = lit ''competing'' then Inr Competing
      else Inl (Msg (lit ''unknown contradiction stance '' @ [39] @ value @ [39])))"

interpretation cardinality_codec: label_codec cardinality_str "\<lambda>s. result_ok (parse_cardinality s)"
proof unfold_locales
  fix x show "result_ok (parse_cardinality (cardinality_str x)) = Some x"
    by (cases x) (simp_all add: parse_cardinality_def rust_str)
qed (simp add: parse_cardinality_def Let_def)

interpretation status_codec: label_codec status_str "\<lambda>s. result_ok (parse_status s)"
proof unfold_locales
  fix x show "result_ok (parse_status (status_str x)) = Some x"
    by (cases x) (simp_all add: parse_status_def rust_str)
qed (simp add: parse_status_def Let_def)

interpretation stance_codec: label_codec stance_str "\<lambda>s. result_ok (parse_stance s)"
proof unfold_locales
  fix x show "result_ok (parse_stance (stance_str x)) = Some x"
    by (cases x) (simp_all add: parse_stance_def rust_str)
qed (simp add: parse_stance_def Let_def)

section \<open>Claims and requests\<close>

definition CLAIM_SCHEMA_VERSION :: nat where "CLAIM_SCHEMA_VERSION = 1"
definition MAX_CLAIM_KEY_BYTES :: nat where "MAX_CLAIM_KEY_BYTES = 160"
definition MAX_BASIS_BYTES :: nat where "MAX_BASIS_BYTES = 512"
definition MAX_MEMBERS :: nat where "MAX_MEMBERS = 32"

record contradiction_member =
  cb_memory_id :: int
  cb_stance :: member_stance

record contradiction_set =
  ct_id :: str
  ct_namespace :: str
  ct_realm :: str
  ct_project :: "str option"
  ct_claim_key :: str
  ct_claim_schema_version :: nat
  ct_cardinality :: claim_cardinality
  ct_preferred_memory_id :: "int option"
  ct_status :: contradiction_status
  ct_resolution_basis :: "str option"
  ct_resolved_by :: "str option"
  ct_version :: nat
  ct_created_at :: int
  ct_updated_at :: int
  ct_members :: "contradiction_member list"

record create_request =
  cr_namespace :: str
  cr_realm :: str
  cr_project :: "str option"
  cr_claim_key :: str
  cr_cardinality :: claim_cardinality
  cr_members :: "contradiction_member list"
  cr_reason :: str

record update_request =
  ur_expected_version :: nat
  ur_status :: contradiction_status
  ur_preferred_memory_id :: "int option"
  ur_basis :: str

text \<open>The loop of \<open>canonical_claim_key\<close>. A character that is neither alphanumeric nor a usable separator
  nor a control character is skipped.\<close>

fun claim_key_loop :: "str \<Rightarrow> str \<Rightarrow> bool \<Rightarrow> str option" where
  "claim_key_loop [] acc sep = Some acc"
| "claim_key_loop (ch # chs) acc sep =
     (if is_ascii_alphanumeric ch then claim_key_loop chs (acc @ [to_lower ch]) False
      else if (ch = 46 \<or> ch = 95 \<or> ch = 45 \<or> ch = 32 \<or> ch = 58 \<or> ch = 47) \<and> \<not> sep \<and> acc \<noteq> []
      then claim_key_loop chs (acc @ [46]) True
      else if is_control ch then None
      else claim_key_loop chs acc sep)"

definition canonical_claim_key :: "str \<Rightarrow> app_error + str" where
  "canonical_claim_key value =
     (case claim_key_loop (trim value) [] False of
        None \<Rightarrow> Inl (Msg (lit ''claim key contains a control character''))
      | Some result \<Rightarrow>
          (let result = pop_trailing 46 result in
           if result = [] \<or> blen result > MAX_CLAIM_KEY_BYTES
           then Inl (Msg (lit ''claim key must contain 1 to 160 bytes''))
           else Inr result))"

definition relation_cardinality :: "str \<Rightarrow> claim_cardinality option" where
  "relation_cardinality relation =
     (let r = fold_label relation in
      if r \<in> {lit ''auth_mode'', lit ''authentication_mode'', lit ''deployment_target'', lit ''status'', lit ''version''}
      then Some CardSingle
      else if r \<in> {lit ''depends_on'', lit ''member_of'', lit ''supports'', lit ''tagged'', lit ''uses''}
      then Some CardSet
      else None)"

definition validate_text :: "str \<Rightarrow> str \<Rightarrow> nat \<Rightarrow> app_error + unit" where
  "validate_text label value max_bytes =
     (if trim value = [] \<or> blen value > max_bytes \<or> (\<exists>c \<in> set value. is_control c)
      then Inl (Msg (label @ lit '' must contain 1 to '' @ dec_nat max_bytes @ lit '' non-control bytes''))
      else Inr ())"

definition validate_realm :: "str \<Rightarrow> str option \<Rightarrow> app_error + unit" where
  "validate_realm realm project =
     (if realm = lit ''project'' \<and> (case project of Some v \<Rightarrow> trim v \<noteq> [] | None \<Rightarrow> False) then Inr ()
      else if realm = lit ''user'' \<and> project = None then Inr ()
      else if realm = lit ''project'' then Inl (Msg (lit ''project realm requires a project''))
      else if realm = lit ''user''
      then Inl (Msg (lit ''user realm must not use a fake project identity''))
      else Inl (Msg (lit ''realm must be '' @ [39] @ lit ''project'' @ [39] @ lit '' or '' @ [39] @ lit ''user'' @ [39])))"

fun app_error_text :: "app_error \<Rightarrow> str" where
  "app_error_text (Policy e) = policy_error_display e"
| "app_error_text (Purpose e) = purpose_error_display e"
| "app_error_text (Msg m) = m"
| "app_error_text (DbConstraint c) = lit ''UNIQUE constraint failed: '' @ c"
| "app_error_text DbRowNotFound = lit ''no rows returned by a query that expected to return at least one row''"

definition invalid_policy :: "app_error \<Rightarrow> app_error" where
  "invalid_policy e = Policy (InvalidPolicy (app_error_text e))"

section \<open>Reading a set\<close>

definition find_set :: "store \<Rightarrow> str \<Rightarrow> str \<Rightarrow> set_row option" where
  "find_set st set_id namespace = find (\<lambda>r. cs_id r = set_id \<and> cs_namespace r = namespace) (s_sets st)"

definition set_members :: "store \<Rightarrow> str \<Rightarrow> app_error + contradiction_member list" where
  "set_members st set_id =
     try_map (\<lambda>m. try_then (parse_stance (cm_stance m)) (\<lambda>stance.
         Inr \<lparr>cb_memory_id = cm_memory_id m, cb_stance = stance\<rparr>))
       (sort_key cm_memory_id (filter (\<lambda>m. cm_set_id m = set_id) (s_members st)))"

definition contradiction_set_on_connection ::
  "str \<Rightarrow> str \<Rightarrow> store \<Rightarrow> app_error + contradiction_set" where
  "contradiction_set_on_connection set_id namespace st =
     try_then (ok_or (Policy (ContradictionNotFound set_id)) (find_set st set_id namespace)) (\<lambda>row.
     try_then (ok_or (Msg (lit ''out of range integral type conversion attempted''))
       (u32_of_i64 (cs_claim_schema_version row))) (\<lambda>schema_version.
     try_then (parse_cardinality (cs_cardinality row)) (\<lambda>cardinality.
     try_then (parse_status (cs_status row)) (\<lambda>status.
     try_then (ok_or (Msg (lit ''out of range integral type conversion attempted''))
       (u64_of_i64 (cs_version row))) (\<lambda>version.
     try_then (set_members st set_id) (\<lambda>members.
     Inr \<lparr>ct_id = cs_id row, ct_namespace = cs_namespace row, ct_realm = cs_realm row,
       ct_project = cs_project row, ct_claim_key = cs_claim_key row,
       ct_claim_schema_version = schema_version, ct_cardinality = cardinality,
       ct_preferred_memory_id = cs_preferred_memory_id row, ct_status = status,
       ct_resolution_basis = cs_resolution_basis row, ct_resolved_by = cs_resolved_by row,
       ct_version = version, ct_created_at = cs_created_at row, ct_updated_at = cs_updated_at row,
       ct_members = members\<rparr>))))))"

section \<open>Creating a set\<close>

definition validate_contradiction_members ::
  "store \<Rightarrow> create_request \<Rightarrow> str \<Rightarrow> app_error + unit" where
  "validate_contradiction_members st request namespace =
     (let ids = map cb_memory_id (cr_members request);
          rows = concat (map (\<lambda>mm. case get_memory st (mt_memory_id mm) of
                    None \<Rightarrow> [] | Some m \<Rightarrow> [(mt_namespace mm, mt_scope mm, mem_project m)])
                  (filter (\<lambda>mm. mt_memory_id mm \<in> set ids) (s_meta st)))
      in if length rows \<noteq> length (cr_members request)
         then Inl (Policy (InvalidPolicy (lit ''one or more contradiction members do not exist'')))
         else try_then (try_map (\<lambda>(member_namespace, scope, project).
             if member_namespace \<noteq> namespace
             then Inl (Policy (InvalidPolicy
                    (lit ''contradiction members must share the requested namespace'')))
             else if cr_realm request = lit ''user'' \<and> scope \<noteq> lit ''user''
             then Inl (Policy (InvalidPolicy
                    (lit ''user-realm contradiction members must have user scope'')))
             else if cr_realm request = lit ''project'' \<and> cr_project request \<noteq> Some project
             then Inl (Policy (InvalidPolicy
                    (lit ''project-realm contradiction members must share the project'')))
             else Inr ()) rows) (\<lambda>_. Inr ()))"

text \<open>The unique index on \<open>(namespace, realm, COALESCE(project, ''), claim_key)\<close>.\<close>

definition claim_of :: "set_row \<Rightarrow> str \<times> str \<times> str \<times> str" where
  "claim_of r = (cs_namespace r, cs_realm r, (case cs_project r of None \<Rightarrow> [] | Some p \<Rightarrow> p), cs_claim_key r)"

definition set_conflicts :: "store \<Rightarrow> set_row \<Rightarrow> bool" where
  "set_conflicts st row \<longleftrightarrow> (\<exists>r \<in> set (s_sets st). cs_id r = cs_id row \<or> claim_of r = claim_of row)"

definition member_key :: "member_row \<Rightarrow> str \<times> int" where
  "member_key m = (cm_set_id m, cm_memory_id m)"

text \<open>\<open>INSERT INTO contradiction_members\<close>: primary key, foreign key to \<open>memory_meta\<close>, trigger.\<close>

definition insert_member :: "int \<Rightarrow> member_row \<Rightarrow> store \<Rightarrow> app_error + store" where
  "insert_member now row st =
     (if t_get member_key (member_key row) (s_members st) \<noteq> None
         \<or> get_meta st (cm_memory_id row) = None
      then Inl (DbConstraint (lit ''contradiction_members''))
      else Inr (touch now (cm_memory_id row) (st\<lparr>s_members := s_members st @ [row]\<rparr>)))"

fun insert_members :: "int \<Rightarrow> str \<Rightarrow> contradiction_member list \<Rightarrow> store \<Rightarrow> app_error + store" where
  "insert_members now set_id [] st = Inr st"
| "insert_members now set_id (m # ms) st =
     try_then (insert_member now \<lparr>cm_set_id = set_id, cm_memory_id = cb_memory_id m,
       cm_stance = stance_str (cb_stance m), cm_created_at = now\<rparr> st) (insert_members now set_id ms)"

definition new_set_row ::
  "str \<Rightarrow> str \<Rightarrow> str \<Rightarrow> str option \<Rightarrow> str \<Rightarrow> str \<Rightarrow> int \<Rightarrow> set_row" where
  "new_set_row set_id namespace realm project claim_key cardinality now = \<lparr>
     cs_id = set_id, cs_namespace = namespace, cs_realm = realm, cs_project = project,
     cs_claim_key = claim_key, cs_claim_schema_version = int CLAIM_SCHEMA_VERSION,
     cs_cardinality = cardinality, cs_preferred_memory_id = None, cs_status = lit ''unresolved'',
     cs_resolution_basis = None, cs_resolved_by = None, cs_version = 1, cs_created_at = now,
     cs_updated_at = now\<rparr>"

definition create_payload :: "str \<Rightarrow> str \<Rightarrow> create_request \<Rightarrow> json" where
  "create_payload set_id claim_key request = json_obj [
     (''contradiction_set_id'', JStr set_id),
     (''claim_key'', JStr claim_key),
     (''claim_schema_version'', JInt (int CLAIM_SCHEMA_VERSION)),
     (''cardinality'', JStr (cardinality_str (cr_cardinality request))),
     (''realm'', JStr (cr_realm request)),
     (''project'', j_opt_str (cr_project request)),
     (''member_ids'', JArr (map (JInt \<circ> cb_memory_id) (cr_members request))),
     (''reason'', JStr (trim (cr_reason request)))]"

definition create_set_on_connection ::
  "externals \<Rightarrow> int \<Rightarrow> str \<Rightarrow> policy_principal \<Rightarrow> create_request \<Rightarrow> str \<Rightarrow> str \<Rightarrow> store
     \<Rightarrow> app_error + store \<times> contradiction_set"
where
  "create_set_on_connection x now uuid prin request namespace claim_key st =
     (let row = new_set_row uuid namespace (cr_realm request) (cr_project request) claim_key
            (cardinality_str (cr_cardinality request)) now in
      if set_conflicts st row then Inl (DbConstraint (lit ''contradiction_sets''))
      else try_then (insert_members now uuid (cr_members request) (st\<lparr>s_sets := s_sets st @ [row]\<rparr>)) (\<lambda>st1.
        let payload = json_text x (create_payload uuid claim_key request);
            first_member = (case cr_members request of [] \<Rightarrow> None | m # _ \<Rightarrow> Some (cb_memory_id m))
        in try_then (append_ledger_on_connection x now namespace first_member (lit ''contradiction_create'')
             (Some (pr_actor prin)) payload None st1) (\<lambda>(st2, _).
           try_then (contradiction_set_on_connection uuid namespace st2) (\<lambda>cset.
           Inr (st2, cset)))))"

definition create_contradiction_set ::
  "externals \<Rightarrow> int \<Rightarrow> str \<Rightarrow> policy_principal \<Rightarrow> create_request \<Rightarrow> str \<Rightarrow> str \<Rightarrow> store
     \<Rightarrow> store \<times> (app_error + contradiction_set)"
where
  "create_contradiction_set x now uuid prin request namespace claim_key st =
     then_invalidate x
       (case validate_contradiction_members st request namespace of
          Inl e \<Rightarrow> (st, Inl e)
        | Inr _ \<Rightarrow> commit (create_set_on_connection x now uuid prin request namespace claim_key) st)"

text \<open>\<open>contradiction::create\<close>.\<close>

definition contradiction_create ::
  "externals \<Rightarrow> int \<Rightarrow> str \<Rightarrow> policy_principal \<Rightarrow> create_request \<Rightarrow> store
     \<Rightarrow> store \<times> (app_error + contradiction_set)"
where
  "contradiction_create x now uuid prin request st =
     (let namespace = normalize_namespace (cr_namespace request) in
      case (try_then (map_err Policy (authorize prin POLICY_WRITE_CAPABILITY namespace)) (\<lambda>_.
            try_then (map_err invalid_policy (validate_realm (cr_realm request) (cr_project request))) (\<lambda>_.
            try_then (map_err invalid_policy
              (validate_text (lit ''reason'') (cr_reason request) MAX_BASIS_BYTES)) (\<lambda>_.
            if length (cr_members request) < 2 \<or> length (cr_members request) > MAX_MEMBERS
            then Inl (invalid_policy (Msg (lit ''contradiction set requires 2 to 32 members'')))
            else if length (btree_set (map cb_memory_id (cr_members request))) \<noteq> length (cr_members request)
            then Inl (invalid_policy (Msg (lit ''contradiction members must be distinct'')))
            else map_err invalid_policy (canonical_claim_key (cr_claim_key request)))))) of
        Inl e \<Rightarrow> (st, Inl e)
      | Inr claim_key \<Rightarrow> create_contradiction_set x now uuid prin request namespace claim_key st)"

section \<open>Updating a set\<close>

definition update_payload :: "str \<Rightarrow> contradiction_set \<Rightarrow> update_request \<Rightarrow> nat \<Rightarrow> json" where
  "update_payload set_id current request next_version = json_obj [
     (''contradiction_set_id'', JStr set_id),
     (''old_status'', JStr (status_str (ct_status current))),
     (''new_status'', JStr (status_str (ur_status request))),
     (''old_version'', JInt (int (ct_version current))),
     (''new_version'', JInt (int next_version)),
     (''preferred_memory_id'', j_opt_int (ur_preferred_memory_id request)),
     (''basis'', JStr (trim (ur_basis request)))]"

text \<open>The \<open>UPDATE\<close> statement, with its trigger.\<close>

definition resolve_set ::
  "int \<Rightarrow> policy_principal \<Rightarrow> str \<Rightarrow> str \<Rightarrow> update_request \<Rightarrow> int \<Rightarrow> store \<Rightarrow> store" where
  "resolve_set now prin set_id namespace request version st =
     touch_set set_id (st\<lparr>s_sets := t_update
       (\<lambda>r. cs_id r = set_id \<and> cs_namespace r = namespace)
       (\<lambda>r. r\<lparr>cs_preferred_memory_id := ur_preferred_memory_id request,
              cs_status := status_str (ur_status request),
              cs_resolution_basis := Some (trim (ur_basis request)),
              cs_resolved_by := Some (pr_actor prin),
              cs_version := version, cs_updated_at := now\<rparr>) (s_sets st)\<rparr>)"

definition update_set_on_connection ::
  "externals \<Rightarrow> int \<Rightarrow> policy_principal \<Rightarrow> str \<Rightarrow> str \<Rightarrow> update_request \<Rightarrow> store
     \<Rightarrow> app_error + store \<times> contradiction_set"
where
  "update_set_on_connection x now prin set_id namespace request st =
     try_then (contradiction_set_on_connection set_id namespace st) (\<lambda>current.
     if ct_version current \<noteq> ur_expected_version request
     then Inl (Policy (VersionConflict (ur_expected_version request) (ct_version current)))
     else if ur_status request \<in> {Preferred, Resolved} \<and> ur_preferred_memory_id request = None
     then Inl (Policy (InvalidPolicy (lit ''preferred and resolved states require a preferred memory'')))
     else if (case ur_preferred_memory_id request of
          Some preferred \<Rightarrow> \<not> (\<exists>m \<in> set (ct_members current). cb_memory_id m = preferred)
        | None \<Rightarrow> False)
     then Inl (Policy (InvalidPolicy (lit ''preferred memory must be a contradiction-set member'')))
     else try_then (ok_or (Msg (lit ''version overflow'')) (checked_add_u64 (ct_version current) 1)) (\<lambda>next_version.
     try_then (ok_or (Msg (lit ''out of range integral type conversion attempted''))
       (i64_of_u64 next_version)) (\<lambda>version.
     let st1 = resolve_set now prin set_id namespace request version st;
         payload = json_text x (update_payload set_id current request next_version);
         memory_id = (case ur_preferred_memory_id request of
             Some p \<Rightarrow> Some p
           | None \<Rightarrow> (case ct_members current of [] \<Rightarrow> None | m # _ \<Rightarrow> Some (cb_memory_id m)))
     in try_then (append_ledger_on_connection x now namespace memory_id (lit ''contradiction_update'')
          (Some (pr_actor prin)) payload None st1) (\<lambda>(st2, _).
     try_then (contradiction_set_on_connection set_id namespace st2) (\<lambda>cset.
     Inr (st2, cset))))))"

definition update_contradiction_set ::
  "externals \<Rightarrow> int \<Rightarrow> policy_principal \<Rightarrow> str \<Rightarrow> str \<Rightarrow> update_request \<Rightarrow> store
     \<Rightarrow> store \<times> (app_error + contradiction_set)"
where
  "update_contradiction_set x now prin set_id namespace request st =
     then_invalidate x (commit (update_set_on_connection x now prin set_id namespace request) st)"

definition contradiction_update ::
  "externals \<Rightarrow> int \<Rightarrow> policy_principal \<Rightarrow> str \<Rightarrow> str \<Rightarrow> update_request \<Rightarrow> store
     \<Rightarrow> store \<times> (app_error + contradiction_set)"
where
  "contradiction_update x now prin set_id namespace request st =
     (let namespace = normalize_namespace namespace in
      case try_then (map_err Policy (authorize prin POLICY_WRITE_CAPABILITY namespace)) (\<lambda>_.
           map_err invalid_policy (validate_text (lit ''basis'') (ur_basis request) MAX_BASIS_BYTES)) of
        Inl e \<Rightarrow> (st, Inl e)
      | Inr _ \<Rightarrow> update_contradiction_set x now prin set_id namespace request st)"

section \<open>Reading under a principal\<close>

definition contradiction_get ::
  "store \<Rightarrow> policy_principal \<Rightarrow> str \<Rightarrow> str \<Rightarrow> app_error + contradiction_set" where
  "contradiction_get st prin set_id namespace =
     (let namespace = normalize_namespace namespace in
      try_then (map_err Policy (authorize prin POLICY_READ_CAPABILITY namespace)) (\<lambda>_.
      contradiction_set_on_connection set_id namespace st))"

text \<open>\<open>ORDER BY updated_at DESC, id\<close>; each set is then loaded under the namespace as given.\<close>

definition contradiction_sets_for_memory ::
  "store \<Rightarrow> int \<Rightarrow> str \<Rightarrow> app_error + contradiction_set list" where
  "contradiction_sets_for_memory st memory_id namespace =
     (let rows = filter (\<lambda>r. cs_namespace r = normalize_namespace namespace
            \<and> (\<exists>m \<in> set (s_members st). cm_set_id m = cs_id r \<and> cm_memory_id m = memory_id)) (s_sets st);
          ordered = sort_key (\<lambda>r. - cs_updated_at r) (sort_key cs_id rows)
      in try_map (\<lambda>r. contradiction_set_on_connection (cs_id r) namespace st) ordered)"

definition contradiction_list_for_memory ::
  "store \<Rightarrow> policy_principal \<Rightarrow> int \<Rightarrow> str \<Rightarrow> app_error + contradiction_set list" where
  "contradiction_list_for_memory st prin memory_id namespace =
     (let namespace = normalize_namespace namespace in
      try_then (map_err Policy (authorize prin POLICY_READ_CAPABILITY namespace)) (\<lambda>_.
      contradiction_sets_for_memory st memory_id namespace))"

section \<open>The reconciler's set\<close>

text \<open>\<open>INSERT .. ON CONFLICT DO NOTHING\<close> for a member; the foreign key still applies.\<close>

definition insert_member_if_new :: "int \<Rightarrow> member_row \<Rightarrow> store \<Rightarrow> store \<times> (app_error + nat)" where
  "insert_member_if_new now row st =
     (if t_get member_key (member_key row) (s_members st) \<noteq> None then (st, Inr 0)
      else if get_meta st (cm_memory_id row) = None
      then (st, Inl (DbConstraint (lit ''contradiction_members'')))
      else (touch now (cm_memory_id row) (st\<lparr>s_members := s_members st @ [row]\<rparr>), Inr 1))"

fun insert_graph_members :: "int \<Rightarrow> str \<Rightarrow> int list \<Rightarrow> nat \<Rightarrow> store \<Rightarrow> store \<times> (app_error + nat)" where
  "insert_graph_members now set_id [] inserted st = (st, Inr inserted)"
| "insert_graph_members now set_id (m # ms) inserted st =
     and_then (insert_member_if_new now \<lparr>cm_set_id = set_id, cm_memory_id = m,
       cm_stance = lit ''competing'', cm_created_at = now\<rparr> st)
     (\<lambda>n st. insert_graph_members now set_id ms (inserted + n) st)"

definition reopen_set :: "int \<Rightarrow> str \<Rightarrow> store \<Rightarrow> store" where
  "reopen_set now set_id st = touch_set set_id (st\<lparr>s_sets := t_update (\<lambda>r. cs_id r = set_id)
     (\<lambda>r. r\<lparr>cs_status := lit ''unresolved'', cs_preferred_memory_id := None,
            cs_resolution_basis := None, cs_resolved_by := None,
            cs_version := cs_version r + 1, cs_updated_at := now\<rparr>) (s_sets st)\<rparr>)"

definition graph_payload :: "str \<Rightarrow> str \<Rightarrow> int list \<Rightarrow> json" where
  "graph_payload set_id claim_key memory_ids = json_obj [
     (''contradiction_set_id'', JStr set_id),
     (''claim_key'', JStr claim_key),
     (''member_ids'', JArr (map JInt memory_ids)),
     (''detector'', JStr (lit ''graph_reconciliation_v1''))]"

definition graph_row :: "int \<Rightarrow> str \<Rightarrow> str \<Rightarrow> str \<Rightarrow> str option \<Rightarrow> str \<Rightarrow> set_row" where
  "graph_row now pid ns realm project key = new_set_row pid (normalize_namespace ns) realm project key (lit ''single'') now"

text \<open>\<open>INSERT .. ON CONFLICT DO NOTHING\<close> for the set.\<close>

definition graph_store :: "int \<Rightarrow> str \<Rightarrow> str \<Rightarrow> str \<Rightarrow> str option \<Rightarrow> str \<Rightarrow> store \<Rightarrow> store" where
  "graph_store now pid ns realm project key st =
     (if set_conflicts st (graph_row now pid ns realm project key) then st
      else st\<lparr>s_sets := s_sets st @ [graph_row now pid ns realm project key]\<rparr>)"

definition ensure_graph_contradiction_set ::
  "externals \<Rightarrow> int \<Rightarrow> str \<Rightarrow> str \<Rightarrow> str \<Rightarrow> str option \<Rightarrow> str \<Rightarrow> int list \<Rightarrow> store
     \<Rightarrow> store \<times> (app_error + str)"
where
  "ensure_graph_contradiction_set x now proposed_id namespace realm project claim_key memory_ids st =
     (let st1 = graph_store now proposed_id namespace realm project claim_key st;
          row = graph_row now proposed_id namespace realm project claim_key
      in case find (\<lambda>r. claim_of r = claim_of row) (s_sets st1) of
           None \<Rightarrow> (st1, Inl DbRowNotFound)
         | Some found \<Rightarrow>
             let set_id = cs_id found in
             and_then (insert_graph_members now set_id memory_ids 0 st1) (\<lambda>inserted st2.
               if inserted = 0 then (st2, Inr set_id)
               else
                 let st3 = (if set_id \<noteq> proposed_id then reopen_set now set_id st2 else st2);
                     payload = json_text x (graph_payload set_id claim_key memory_ids);
                     first_id = (case memory_ids of [] \<Rightarrow> None | m # _ \<Rightarrow> Some m)
                 in and_then (append_ledger x now (normalize_namespace namespace) first_id
                      (lit ''contradiction_detected'')
                      (Some (lit ''ironmem:graph-reconciler'')) payload st3)
                    (\<lambda>_ st4. (st4, Inr set_id))))"

section \<open>Lemmas\<close>

subsection \<open>Claim keys\<close>

text \<open>The canonical form: lower-case letters, digits and single dots between them.\<close>

interpretation claim_slug: slug 46
  by unfold_locales (simp_all add: char_class_defs)

lemma claim_key_loop_acc:
  "claim_key_loop cs acc sep = Some r \<Longrightarrow> claim_slug.acc_ok acc sep \<Longrightarrow> \<exists>sep'. claim_slug.acc_ok r sep'"
proof (induction cs acc sep rule: claim_key_loop.induct)
  case (2 c cs acc sep)
  then show ?case
    using claim_slug.acc_ok_letter [of acc sep c] claim_slug.acc_ok_sep [of acc]
    by (auto split: if_splits)
qed auto

lemma claim_key_loop_id:
  "claim_slug.acc_ok acc sep \<Longrightarrow> claim_slug.acc_ok (acc @ cs) sep' \<Longrightarrow> claim_key_loop cs acc sep = Some (acc @ cs)"
proof (induction cs arbitrary: acc sep)
  case (Cons c cs)
  from Cons.prems show ?case
  proof (cases rule: claim_slug.acc_ok_next)
    case letter
    with Cons.IH [of "acc @ [c]" False] Cons.prems show ?thesis by simp
  next
    case sep
    with Cons.IH [of "acc @ [46]" True] Cons.prems show ?thesis by (simp add: char_class_defs)
  qed
qed simp

lemma canonical_claim_key_form:
  assumes "canonical_claim_key raw = Inr t"
  shows "claim_slug.form t \<and> blen t \<le> MAX_CLAIM_KEY_BYTES"
proof -
  from assms obtain r where r: "claim_key_loop (trim raw) [] False = Some r"
    and t: "t = pop_trailing 46 r" "t \<noteq> []" "blen t \<le> MAX_CLAIM_KEY_BYTES"
    by (auto simp: canonical_claim_key_def Let_def split: if_splits option.splits)
  from claim_key_loop_acc [OF r] t show ?thesis using claim_slug.form_pop by auto
qed

interpretation claim_key: bounded_canonical_form canonical_claim_key MAX_CLAIM_KEY_BYTES
proof unfold_locales
  fix s t assume "canonical_claim_key s = Inr t"
  then have f: "claim_slug.form t" "blen t \<le> MAX_CLAIM_KEY_BYTES" using canonical_claim_key_form by auto
  then have "claim_slug.acc_ok t False" "t \<noteq> []" by (simp_all add: claim_slug.form_def)
  then have "claim_key_loop t [] False = Some t" using claim_key_loop_id [of "[]" False t False] by simp
  with f \<open>t \<noteq> []\<close> show "canonical_claim_key t = Inr t"
    by (simp add: canonical_claim_key_def claim_slug.form_trim claim_slug.form_pop_id)
  show "t \<noteq> []" by (rule \<open>t \<noteq> []\<close>)
  show "blen t \<le> MAX_CLAIM_KEY_BYTES" by (rule f)
qed

subsection \<open>The tables\<close>

definition stored_set_ok :: "store \<Rightarrow> set_row \<Rightarrow> bool" where
  "stored_set_ok st r \<longleftrightarrow> (\<exists>status. cs_status r = status_str status
     \<and> (status \<in> {Preferred, Resolved} \<longrightarrow>
        (\<exists>p. cs_preferred_memory_id r = Some p \<and> (cs_id r, p) \<in> member_key ` set (s_members st))))"

definition sets_sound :: "store \<Rightarrow> bool" where
  "sets_sound st \<longleftrightarrow> t_keyed cs_id (s_sets st) \<and> t_keyed claim_of (s_sets st)
     \<and> t_keyed member_key (s_members st)
     \<and> (\<forall>r \<in> set (s_sets st). stored_set_ok st r)
     \<and> (\<forall>m \<in> set (s_members st). cm_set_id m \<in> cs_id ` set (s_sets st))"

lemma sets_sound_cong:
  "s_sets st' = s_sets st \<Longrightarrow> s_members st' = s_members st \<Longrightarrow> sets_sound st' = sets_sound st"
  by (simp add: sets_sound_def stored_set_ok_def)

lemma insert_member_Inr:
  "insert_member now row st = Inr st' \<Longrightarrow> s_sets st' = s_sets st \<and> s_members st' = s_members st @ [row]
     \<and> t_get member_key (member_key row) (s_members st) = None"
  by (auto simp: insert_member_def split: if_splits)

text \<open>Adding a member to a known set.\<close>

lemma sets_sound_member:
  assumes "sets_sound st" and "s_sets st' = s_sets st" and "s_members st' = s_members st @ [row]"
    and "t_get member_key (member_key row) (s_members st) = None"
    and "cm_set_id row \<in> cs_id ` set (s_sets st)"
  shows "sets_sound st'"
  using assms by (fastforce simp: sets_sound_def stored_set_ok_def t_keyed_snoc)

lemma sets_sound_insert_members:
  assumes "sets_sound st" and "set_id \<in> cs_id ` set (s_sets st)"
    and "insert_members now set_id ms st = Inr st'"
  shows "sets_sound st' \<and> s_sets st' = s_sets st"
  using assms
proof (induction ms arbitrary: st)
  case (Cons m ms)
  then obtain st1 where i: "insert_member now \<lparr>cm_set_id = set_id, cm_memory_id = cb_memory_id m,
      cm_stance = stance_str (cb_stance m), cm_created_at = now\<rparr> st = Inr st1"
    and r: "insert_members now set_id ms st1 = Inr st'" by (auto simp: try_then_Inr)
  have "s_sets st1 = s_sets st" using insert_member_Inr [OF i] by simp
  moreover have "sets_sound st1" using insert_member_Inr [OF i] Cons.prems
    by (intro sets_sound_member [of st st1]) auto
  ultimately show ?case using Cons.IH [of st1] Cons.prems r by simp
qed simp

text \<open>Adding a set that the unique indexes accept.\<close>

lemma sets_sound_new_set:
  assumes "sets_sound st" and "\<not> set_conflicts st row" and "cs_status row = lit ''unresolved''"
  shows "sets_sound (st\<lparr>s_sets := s_sets st @ [row]\<rparr>)"
proof -
  have "stored_set_ok (st\<lparr>s_sets := s_sets st @ [row]\<rparr>) row"
    using assms(3) unfolding stored_set_ok_def by (intro exI [of _ Unresolved]) simp
  with assms show ?thesis
    by (auto simp: sets_sound_def stored_set_ok_def set_conflicts_def t_keyed_snoc t_get_None)
qed

text \<open>Updating a set to a state that is sound.\<close>

lemma sets_sound_update:
  assumes "sets_sound st" and "\<And>r. p r \<Longrightarrow> cs_id (f r) = cs_id r \<and> claim_of (f r) = claim_of r"
    and "\<And>r. r \<in> set (s_sets st) \<Longrightarrow> p r \<Longrightarrow> stored_set_ok st (f r)"
    and "s_sets st' = t_update p f (s_sets st)" and "s_members st' = s_members st"
  shows "sets_sound st'"
proof -
  have "cs_id ` set (t_update p f (s_sets st)) = cs_id ` set (s_sets st)"
    using assms(2) map_key_update [of p cs_id f "s_sets st"] by (metis list.set_map)
  moreover have "t_keyed cs_id (t_update p f (s_sets st))" "t_keyed claim_of (t_update p f (s_sets st))"
    using assms(1,2) by (simp_all add: sets_sound_def t_keyed_update)
  moreover have "\<forall>r \<in> set (t_update p f (s_sets st)). stored_set_ok st r"
    using assms(1,3) by (auto simp: t_update_def sets_sound_def)
  moreover have "stored_set_ok st' r = stored_set_ok st r" for r
    by (simp add: stored_set_ok_def assms(5))
  ultimately show ?thesis using assms(1,4,5) by (simp add: sets_sound_def)
qed

subsection \<open>Creating\<close>

lemma create_set_on_connection_Inr:
  assumes "create_set_on_connection x now uuid prin request ns key st = Inr (st', r)"
  obtains st1 e where "\<not> set_conflicts st (new_set_row uuid ns (cr_realm request) (cr_project request) key
        (cardinality_str (cr_cardinality request)) now)"
    and "insert_members now uuid (cr_members request) (st\<lparr>s_sets := s_sets st @ [new_set_row uuid ns
        (cr_realm request) (cr_project request) key (cardinality_str (cr_cardinality request)) now]\<rparr>) = Inr st1"
    and "st' = st1\<lparr>s_ledger := s_ledger st1 @ [e]\<rparr>" and "le_namespace e = ns"
    and "le_actor e = Some (pr_actor prin)" and "contradiction_set_on_connection uuid ns st' = Inr r"
  using assms that
  by (auto simp: create_set_on_connection_def Let_def try_then_Inr append_ledger_on_connection_Inr
      split: if_splits)

lemma create_on_connection_sound:
  assumes "sets_sound st" and "create_set_on_connection x now uuid prin request ns key st = Inr (st', r)"
  shows "sets_sound st'"
proof -
  let ?row = "new_set_row uuid ns (cr_realm request) (cr_project request) key
     (cardinality_str (cr_cardinality request)) now"
  from assms(2) obtain st1 e where c: "\<not> set_conflicts st ?row"
    and i: "insert_members now uuid (cr_members request) (st\<lparr>s_sets := s_sets st @ [?row]\<rparr>) = Inr st1"
    and st': "st' = st1\<lparr>s_ledger := s_ledger st1 @ [e]\<rparr>"
    by (rule create_set_on_connection_Inr) blast
  have "sets_sound (st\<lparr>s_sets := s_sets st @ [?row]\<rparr>)"
    using assms(1) c by (rule sets_sound_new_set) (simp add: new_set_row_def)
  then have "sets_sound st1" using sets_sound_insert_members [OF _ _ i] by (simp add: new_set_row_def)
  then show ?thesis using sets_sound_cong [of st' st1] by (simp add: st')
qed

lemma sets_sound_invalidate [simp]: "sets_sound (invalidate_generated_files x st) = sets_sound st"
  by (rule sets_sound_cong) simp_all

lemma contradiction_create_Inr:
  assumes "contradiction_create x now uuid prin request st = (st', Inr r)"
  obtains st1 key where "authorize prin POLICY_WRITE_CAPABILITY (normalize_namespace (cr_namespace request)) = Inr ()"
    and "canonical_claim_key (cr_claim_key request) = Inr key"
    and "create_set_on_connection x now uuid prin request (normalize_namespace (cr_namespace request)) key st
      = Inr (st1, r)"
    and "st' = invalidate_generated_files x st1"
  using assms that
  by (auto simp: contradiction_create_def create_contradiction_set_def Let_def then_invalidate_def commit_Inr
      map_err_def try_then_Inr split: sum.splits prod.splits if_splits)

lemma contradiction_create_Inl:
  "contradiction_create x now uuid prin request st = (st', Inl e) \<Longrightarrow>
     st' = st \<or> st' = invalidate_generated_files x st"
  by (auto simp: contradiction_create_def create_contradiction_set_def Let_def then_invalidate_def commit_Inl
      split: sum.splits prod.splits)

lemma contradiction_create_sound:
  assumes "sets_sound st" and "contradiction_create x now uuid prin request st = (st', r)"
  shows "sets_sound st'"
proof (cases r)
  case (Inl e)
  with assms contradiction_create_Inl show ?thesis by fastforce
next
  case (Inr s)
  with assms(2) obtain st1 key where "create_set_on_connection x now uuid prin request
      (normalize_namespace (cr_namespace request)) key st = Inr (st1, s)"
    "st' = invalidate_generated_files x st1"
    by (auto elim: contradiction_create_Inr)
  with create_on_connection_sound [OF assms(1)] show ?thesis by auto
qed

subsection \<open>Updating\<close>

lemma resolve_set_simps [simp]:
  "s_members (resolve_set now prin i ns request v st) = s_members st"
  "s_ledger (resolve_set now prin i ns request v st) = s_ledger st"
  "s_meta (resolve_set now prin i ns request v st) = s_meta st"
  "s_revision (resolve_set now prin i ns request v st) = s_revision st + 1"
  by (simp_all add: resolve_set_def)

lemma find_update:
  "(\<And>r. p (f r) = p r) \<Longrightarrow> find p (t_update p f rows) = map_option f (find p rows)"
  by (induction rows) (auto simp: t_update_def)

lemma find_set_resolve:
  "find_set (resolve_set now prin i ns request v st) i ns =
     map_option (\<lambda>r. r\<lparr>cs_preferred_memory_id := ur_preferred_memory_id request,
       cs_status := status_str (ur_status request), cs_resolution_basis := Some (trim (ur_basis request)),
       cs_resolved_by := Some (pr_actor prin), cs_version := v, cs_updated_at := now\<rparr>) (find_set st i ns)"
  by (simp add: resolve_set_def find_set_def find_update)

lemma find_set_ledger [simp]: "find_set (st\<lparr>s_ledger := l\<rparr>) i ns = find_set st i ns"
  by (simp add: find_set_def)

lemma set_members_cong: "s_members st' = s_members st \<Longrightarrow> set_members st' i = set_members st i"
  by (simp add: set_members_def)

lemma contradiction_set_read:
  assumes "contradiction_set_on_connection i ns st = Inr c"
  obtains row where "find_set st i ns = Some row" and "u64_of_i64 (cs_version row) = Some (ct_version c)"
    and "parse_status (cs_status row) = Inr (ct_status c)"
    and "ct_preferred_memory_id c = cs_preferred_memory_id row"
    and "set_members st i = Inr (ct_members c)" and "ct_resolved_by c = cs_resolved_by row"
  using assms that by (auto simp: contradiction_set_on_connection_def try_then_Inr)

lemma find_set_mem: "find_set st i ns = Some row \<Longrightarrow> row \<in> set (s_sets st) \<and> cs_id row = i \<and> cs_namespace row = ns"
  by (auto simp: find_set_def find_Some_iff)

lemma set_members_keys:
  assumes "set_members st i = Inr ms" and "m \<in> set ms"
  shows "(i, cb_memory_id m) \<in> member_key ` set (s_members st)"
proof -
  from assms obtain row where "row \<in> set (s_members st)" "cm_set_id row = i" "cm_memory_id row = cb_memory_id m"
    unfolding set_members_def by (auto dest!: try_map_ok_set simp: try_then_Inr)
  then show ?thesis by (force simp: member_key_def)
qed

text \<open>What the updated set reads as.\<close>

definition resolved_set :: "int \<Rightarrow> policy_principal \<Rightarrow> update_request \<Rightarrow> contradiction_set \<Rightarrow> contradiction_set" where
  "resolved_set now prin request c = c\<lparr>ct_preferred_memory_id := ur_preferred_memory_id request,
     ct_status := ur_status request, ct_resolution_basis := Some (trim (ur_basis request)),
     ct_resolved_by := Some (pr_actor prin), ct_version := Suc (ur_expected_version request),
     ct_updated_at := now\<rparr>"

lemma read_set_ledger [simp]:
  "contradiction_set_on_connection i ns (st\<lparr>s_ledger := l\<rparr>) = contradiction_set_on_connection i ns st"
  by (simp add: contradiction_set_on_connection_def set_members_def)

lemma read_set_resolve:
  assumes "contradiction_set_on_connection i ns st = Inr c"
  shows "contradiction_set_on_connection i ns
      (resolve_set now prin i ns request (int (Suc (ur_expected_version request))) st)
    = Inr (resolved_set now prin request c)"
proof -
  have "s_members (resolve_set now prin i ns request v st) = s_members st" for v by simp
  with assms set_members_cong [OF this] status_codec.parse_show [of "ur_status request"] show ?thesis
    by (auto simp: contradiction_set_on_connection_def find_set_resolve try_then_Inr u64_of_i64_def
        resolved_set_def)
qed

lemma update_set_on_connection_Inr:
  assumes "update_set_on_connection x now prin i ns request st = Inr (st', r)"
  obtains current e where "contradiction_set_on_connection i ns st = Inr current"
    and "ct_version current = ur_expected_version request"
    and "ur_status request \<in> {Preferred, Resolved} \<Longrightarrow> ur_preferred_memory_id request \<noteq> None"
    and "\<And>p. ur_preferred_memory_id request = Some p \<Longrightarrow> p \<in> cb_memory_id ` set (ct_members current)"
    and "st' = (resolve_set now prin i ns request (int (Suc (ur_expected_version request))) st)
        \<lparr>s_ledger := s_ledger st @ [e]\<rparr>"
    and "le_namespace e = ns" and "le_actor e = Some (pr_actor prin)"
    and "le_op_type e = lit ''contradiction_update''"
    and "contradiction_set_on_connection i ns st' = Inr r" and "r = resolved_set now prin request current"
proof -
  from assms obtain current v w h mid payload where
    cur: "contradiction_set_on_connection i ns st = Inr current"
    and ver: "ct_version current = ur_expected_version request"
    and pref: "ur_status request \<in> {Preferred, Resolved} \<Longrightarrow> ur_preferred_memory_id request \<noteq> None"
      "\<not> (case ur_preferred_memory_id request of
          Some preferred \<Rightarrow> \<not> (\<exists>m \<in> set (ct_members current). cb_memory_id m = preferred)
        | None \<Rightarrow> False)"
    and v: "checked_add_u64 (ct_version current) 1 = Some v" "i64_of_u64 v = Some w"
    and ap: "append_ledger_on_connection x now ns mid (lit ''contradiction_update'') (Some (pr_actor prin))
         payload None (resolve_set now prin i ns request w st) = Inr (st', h)"
    and rd: "contradiction_set_on_connection i ns st' = Inr r"
    unfolding update_set_on_connection_def Let_def
    by (force simp: try_then_Inr split: if_split_asm prod.splits)
  have mem: "p \<in> cb_memory_id ` set (ct_members current)" if "ur_preferred_memory_id request = Some p" for p
    using pref(2) that by auto
  from v ver have "w = int (Suc (ur_expected_version request))"
    by (auto simp: checked_add_u64_def i64_of_u64_def split: if_splits)
  with ap have "st' = (resolve_set now prin i ns request (int (Suc (ur_expected_version request))) st)
        \<lparr>s_ledger := s_ledger st @ [appended_entry x now ns mid (lit ''contradiction_update'') (Some (pr_actor prin))
          payload (resolve_set now prin i ns request w st)]\<rparr>" by (simp add: append_ledger_on_connection_Inr)
  from that [OF cur ver pref(1) mem this] rd read_set_resolve [OF cur, of now prin request] this
  show thesis by simp
qed

lemma update_on_connection_sound:
  assumes "sets_sound st" and "update_set_on_connection x now prin i ns request st = Inr (st', r)"
  shows "sets_sound st'"
proof -
  from assms(2) obtain current e where cur: "contradiction_set_on_connection i ns st = Inr current"
    and pref: "ur_status request \<in> {Preferred, Resolved} \<Longrightarrow> ur_preferred_memory_id request \<noteq> None"
      "\<And>p. ur_preferred_memory_id request = Some p \<Longrightarrow> p \<in> cb_memory_id ` set (ct_members current)"
    and st': "st' = (resolve_set now prin i ns request (int (Suc (ur_expected_version request))) st)
        \<lparr>s_ledger := s_ledger st @ [e]\<rparr>"
    by (rule update_set_on_connection_Inr) blast
  have mem: "(i, p) \<in> member_key ` set (s_members st)" if "ur_preferred_memory_id request = Some p" for p
    using cur pref(2) [OF that] set_members_keys by (auto elim!: contradiction_set_read)
  define upd :: "set_row \<Rightarrow> set_row" where "upd = (\<lambda>r. r\<lparr>cs_preferred_memory_id := ur_preferred_memory_id request,
       cs_status := status_str (ur_status request), cs_resolution_basis := Some (trim (ur_basis request)),
       cs_resolved_by := Some (pr_actor prin), cs_version := int (Suc (ur_expected_version request)),
       cs_updated_at := now\<rparr>)"
  show ?thesis
  proof (rule sets_sound_update [OF assms(1), of "\<lambda>r. cs_id r = i \<and> cs_namespace r = ns" upd])
    fix r :: set_row assume "cs_id r = i \<and> cs_namespace r = ns"
    with mem pref(1) show "stored_set_ok st (upd r)"
      unfolding stored_set_ok_def upd_def by (intro exI [of _ "ur_status request"]) auto
  qed (simp_all add: st' resolve_set_def upd_def claim_of_def)
qed

lemma contradiction_update_Inr:
  assumes "contradiction_update x now prin i ns request st = (st', Inr r)"
  shows "authorize prin POLICY_WRITE_CAPABILITY (normalize_namespace ns) = Inr ()"
    and "\<exists>st1. update_set_on_connection x now prin i (normalize_namespace ns) request st = Inr (st1, r)
      \<and> st' = invalidate_generated_files x st1"
  using assms
  by (auto simp: contradiction_update_def update_contradiction_set_def Let_def then_invalidate_def commit_Inr
      try_then_Inr split: sum.splits prod.splits)

lemma contradiction_update_Inl:
  "contradiction_update x now prin i ns request st = (st', Inl e) \<Longrightarrow>
     st' = st \<or> st' = invalidate_generated_files x st"
  by (auto simp: contradiction_update_def update_contradiction_set_def Let_def then_invalidate_def commit_Inl
      split: sum.splits prod.splits)

lemma contradiction_update_sound:
  assumes "sets_sound st" and "contradiction_update x now prin i ns request st = (st', r)"
  shows "sets_sound st'"
proof (cases r)
  case (Inl e)
  with assms contradiction_update_Inl show ?thesis by fastforce
next
  case (Inr s)
  with assms contradiction_update_Inr(2) update_on_connection_sound show ?thesis by fastforce
qed

text \<open>The stored version, and the update transaction as a compare-and-swap.\<close>

definition stored_set_version :: "str \<Rightarrow> str \<Rightarrow> store \<Rightarrow> nat option" where
  "stored_set_version i ns st = (case find_set st i ns of None \<Rightarrow> None | Some r \<Rightarrow> u64_of_i64 (cs_version r))"

definition update_set_cas where
  "update_set_cas x i ns e c st =
     (case c of (now, prin, request) \<Rightarrow>
        update_set_on_connection x now prin i ns (request\<lparr>ur_expected_version := e\<rparr>) st)"

lemma update_set_versions:
  assumes "update_set_on_connection x now prin i ns request st = Inr (st', r)"
  shows "stored_set_version i ns st = Some (ur_expected_version request)"
    and "stored_set_version i ns st' = Some (Suc (ur_expected_version request))"
proof -
  from assms obtain current e where cur: "contradiction_set_on_connection i ns st = Inr current"
    and ver: "ct_version current = ur_expected_version request"
    and st': "st' = (resolve_set now prin i ns request (int (Suc (ur_expected_version request))) st)
        \<lparr>s_ledger := s_ledger st @ [e]\<rparr>"
    by (rule update_set_on_connection_Inr) blast
  from cur ver show "stored_set_version i ns st = Some (ur_expected_version request)"
    by (auto elim!: contradiction_set_read simp: stored_set_version_def)
  from cur show "stored_set_version i ns st' = Some (Suc (ur_expected_version request))"
    by (auto elim!: contradiction_set_read simp: stored_set_version_def st' find_set_resolve u64_of_i64_def)
qed

interpretation contradiction_cas: versioned_store "stored_set_version i ns" "update_set_cas x i ns" for x i ns
proof
  fix st :: store and e :: nat and c :: "int \<times> policy_principal \<times> update_request"
  assume stale: "stored_set_version i ns st \<noteq> Some e"
  show "\<exists>er. update_set_cas x i ns e c st = Inl er"
  proof (cases "update_set_cas x i ns e c st")
    case (Inr sr)
    then have "stored_set_version i ns st = Some e"
      by (cases sr) (auto simp: update_set_cas_def dest!: update_set_versions(1) split: prod.splits)
    with stale show ?thesis by simp
  qed simp
next
  fix e c st st' r
  assume "update_set_cas x i ns e c st = Inr (st', r)"
  then show "stored_set_version i ns st' = Some (Suc e)"
    by (auto simp: update_set_cas_def dest!: update_set_versions(2) split: prod.splits)
qed

subsection \<open>The reconciler\<close>

definition member_present :: "store \<Rightarrow> str \<Rightarrow> int \<Rightarrow> bool" where
  "member_present st i m \<longleftrightarrow> (i, m) \<in> member_key ` set (s_members st)"

lemma insert_member_if_new_cases:
  assumes "insert_member_if_new now row st = (st', Inr n)"
  obtains (known) "n = 0" "st' = st" "member_present st (cm_set_id row) (cm_memory_id row)"
  | (new) "n = 1" "s_sets st' = s_sets st" "s_ledger st' = s_ledger st" "s_members st' = s_members st @ [row]"
    "\<not> member_present st (cm_set_id row) (cm_memory_id row)"
    "t_get member_key (member_key row) (s_members st) = None"
proof (cases "t_get member_key (member_key row) (s_members st) = None")
  case True
  with assms new show thesis
    by (auto simp: insert_member_if_new_def member_present_def t_get_None member_key_def split: if_splits)
next
  case False
  then have "member_present st (cm_set_id row) (cm_memory_id row)"
    unfolding member_present_def t_get_None by (simp add: member_key_def)
  with assms False known show thesis by (simp add: insert_member_if_new_def)
qed

lemma insert_member_if_new_err: "insert_member_if_new now row st = (st', Inl e) \<Longrightarrow> st' = st"
  by (auto simp: insert_member_if_new_def split: if_splits)

lemma insert_member_if_new_sound:
  assumes "sets_sound st" and "cm_set_id row \<in> cs_id ` set (s_sets st)"
    and "insert_member_if_new now row st = (st', r)"
  shows "sets_sound st' \<and> s_sets st' = s_sets st"
proof (cases r)
  case (Inl e)
  with assms insert_member_if_new_err show ?thesis by fastforce
next
  case (Inr n)
  from assms(3) [unfolded Inr] show ?thesis
    using assms(1,2) sets_sound_member [OF assms(1), of st' row]
    by (cases rule: insert_member_if_new_cases) auto
qed

lemma insert_graph_members_sound:
  assumes "sets_sound st" and "i \<in> cs_id ` set (s_sets st)"
    and "insert_graph_members now i ms n st = (st', r)"
  shows "sets_sound st' \<and> s_sets st' = s_sets st"
  using assms
proof (induction ms arbitrary: n st)
  case (Cons m ms)
  let ?row = "\<lparr>cm_set_id = i, cm_memory_id = m, cm_stance = lit ''competing'', cm_created_at = now\<rparr>"
  obtain st1 q where q: "insert_member_if_new now ?row st = (st1, q)" by fastforce
  with Cons.prems insert_member_if_new_sound [OF Cons.prems(1) _ q]
  have st1: "sets_sound st1" "s_sets st1 = s_sets st" by auto
  show ?case
  proof (cases q)
    case (Inl e)
    with Cons.prems q st1 show ?thesis by simp
  next
    case (Inr k)
    with Cons.prems q have "insert_graph_members now i ms (n + k) st1 = (st', r)" by simp
    with Cons.IH [OF st1(1)] Cons.prems(2) st1(2) show ?thesis by auto
  qed
qed simp

text \<open>What a successful loop does: every listed memory ends as a member, no membership is lost, and
  the count is zero exactly when nothing was written.\<close>

lemma insert_graph_members_Inr:
  assumes "insert_graph_members now i ms n st = (st', Inr n')"
  shows "s_sets st' = s_sets st \<and> s_ledger st' = s_ledger st \<and> n \<le> n'
    \<and> (\<forall>j k. member_present st j k \<longrightarrow> member_present st' j k) \<and> (\<forall>m \<in> set ms. member_present st' i m)
    \<and> (n' = n \<longleftrightarrow> (\<forall>m \<in> set ms. member_present st i m)) \<and> (n' = n \<longrightarrow> st' = st)"
  using assms
proof (induction ms arbitrary: n st)
  case (Cons m ms)
  let ?row = "\<lparr>cm_set_id = i, cm_memory_id = m, cm_stance = lit ''competing'', cm_created_at = now\<rparr>"
  obtain st1 k where q: "insert_member_if_new now ?row st = (st1, Inr k)"
    and rest: "insert_graph_members now i ms (n + k) st1 = (st', Inr n')"
    using Cons.prems by (auto simp: and_then_Inr)
  note IH = Cons.IH [OF rest]
  from q show ?case
  proof (cases rule: insert_member_if_new_cases)
    case known
    with IH show ?thesis by auto
  next
    case new
    then have "member_present st1 j l \<longleftrightarrow> member_present st j l \<or> (j = i \<and> l = m)" for j l
      by (auto simp: member_present_def member_key_def)
    with new IH show ?thesis by auto
  qed
qed simp

lemma graph_store_sound: "sets_sound st \<Longrightarrow> sets_sound (graph_store now pid ns realm project key st)"
  using sets_sound_new_set [of st "graph_row now pid ns realm project key"]
  by (simp add: graph_store_def graph_row_def new_set_row_def)

lemma reopen_set_sound:
  assumes "sets_sound st"
  shows "sets_sound (reopen_set now i st)"
proof (rule sets_sound_update [OF assms, where p = "\<lambda>r. cs_id r = i" and f = "\<lambda>r. r\<lparr>cs_status := lit ''unresolved'',
    cs_preferred_memory_id := None, cs_resolution_basis := None, cs_resolved_by := None,
    cs_version := cs_version r + 1, cs_updated_at := now\<rparr>"])
  fix r :: set_row
  show "stored_set_ok st (r\<lparr>cs_status := lit ''unresolved'', cs_preferred_memory_id := None,
      cs_resolution_basis := None, cs_resolved_by := None, cs_version := cs_version r + 1, cs_updated_at := now\<rparr>)"
    unfolding stored_set_ok_def by (intro exI [of _ Unresolved]) simp
qed (simp_all add: reopen_set_def claim_of_def)

lemma append_ledger_tables:
  "append_ledger x now ns m op a p st = (st', r) \<Longrightarrow> s_sets st' = s_sets st \<and> s_members st' = s_members st
     \<and> s_meta st' = s_meta st \<and> s_policies st' = s_policies st"
  by (cases r) (auto simp: append_ledger_def append_ledger_with_expected_head_def commit_Inr commit_Inl
      append_ledger_on_connection_Inr)

lemma ensure_graph_unfold:
  "ensure_graph_contradiction_set x now pid ns realm project key ids st =
     (let st1 = graph_store now pid ns realm project key st in
      case find (\<lambda>r. claim_of r = claim_of (graph_row now pid ns realm project key)) (s_sets st1) of
        None \<Rightarrow> (st1, Inl DbRowNotFound)
      | Some found \<Rightarrow>
          and_then (insert_graph_members now (cs_id found) ids 0 st1) (\<lambda>n st2.
            if n = 0 then (st2, Inr (cs_id found))
            else and_then (append_ledger x now (normalize_namespace ns)
                (case ids of [] \<Rightarrow> None | m # _ \<Rightarrow> Some m) (lit ''contradiction_detected'')
                (Some (lit ''ironmem:graph-reconciler'')) (json_text x (graph_payload (cs_id found) key ids))
                (if cs_id found \<noteq> pid then reopen_set now (cs_id found) st2 else st2))
              (\<lambda>_ st4. (st4, Inr (cs_id found)))))"
  unfolding ensure_graph_contradiction_set_def Let_def by (rule refl)

lemma ensure_graph_sound:
  assumes "sets_sound st" and "ensure_graph_contradiction_set x now pid ns realm project key ids st = (st', r)"
  shows "sets_sound st'"
proof -
  let ?s = "graph_store now pid ns realm project key st"
  let ?f = "find (\<lambda>r. claim_of r = claim_of (graph_row now pid ns realm project key)) (s_sets ?s)"
  have s: "sets_sound ?s" using graph_store_sound [OF assms(1)] .
  show ?thesis
  proof (cases ?f)
    case None
    with assms(2) s show ?thesis by (auto simp: ensure_graph_unfold)
  next
    case (Some found)
    then have i: "cs_id found \<in> cs_id ` set (s_sets ?s)" by (auto simp: find_Some_iff)
    obtain st2 q where q: "insert_graph_members now (cs_id found) ids 0 ?s = (st2, q)" by fastforce
    note s2 = insert_graph_members_sound [OF s i q]
    have s3: "sets_sound (if cs_id found \<noteq> pid then reopen_set now (cs_id found) st2 else st2)"
      using s2 reopen_set_sound by simp
    show ?thesis
    proof (cases q)
      case (Inl e)
      with assms(2) Some q s2 show ?thesis by (simp add: ensure_graph_unfold)
    next
      case (Inr n)
      obtain st4 a where a: "append_ledger x now (normalize_namespace ns)
          (case ids of [] \<Rightarrow> None | m # _ \<Rightarrow> Some m) (lit ''contradiction_detected'')
          (Some (lit ''ironmem:graph-reconciler'')) (json_text x (graph_payload (cs_id found) key ids))
          (if cs_id found \<noteq> pid then reopen_set now (cs_id found) st2 else st2) = (st4, a)" by fastforce
      from append_ledger_tables [OF a] s3 have "sets_sound st4" using sets_sound_cong by blast
      with assms(2) Some q Inr a s2 show ?thesis
        by (cases a) (auto simp: ensure_graph_unfold Let_def split: if_splits)
    qed
  qed
qed

section \<open>Runs\<close>

text \<open>The operations on contradiction sets in any order, with any arguments and any result, between
  operations that leave the two tables alone.\<close>

inductive contradiction_reachable :: "externals \<Rightarrow> store \<Rightarrow> bool" for x where
  start: "s_sets st = [] \<Longrightarrow> s_members st = [] \<Longrightarrow> contradiction_reachable x st"
| create: "contradiction_reachable x st \<Longrightarrow> contradiction_create x now uuid prin request st = (st', r)
    \<Longrightarrow> contradiction_reachable x st'"
| update: "contradiction_reachable x st \<Longrightarrow> contradiction_update x now prin i ns urequest st = (st', r)
    \<Longrightarrow> contradiction_reachable x st'"
| detect: "contradiction_reachable x st
    \<Longrightarrow> ensure_graph_contradiction_set x now pid ns realm project key ids st = (st', rs)
    \<Longrightarrow> contradiction_reachable x st'"
| other: "contradiction_reachable x st \<Longrightarrow> s_sets st' = s_sets st \<Longrightarrow> s_members st' = s_members st
    \<Longrightarrow> contradiction_reachable x st'"

lemma contradiction_reachable_sound: "contradiction_reachable x st \<Longrightarrow> sets_sound st"
proof (induction rule: contradiction_reachable.induct)
  case (start st)
  then show ?case by (simp add: sets_sound_def)
next
  case (other st st')
  then show ?case using sets_sound_cong by blast
qed (blast intro: contradiction_create_sound contradiction_update_sound ensure_graph_sound)+

section \<open>A concrete store\<close>

definition demo_pair_store :: store where
  "demo_pair_store = empty_store\<lparr>s_meta := [new_meta_row 1 3, new_meta_row 2 3]\<rparr>"

definition demo_claim :: "int list \<Rightarrow> store \<Rightarrow> store \<times> (app_error + str)" where
  "demo_claim = ensure_graph_contradiction_set demo_sql 5 (lit ''c1'') (lit ''local'') (lit ''project'')
     (Some (lit ''p'')) (lit ''status'')"

definition demo_conflict :: store where
  "demo_conflict = fst (demo_claim [1] demo_pair_store)"

lemma demo_sql_hash:
  "ledger_entry_hash demo_sql p ns (Some 1) op act pay 5 = lit ''3531''"
  "ledger_entry_hash demo_sql p ns (Some 1) op act pay 7 = lit ''3731''"
  "ledger_entry_hash demo_sql p ns (Some 1) op act pay 8 = lit ''3831''"
  by (simp_all add: ledger_entry_hash_def ledger_payload_def json_obj_def demo_sql_def sha256_hex_def
      j_opt_int_def j_opt_str_def as_bytes_def utf8_char_def hex_digit_def rust_str split: option.split)

lemma demo_conflict_tables:
  "demo_claim [1] demo_pair_store = (demo_conflict, Inr (lit ''c1''))"
  "s_sets demo_conflict = [new_set_row (lit ''c1'') (lit ''local'') (lit ''project'') (Some (lit ''p''))
     (lit ''status'') (lit ''single'') 5]"
  "s_members demo_conflict = [\<lparr>cm_set_id = lit ''c1'', cm_memory_id = 1, cm_stance = lit ''competing'',
     cm_created_at = 5\<rparr>]"
  "s_meta demo_conflict = [new_meta_row 1 3, new_meta_row 2 3]"
  "map le_entry_hash (s_ledger demo_conflict) = [lit ''3531'']"
  unfolding demo_conflict_def demo_claim_def
  by (simp_all add: ensure_graph_unfold demo_pair_store_def empty_store_def graph_store_def graph_row_def
      set_conflicts_def demo_local insert_member_if_new_def get_meta_def t_get_def new_meta_row_def claim_of_def
      append_ledger_def append_ledger_with_expected_head_def commit_def append_ledger_on_connection_def Let_def
      new_set_row_def demo_sql_hash split del: if_split)

definition demo_prefer :: update_request where
  "demo_prefer = \<lparr>ur_expected_version = 1, ur_status = Preferred, ur_preferred_memory_id = Some 1,
     ur_basis = lit ''audit''\<rparr>"

lemma demo_conflict_read:
  "contradiction_set_on_connection (lit ''c1'') (lit ''local'') demo_conflict = Inr \<lparr>
     ct_id = lit ''c1'', ct_namespace = lit ''local'', ct_realm = lit ''project'', ct_project = Some (lit ''p''),
     ct_claim_key = lit ''status'', ct_claim_schema_version = 1, ct_cardinality = CardSingle,
     ct_preferred_memory_id = None, ct_status = Unresolved, ct_resolution_basis = None,
     ct_resolved_by = None, ct_version = 1, ct_created_at = 5, ct_updated_at = 5,
     ct_members = [\<lparr>cb_memory_id = 1, cb_stance = Competing\<rparr>]\<rparr>"
  using cardinality_codec.parse_show [of CardSingle] status_codec.parse_show [of Unresolved]
    stance_codec.parse_show [of Competing]
  by (simp add: contradiction_set_on_connection_def find_set_def set_members_def demo_conflict_tables
      new_set_row_def CLAIM_SCHEMA_VERSION_def u32_of_i64_def u64_of_i64_def int_limits)

lemma demo_prefer_update:
  "\<exists>st' r. update_set_on_connection demo_sql 7 (local_operator (lit ''op'')) (lit ''c1'') (lit ''local'')
     demo_prefer demo_conflict = Inr (st', r)"
proof -
  obtain e where e: "s_ledger demo_conflict = [e]" "le_entry_hash e = lit ''3531''"
    using demo_conflict_tables(5) by auto
  let ?st = "resolve_set 7 (local_operator (lit ''op'')) (lit ''c1'') (lit ''local'') demo_prefer 2 demo_conflict"
  have "\<exists>c. contradiction_set_on_connection (lit ''c1'') (lit ''local'') ?st = Inr c"
    using read_set_resolve [OF demo_conflict_read, of 7 "local_operator (lit ''op'')" demo_prefer]
    by (simp add: demo_prefer_def)
  then obtain c where "contradiction_set_on_connection (lit ''c1'') (lit ''local'') ?st = Inr c" by blast
  then show ?thesis
    by (simp add: update_set_on_connection_def demo_conflict_read checked_add_u64_def i64_of_u64_def
        int_limits append_ledger_on_connection_def demo_sql_hash e lit_eq Let_def demo_prefer_def)
qed

lemma demo_prefer_committed:
  "\<exists>st' r. contradiction_update demo_sql 7 (local_operator (lit ''op'')) (lit ''c1'') (lit ''local'')
     demo_prefer demo_conflict = (st', Inr r)"
proof -
  have "authorize (local_operator (lit ''op'')) POLICY_WRITE_CAPABILITY (lit ''local'') = Inr ()"
    by (rule demo_policy_authorized)
  moreover have "validate_text (lit ''basis'') (ur_basis demo_prefer) MAX_BASIS_BYTES = Inr ()"
    by (simp add: validate_text_def demo_prefer_def MAX_BASIS_BYTES_def rust_str char_len_def)
  ultimately show ?thesis using demo_prefer_update
    by (auto simp: contradiction_update_def update_contradiction_set_def demo_local then_invalidate_def
        commit_def Let_def)
qed

subsection \<open>Detection on a known claim\<close>

lemma claim_of_graph_row:
  "claim_of (graph_row now pid ns realm project key)
     = (normalize_namespace ns, realm, (case project of None \<Rightarrow> [] | Some p \<Rightarrow> p), key)"
  by (simp add: claim_of_def graph_row_def new_set_row_def)

lemma find_keyed: "t_keyed key rows \<Longrightarrow> r \<in> set rows \<Longrightarrow> key r = k \<Longrightarrow> find (\<lambda>r. key r = k) rows = Some r"
  using t_get_in [of key rows r] by (simp add: t_get_def)

lemma known_claim:
  assumes "sets_sound st" and "found \<in> set (s_sets st)"
    and "claim_of found = (normalize_namespace ns, realm, (case project of None \<Rightarrow> [] | Some p \<Rightarrow> p), key)"
  shows "graph_store now pid ns realm project key st = st"
    and "find (\<lambda>r. claim_of r = claim_of (graph_row now pid ns realm project key)) (s_sets st) = Some found"
proof -
  show "find (\<lambda>r. claim_of r = claim_of (graph_row now pid ns realm project key)) (s_sets st) = Some found"
    using find_keyed [of claim_of "s_sets st" found] assms by (simp add: sets_sound_def claim_of_graph_row)
  show "graph_store now pid ns realm project key st = st"
    using assms by (auto simp: graph_store_def set_conflicts_def claim_of_graph_row)
qed

lemma reopen_set_get:
  assumes "t_get cs_id i (s_sets st) = Some found"
  shows "t_get cs_id i (s_sets (reopen_set now i st)) = Some (found\<lparr>cs_status := lit ''unresolved'',
    cs_preferred_memory_id := None, cs_resolution_basis := None, cs_resolved_by := None,
    cs_version := cs_version found + 1, cs_updated_at := now\<rparr>)"
  using assms by (simp add: reopen_set_def t_get_update)

lemma reopen_set_simps [simp]:
  "s_members (reopen_set now i st) = s_members st" "s_ledger (reopen_set now i st) = s_ledger st"
  "s_meta (reopen_set now i st) = s_meta st"
  by (simp_all add: reopen_set_def)

lemma append_ledger_Inr:
  "append_ledger x now ns m op a p st = (st', Inr h) \<Longrightarrow>
     \<exists>e. st' = st\<lparr>s_ledger := s_ledger st @ [e]\<rparr> \<and> le_namespace e = normalize_namespace ns \<and> le_memory_id e = m
       \<and> le_op_type e = op \<and> le_actor e = a \<and> le_payload e = p"
  by (auto simp: append_ledger_def append_ledger_with_expected_head_def commit_Inr append_ledger_on_connection_Inr)

lemma detect_known_Inr:
  assumes "sets_sound st" and "found \<in> set (s_sets st)"
    and "claim_of found = (normalize_namespace ns, realm, (case project of None \<Rightarrow> [] | Some p \<Rightarrow> p), key)"
    and "ensure_graph_contradiction_set x now pid ns realm project key ids st = (st', Inr i)"
    and "m \<in> set ids" and "\<not> member_present st (cs_id found) m" and "cs_id found \<noteq> pid"
  obtains n st2 h where "i = cs_id found" and "insert_graph_members now i ids 0 st = (st2, Inr n)"
    and "append_ledger x now (normalize_namespace ns) (case ids of [] \<Rightarrow> None | m # _ \<Rightarrow> Some m)
      (lit ''contradiction_detected'') (Some (lit ''ironmem:graph-reconciler''))
      (json_text x (graph_payload i key ids)) (reopen_set now i st2) = (st', Inr h)"
proof -
  from assms(4) obtain st2 n where ins: "insert_graph_members now (cs_id found) ids 0 st = (st2, Inr n)"
    by (auto simp: ensure_graph_unfold known_claim [OF assms(1-3)] Let_def and_then_Inr)
  have "n \<noteq> 0" using insert_graph_members_Inr [OF ins] assms(5,6) by auto
  with assms(4,7) ins that show thesis
    by (auto simp: ensure_graph_unfold known_claim [OF assms(1-3)] Let_def and_then_Inr)
qed

section \<open>Properties\<close>

text \<open>CX: However creations, resolutions and graph detections interleave, and whatever their results, the
  stored sets stay sound: set ids and claims are unique (one set per namespace, realm, project
  and claim key), no memory is twice a member of a set, every member row belongs to a stored set,
  every status is one the code can parse, and a preferred or resolved set names one of its members
  as the preferred memory.\<close>

theorem contradiction_sets_sound:
  assumes "contradiction_reachable x st"
  shows "distinct (map cs_id (s_sets st)) \<and> distinct (map claim_of (s_sets st))
    \<and> distinct (map member_key (s_members st))
    \<and> (\<forall>m \<in> set (s_members st). cm_set_id m \<in> cs_id ` set (s_sets st))
    \<and> (\<forall>r \<in> set (s_sets st). \<exists>status. parse_status (cs_status r) = Inr status
        \<and> (status \<in> {Preferred, Resolved} \<longrightarrow>
           (\<exists>p. cs_preferred_memory_id r = Some p \<and> (cs_id r, p) \<in> member_key ` set (s_members st))))"
proof -
  have s: "sets_sound st" using contradiction_reachable_sound [OF assms] .
  have "parse_status (status_str a) = Inr a" for a
    using status_codec.parse_show [of a] by simp
  with s show ?thesis unfolding sets_sound_def stored_set_ok_def t_keyed_def by metis
qed

theorem contradiction_sets_sound_witness:
  "\<exists>st. contradiction_reachable demo_sql st \<and> s_sets st \<noteq> [] \<and> distinct (map claim_of (s_sets st))"
proof -
  have "contradiction_reachable demo_sql demo_pair_store"
    by (rule contradiction_reachable.start) (simp_all add: demo_pair_store_def empty_store_def)
  then have r: "contradiction_reachable demo_sql demo_conflict"
    using demo_conflict_tables(1) unfolding demo_claim_def by (rule contradiction_reachable.detect)
  from contradiction_sets_sound [OF this] have "distinct (map claim_of (s_sets demo_conflict))" by blast
  moreover have "s_sets demo_conflict \<noteq> []" by (simp add: demo_conflict_tables)
  ultimately show ?thesis using r by blast
qed

text \<open>CX: No resolution is lost: of any queue of updates of one set, run in the order in which they got
  the write lock, the accepted ones saw consecutive versions, so two operators who decided on the
  same version cannot both succeed.\<close>

theorem contradiction_updates_serialize:
  assumes "stored_set_version i ns st = Some v"
    and "versioned_store.run (update_set_cas x i ns) queue st = (st', accepted)"
  shows "stored_set_version i ns st' = Some (v + length accepted) \<and> accepted = [v..<v + length accepted]
    \<and> distinct accepted"
proof -
  obtain v' where "stored_set_version i ns st' = Some v'" "accepted = [v..<v']" "v \<le> v'"
    using contradiction_cas.run_versions [OF assms] by blast
  then show ?thesis by simp
qed

theorem contradiction_updates_serialize_witness:
  "let q = (7, local_operator (lit ''op''), demo_prefer) in
   snd (versioned_store.run (update_set_cas demo_sql (lit ''c1'') (lit ''local'')) [(1, q), (1, q)] demo_conflict) = [1]"
proof -
  let ?q = "(7, local_operator (lit ''op''), demo_prefer)"
  let ?cas = "update_set_cas demo_sql (lit ''c1'') (lit ''local'')"
  have e: "demo_prefer\<lparr>ur_expected_version := 1\<rparr> = demo_prefer" by (simp add: demo_prefer_def)
  obtain st1 r where u: "?cas 1 ?q demo_conflict = Inr (st1, r)"
    using demo_prefer_update e by (auto simp: update_set_cas_def)
  then obtain er where er: "?cas 1 ?q st1 = Inl er" using contradiction_cas.update_repeated by blast
  obtain st' acc where run: "versioned_store.run ?cas [(1, ?q), (1, ?q)] demo_conflict = (st', acc)"
    by (cases "versioned_store.run ?cas [(1, ?q), (1, ?q)] demo_conflict")
  have "stored_set_version (lit ''c1'') (lit ''local'') demo_conflict = Some 1"
    using u contradiction_cas.update_expected by blast
  from contradiction_updates_serialize [OF this run] have "acc = [1..<1 + length acc]" by blast
  moreover have "length acc = 1" using u er run by (auto split: prod.splits)
  ultimately show ?thesis unfolding Let_def run by (cases acc) (auto simp: upt_conv_Cons)
qed

text \<open>CX: An accepted resolution was authorised for writing in its namespace, was made against the
  stored version, and is exactly what the next read returns: the members unchanged, the requested
  status and preference, the actor, one version up. A preferred or resolved status names a member.
  The same transaction appended one ledger entry naming the actor, advanced the context revision,
  and left no generated file registered as stale.\<close>

theorem contradiction_update_commits:
  assumes "contradiction_update x now prin i ns request st = (st', Inr r)"
  shows "authorize prin POLICY_WRITE_CAPABILITY (normalize_namespace ns) = Inr ()
    \<and> contradiction_set_on_connection i (normalize_namespace ns) st' = Inr r
    \<and> (\<exists>current. contradiction_set_on_connection i (normalize_namespace ns) st = Inr current
        \<and> ct_version current = ur_expected_version request
        \<and> r = resolved_set now prin request current
        \<and> (ct_status r \<in> {Preferred, Resolved} \<longrightarrow>
            (\<exists>m \<in> set (ct_members r). ct_preferred_memory_id r = Some (cb_memory_id m))))
    \<and> (\<exists>e. s_ledger st' = s_ledger st @ [e] \<and> le_namespace e = normalize_namespace ns
        \<and> le_actor e = Some (pr_actor prin) \<and> le_op_type e = lit ''contradiction_update'')
    \<and> s_members st' = s_members st \<and> s_revision st' = s_revision st + 1
    \<and> (\<forall>f \<in> set (s_context_files st'). \<not> context_file_stale f)"
proof -
  let ?N = "normalize_namespace ns"
  obtain st1 where u: "update_set_on_connection x now prin i ?N request st = Inr (st1, r)"
    and st': "st' = invalidate_generated_files x st1"
    using contradiction_update_Inr(2) [OF assms] by blast
  obtain current e where cur: "contradiction_set_on_connection i ?N st = Inr current"
      "ct_version current = ur_expected_version request" "r = resolved_set now prin request current"
    and pref: "ur_status request \<in> {Preferred, Resolved} \<Longrightarrow> ur_preferred_memory_id request \<noteq> None"
      "\<And>p. ur_preferred_memory_id request = Some p \<Longrightarrow> p \<in> cb_memory_id ` set (ct_members current)"
    and st1: "st1 = (resolve_set now prin i ?N request (int (Suc (ur_expected_version request))) st)
        \<lparr>s_ledger := s_ledger st @ [e]\<rparr>"
    and e: "le_namespace e = ?N" "le_actor e = Some (pr_actor prin)" "le_op_type e = lit ''contradiction_update''"
    and rd: "contradiction_set_on_connection i ?N st1 = Inr r"
    using u by (rule update_set_on_connection_Inr) blast
  have "contradiction_set_on_connection i ?N st' = Inr r"
    using rd by (simp add: contradiction_set_on_connection_def find_set_def set_members_def st')
  moreover have "ct_status r \<in> {Preferred, Resolved} \<longrightarrow>
      (\<exists>m \<in> set (ct_members r). ct_preferred_memory_id r = Some (cb_memory_id m))"
    using pref cur(3) by (fastforce simp: resolved_set_def)
  moreover have "\<forall>f \<in> set (s_context_files st'). \<not> context_file_stale f"
    unfolding st' using invalidate_clears by blast
  moreover have "s_ledger st' = s_ledger st @ [e]" "s_members st' = s_members st"
    "s_revision st' = s_revision st + 1" by (simp_all add: st' st1)
  ultimately show ?thesis using contradiction_update_Inr(1) [OF assms] cur e by blast
qed

theorem contradiction_update_commits_witness:
  "\<exists>st' r. contradiction_update demo_sql 7 (local_operator (lit ''op'')) (lit ''c1'') (lit ''local'')
     demo_prefer demo_conflict = (st', Inr r) \<and> ct_version r = 2 \<and> ct_preferred_memory_id r = Some 1"
proof -
  obtain st' r where u: "contradiction_update demo_sql 7 (local_operator (lit ''op'')) (lit ''c1'') (lit ''local'')
     demo_prefer demo_conflict = (st', Inr r)" using demo_prefer_committed by blast
  from contradiction_update_commits [OF this] obtain current
    where "r = resolved_set 7 (local_operator (lit ''op'')) demo_prefer current" by blast
  with u show ?thesis by (auto simp: resolved_set_def demo_prefer_def)
qed

text \<open>CX: When the graph reconciler finds a memory that is not yet a member of the set that carries the
  claim, every listed memory becomes a member and the set is reopened: unresolved, without
  preference, basis or resolver, one version up, so a resolution decided before cannot be
  confirmed against it; one ledger entry records the detection.\<close>

theorem graph_detection_reopens:
  assumes "contradiction_reachable x st" and "found \<in> set (s_sets st)"
    and "claim_of found = (normalize_namespace ns, realm, (case project of None \<Rightarrow> [] | Some p \<Rightarrow> p), key)"
    and "ensure_graph_contradiction_set x now pid ns realm project key ids st = (st', Inr i)"
    and "m \<in> set ids" and "\<not> member_present st (cs_id found) m" and "cs_id found \<noteq> pid"
  shows "i = cs_id found
    \<and> t_get cs_id i (s_sets st') = Some (found\<lparr>cs_status := status_str Unresolved,
        cs_preferred_memory_id := None, cs_resolution_basis := None, cs_resolved_by := None,
        cs_version := cs_version found + 1, cs_updated_at := now\<rparr>)
    \<and> (\<forall>k \<in> set ids. member_present st' i k)
    \<and> (\<exists>e. s_ledger st' = s_ledger st @ [e] \<and> le_op_type e = lit ''contradiction_detected'')"
proof -
  have s: "sets_sound st" using contradiction_reachable_sound [OF assms(1)] .
  from detect_known_Inr [OF s assms(2-7)] obtain n st2 h where i: "i = cs_id found"
    and ins: "insert_graph_members now i ids 0 st = (st2, Inr n)"
    and app: "append_ledger x now (normalize_namespace ns) (case ids of [] \<Rightarrow> None | m # _ \<Rightarrow> Some m)
      (lit ''contradiction_detected'') (Some (lit ''ironmem:graph-reconciler''))
      (json_text x (graph_payload i key ids)) (reopen_set now i st2) = (st', Inr h)" .
  have g: "t_get cs_id i (s_sets st2) = Some found"
    using insert_graph_members_Inr [OF ins] t_get_in [of cs_id "s_sets st" found] s assms(2) i
    by (simp add: sets_sound_def)
  have "\<forall>k \<in> set ids. member_present st2 i k" "s_ledger st2 = s_ledger st"
    using insert_graph_members_Inr [OF ins] by auto
  with reopen_set_get [OF g] i append_ledger_Inr [OF app] show ?thesis
    by (auto simp: member_present_def)
qed

lemma demo_detect_again:
  "\<exists>st'. ensure_graph_contradiction_set demo_sql 8 (lit ''c2'') (lit ''local'') (lit ''project'') (Some (lit ''p''))
     (lit ''status'') [1, 2] demo_conflict = (st', Inr (lit ''c1''))"
proof -
  obtain e where e: "s_ledger demo_conflict = [e]" "le_entry_hash e = lit ''3531''"
    using demo_conflict_tables(5) by auto
  show ?thesis
    by (simp add: ensure_graph_unfold graph_store_def graph_row_def set_conflicts_def demo_local demo_conflict_tables
      insert_member_if_new_def get_meta_def t_get_def new_meta_row_def claim_of_def member_key_def lit_eq e
      append_ledger_def append_ledger_with_expected_head_def commit_def append_ledger_on_connection_def Let_def
      new_set_row_def demo_sql_hash)
qed

lemma demo_conflict_reachable: "contradiction_reachable demo_sql demo_conflict"
proof -
  have "contradiction_reachable demo_sql demo_pair_store"
    by (rule contradiction_reachable.start) (simp_all add: demo_pair_store_def empty_store_def)
  then show ?thesis
    using demo_conflict_tables(1) unfolding demo_claim_def by (rule contradiction_reachable.detect)
qed

theorem graph_detection_reopens_witness:
  "\<exists>st'. ensure_graph_contradiction_set demo_sql 8 (lit ''c2'') (lit ''local'') (lit ''project'') (Some (lit ''p''))
     (lit ''status'') [1, 2] demo_conflict = (st', Inr (lit ''c1'')) \<and> member_present st' (lit ''c1'') 2"
proof -
  let ?row = "new_set_row (lit ''c1'') (lit ''local'') (lit ''project'') (Some (lit ''p''))
     (lit ''status'') (lit ''single'') 5"
  obtain st' where d: "ensure_graph_contradiction_set demo_sql 8 (lit ''c2'') (lit ''local'') (lit ''project'')
      (Some (lit ''p'')) (lit ''status'') [1, 2] demo_conflict = (st', Inr (lit ''c1''))"
    using demo_detect_again by blast
  have "?row \<in> set (s_sets demo_conflict)" "\<not> member_present demo_conflict (cs_id ?row) 2"
    "cs_id ?row \<noteq> lit ''c2''" "claim_of ?row = (normalize_namespace (lit ''local''), lit ''project'',
      (case Some (lit ''p'') of None \<Rightarrow> [] | Some p \<Rightarrow> p), lit ''status'')"
    by (simp_all add: demo_conflict_tables member_present_def member_key_def new_set_row_def lit_eq
        claim_of_def demo_local)
  from graph_detection_reopens [OF demo_conflict_reachable this(1) this(4) d, of 2] this d show ?thesis by auto
qed

text \<open>CX: Detection is idempotent: when every listed memory already belongs to the set that carries
  the claim, nothing is written, no resolution is undone and no ledger entry is appended.\<close>

theorem graph_detection_idempotent:
  assumes "contradiction_reachable x st" and "found \<in> set (s_sets st)"
    and "claim_of found = (normalize_namespace ns, realm, (case project of None \<Rightarrow> [] | Some p \<Rightarrow> p), key)"
    and "\<forall>m \<in> set ids. member_present st (cs_id found) m"
  shows "ensure_graph_contradiction_set x now pid ns realm project key ids st = (st, Inr (cs_id found))"
proof -
  have s: "sets_sound st" using contradiction_reachable_sound [OF assms(1)] .
  have known: "insert_graph_members now i ms n st = (st, Inr n)"
    if "\<forall>m \<in> set ms. member_present st i m" for ms n i
    using that
    by (induction ms) (auto simp: insert_member_if_new_def member_present_def t_get_None member_key_def image_iff)
  show ?thesis
    by (simp add: ensure_graph_unfold known_claim [OF s assms(2,3)] known [OF assms(4)] Let_def)
qed

theorem graph_detection_idempotent_witness:
  "ensure_graph_contradiction_set demo_sql 8 (lit ''c2'') (lit ''local'') (lit ''project'') (Some (lit ''p''))
     (lit ''status'') [1] demo_conflict = (demo_conflict, Inr (lit ''c1''))"
proof -
  let ?row = "new_set_row (lit ''c1'') (lit ''local'') (lit ''project'') (Some (lit ''p''))
     (lit ''status'') (lit ''single'') 5"
  have "?row \<in> set (s_sets demo_conflict)" "\<forall>m \<in> set [1]. member_present demo_conflict (cs_id ?row) m"
    "claim_of ?row = (normalize_namespace (lit ''local''), lit ''project'',
      (case Some (lit ''p'') of None \<Rightarrow> [] | Some p \<Rightarrow> p), lit ''status'')" "cs_id ?row = lit ''c1''"
    by (simp_all add: demo_conflict_tables member_present_def member_key_def new_set_row_def
        claim_of_def demo_local)
  from graph_detection_idempotent [OF demo_conflict_reachable this(1,3,2)] this(4) show ?thesis by simp
qed

end
