(* ===== verification/Spec2Isabelle.thy ===== *)
theory Spec2Isabelle
  imports Egress Contradiction
begin

text \<open>
  IronMem: a verification development.
\<close>

end
